(* ===== verification/Raft_Prelude.thy ===== *)
theory Raft_Prelude
  imports Main "HOL-Library.Word"
begin

text \<open>
  The vocabulary of the development: the machine integers of the C++ sources, the ways in
  which the program can stop (\<open>crash\<close>), results that are either such a stop or a
  value, byte buffers addressed by offset, and the list lemmas that the components share.

  Everything that is undefined behaviour, an explicit \<open>exit(1)\<close> or a violated library
  contract in the sources is a value of \<open>crash\<close> here, so that no operation of the
  model silently returns something the program would not have computed.
\<close>

section \<open>Machine integers and proof collections\<close>

type_synonym u8 = "8 word"
type_synonym u16 = "16 word"
type_synonym u32 = "32 word"
type_synonym u64 = "64 word"
type_synonym bytes = "u8 list"

named_theorems wire_simps \<open>encode/decode laws of the protobuf wire format\<close>
named_theorems msg_defs \<open>unfolding of the generated message operations\<close>
named_theorems srv_defs \<open>unfolding of the server and proxy operations\<close>
named_theorems conn_defs \<open>unfolding of the connection operations\<close>
named_theorems frame_simps \<open>fields an operation leaves unchanged\<close>

text \<open>A C string literal as the bytes of a \<open>std::string\<close>.\<close>

definition str :: "string \<Rightarrow> bytes" where
  "str s = map of_char s"

section \<open>Stops of the program\<close>

datatype crash =
    NullDeref        \<comment> \<open>a null smart pointer is dereferenced\<close>
  | OutOfRange       \<comment> \<open>\<open>operator[]\<close> of a vector or deque outside its size\<close>
  | BufferOverflow   \<comment> \<open>bytes written or read outside a 1440-byte buffer\<close>
  | OverRead         \<comment> \<open>a C string is scanned past all readable memory\<close>
  | UseAfterFree     \<comment> \<open>a member of a destroyed object is used\<close>
  | InvalidErase     \<comment> \<open>\<open>erase(end())\<close>\<close>
  | SignedOverflow   \<comment> \<open>\<open>int\<close> arithmetic leaves its range\<close>
  | NegativeLength   \<comment> \<open>a negative size is handed to a library routine\<close>
  | OverlappingCopy  \<comment> \<open>\<open>memcpy\<close> on overlapping regions\<close>
  | ExitFailure      \<comment> \<open>\<open>exit(1)\<close>\<close>
  | UninitRead       \<comment> \<open>an uninitialised member is read\<close>
  | NoReturn         \<comment> \<open>a loop that never ends\<close>

type_synonym 'a res = "crash + 'a"

fun rbind :: "'a res \<Rightarrow> ('a \<Rightarrow> 'b res) \<Rightarrow> 'b res" where
  "rbind (Inl e) f = Inl e"
| "rbind (Inr x) f = f x"

definition guard_or :: "bool \<Rightarrow> crash \<Rightarrow> unit res" where
  "guard_or b e = (if b then Inr () else Inl e)"

lemma rbind_Inr_iff: "rbind m f = Inr y \<longleftrightarrow> (\<exists>x. m = Inr x \<and> f x = Inr y)"
  by (cases m) auto

lemma rbind_Inl_iff:
  "rbind m f = Inl e \<longleftrightarrow> m = Inl e \<or> (\<exists>x. m = Inr x \<and> f x = Inl e)"
  by (cases m) auto

lemma rbind_assoc: "rbind (rbind m f) g = rbind m (\<lambda>x. rbind (f x) g)"
  by (cases m) auto

lemma rbind_Inr_right [simp]: "rbind m Inr = m"
  by (cases m) auto

lemma guard_or_Inr [simp]: "guard_or b e = Inr u \<longleftrightarrow> b"
  by (simp add: guard_or_def)

lemma guard_or_Inl [simp]: "guard_or b e = Inl c \<longleftrightarrow> \<not> b \<and> c = e"
  by (auto simp: guard_or_def)

lemma guard_or_True [simp]: "guard_or True e = Inr ()"
  by (simp add: guard_or_def)

lemma guard_or_False [simp]: "guard_or False e = Inl e"
  by (simp add: guard_or_def)

lemma rbind_cong [fundef_cong]:
  "m = m' \<Longrightarrow> (\<And>x. m' = Inr x \<Longrightarrow> f x = g x) \<Longrightarrow> rbind m f = rbind m' g"
  by (cases m') auto

text \<open>A loop body applied to the elements of a container in order, stopping at a crash.\<close>

fun rfold :: "('a \<Rightarrow> 's \<Rightarrow> 's res) \<Rightarrow> 'a list \<Rightarrow> 's \<Rightarrow> 's res" where
  "rfold f [] s = Inr s"
| "rfold f (x # xs) s = rbind (f x s) (rfold f xs)"

lemma rfold_append: "rfold f (xs @ ys) s = rbind (rfold f xs s) (rfold f ys)"
proof (induction xs arbitrary: s)
  case (Cons x xs)
  have "rfold f (xs @ ys) = (\<lambda>s. rbind (rfold f xs s) (rfold f ys))"
    using Cons.IH by (rule ext)
  then show ?case by (simp add: rbind_assoc)
qed simp

text \<open>The invariant rule of the loop: what every iteration keeps, the loop keeps.\<close>

lemma rfold_invariant:
  assumes "rfold f xs s = Inr s'" and "P s"
    and "\<And>x s s'. x \<in> set xs \<Longrightarrow> P s \<Longrightarrow> f x s = Inr s' \<Longrightarrow> P s'"
  shows "P s'"
  using assms
proof (induction xs arbitrary: s)
  case Nil
  then show ?case by simp
next
  case (Cons x xs)
  then obtain t where "f x s = Inr t" and "rfold f xs t = Inr s'"
    by (auto simp: rbind_Inr_iff)
  with Cons show ?case by (meson list.set_intros)
qed

lemma rfold_total:
  assumes "P s"
    and "\<And>x s. x \<in> set xs \<Longrightarrow> P s \<Longrightarrow> \<exists>s'. f x s = Inr s' \<and> P s'"
  shows "\<exists>s'. rfold f xs s = Inr s' \<and> P s'"
  using assms
proof (induction xs arbitrary: s)
  case Nil
  then show ?case by simp
next
  case (Cons x xs)
  from Cons.prems(2) [of x s] Cons.prems(1)
  obtain t where t: "f x s = Inr t" "P t" by auto
  from Cons.IH [OF t(2)] Cons.prems(2) show ?case by (simp add: t(1))
qed

section \<open>Byte buffers\<close>

text \<open>
  \<open>blit off src buf\<close> overwrites \<open>buf\<close> from offset \<open>off\<close> with \<open>src\<close>: the effect
  of \<open>memcpy\<close>, \<open>recv\<close> and \<open>SerializeToArray\<close> on a \<open>std::vector<uint8_t>\<close>. The
  callers check that the region lies inside the buffer.
\<close>

definition blit :: "nat \<Rightarrow> bytes \<Rightarrow> bytes \<Rightarrow> bytes" where
  "blit off src buf = take off buf @ src @ drop (off + length src) buf"

lemma length_blit [simp]: "off + length src \<le> length buf \<Longrightarrow> length (blit off src buf) = length buf"
  by (simp add: blit_def)

lemma take_blit_end:
  "off + length src \<le> length buf \<Longrightarrow> take (off + length src) (blit off src buf) = take off buf @ src"
  by (simp add: blit_def)

lemma take_blit_0 [simp]: "length src \<le> length buf \<Longrightarrow> take (length src) (blit 0 src buf) = src"
  using take_blit_end [of 0 src buf] by simp

lemma blit_Nil [simp]: "off \<le> length buf \<Longrightarrow> blit off [] buf = buf"
  by (simp add: blit_def)

lemma blit_blit_adjacent:
  "off + length a + length b \<le> length buf \<Longrightarrow>
    blit (off + length a) b (blit off a buf) = blit off (a @ b) buf"
  by (simp add: blit_def ac_simps)

text \<open>Little-endian integers, as \<open>reinterpret_cast\<close> reads and writes them on x86.\<close>

definition le16 :: "u16 \<Rightarrow> bytes" where
  "le16 x = [ucast x, ucast (drop_bit 8 x)]"

definition le32 :: "u32 \<Rightarrow> bytes" where
  "le32 x = [ucast x, ucast (drop_bit 8 x), ucast (drop_bit 16 x), ucast (drop_bit 24 x)]"

definition rd16 :: "bytes \<Rightarrow> u16" where
  "rd16 bs = ucast (bs ! 0) + push_bit 8 (ucast (bs ! 1))"

definition rd32 :: "bytes \<Rightarrow> u32" where
  "rd32 bs = ucast (bs ! 0) + push_bit 8 (ucast (bs ! 1))
     + push_bit 16 (ucast (bs ! 2)) + push_bit 24 (ucast (bs ! 3))"

lemma length_le16 [simp]: "length (le16 x) = 2"
  by (simp add: le16_def)

lemma length_le32 [simp]: "length (le32 x) = 4"
  by (simp add: le32_def)

lemma rd16_le16 [simp]: "rd16 (le16 x @ r) = x"
proof (rule word_unat_eq_iff [THEN iffD2])
  have d: "unat (drop_bit 8 x) = unat x div 256"
    by (subst unat_drop_bit_eq) (simp add: drop_bit_eq_div)
  have b: "unat x < 65536" using unsigned_less [of x] by simp
  show "unat (rd16 (le16 x @ r)) = unat x"
    using b
    by (simp add: rd16_def le16_def unat_word_ariths push_bit_eq_mult unsigned_ucast_eq take_bit_eq_mod d)
qed

lemma nat_bytes4:
  "(n::nat) mod 256 + n div 256 mod 256 * 256 + n div 65536 mod 256 * 65536
     + n div 16777216 * 16777216 = n"
proof -
  have "n mod (256 * 256) = 256 * (n div 256 mod 256) + n mod 256"
    by (rule mod_mult2_eq)
  moreover have "n mod (65536 * 256) = 65536 * (n div 65536 mod 256) + n mod 65536"
    by (rule mod_mult2_eq)
  moreover have "n = 16777216 * (n div 16777216) + n mod 16777216" by simp
  ultimately show ?thesis by simp
qed

lemma rd32_le32 [simp]: "rd32 (le32 x @ r) = x"
proof (rule word_unat_eq_iff [THEN iffD2])
  have d: "unat (drop_bit k x) = unat x div 2 ^ k" for k
    by (subst unat_drop_bit_eq) (simp add: drop_bit_eq_div)
  have b: "unat x < 4294967296" using unsigned_less [of x] by simp
  show "unat (rd32 (le32 x @ r)) = unat x"
    using b
    by (simp add: rd32_def le32_def unat_word_ariths push_bit_eq_mult unsigned_ucast_eq
        take_bit_eq_mod d nat_bytes4)
qed

section \<open>Numbers as words\<close>

text \<open>The code takes \<open>-1\<close>, as an \<open>int\<close>, for ``no such entry''.\<close>

lemma sint_minus1: "sint x = - 1 \<longleftrightarrow> x = (- 1 :: u32)"
proof
  assume "sint x = - 1"
  then have "word_of_int (sint x) = (- 1 :: u32)" by simp
  then show "x = - 1" by simp
qed simp

lemma unat_of_nat_u32: "j < 2 ^ 32 \<Longrightarrow> unat (of_nat j :: u32) = j"
  by (simp add: unat_of_nat)

lemma unat_of_nat_u64: "j < 2 ^ 64 \<Longrightarrow> unat (of_nat j :: u64) = j"
  by (simp add: unat_of_nat)

lemma ucast_of_nat_u32: "j < 2 ^ 32 \<Longrightarrow> (ucast (of_nat j :: u64) :: u32) = of_nat j"
  by (rule word_unat_eq_iff [THEN iffD2])
    (simp add: unat_of_nat_u32 unat_of_nat_u64 unsigned_ucast_eq take_bit_nat_eq_self)

lemma unat_ucast_u64: "unat (ucast (x :: u32) :: u64) = unat x"
proof -
  have "unat x < 2 ^ 64" using unsigned_less [of x, where 'a = nat] by simp
  then show ?thesis by (simp add: unsigned_ucast_eq take_bit_nat_eq_self)
qed

end
