(* ===== verification/Pb_Wire.thy ===== *)
theory Pb_Wire
  imports Raft_Prelude
begin

text \<open>
  The protobuf runtime as \<open>protocol/api.pb.cc\<close> sees it. The runtime itself
  (\<open>google/protobuf\<close>) is not part of the repository, so it is a parameter: a record
  \<open>wire\<close> of the \<open>CodedInputStream\<close>, \<open>WireFormatLite\<close> and \<open>WireFormat\<close> routines
  that the generated code calls. A coded input stream is the list of the bytes still to be
  read. What the generated code relies on is the locale \<open>wire_format\<close>: a written field is
  read back with its tag, sizes are the lengths of what is written, and reads never hand
  back more bytes than they got.

  The loop that every generated \<open>MergePartialFromCodedStream\<close> runs is
  \<open>merge_loop\<close>; the \<open>switch\<close> over the field number is its parameter \<open>fld\<close>.
\<close>

section \<open>The runtime's routines\<close>

record wire =
  ReadTag :: "bytes \<Rightarrow> u32 \<times> bool \<times> bytes"
    \<comment> \<open>\<open>ReadTagWithCutoffNoLastTag(127)\<close>: tag, known to be at most 127, rest\<close>
  ReadUInt32 :: "bytes \<Rightarrow> (u32 \<times> bytes) option"
  ReadEnum :: "bytes \<Rightarrow> (u32 \<times> bytes) option"
  ReadBool :: "bytes \<Rightarrow> (bool \<times> bytes) option"
  ReadString :: "bytes \<Rightarrow> bytes \<times> bytes option"
    \<comment> \<open>what is left in the string, and the rest of the stream on success\<close>
  ReadLimit :: "bytes \<Rightarrow> bytes \<times> bytes option"
    \<comment> \<open>the sub-stream of a length-delimited message, and what follows it\<close>
  VerifyUtf8String :: "bytes \<Rightarrow> bool"
  SkipField :: "u32 \<Rightarrow> bytes \<Rightarrow> (bytes \<times> bytes) option"
    \<comment> \<open>the unknown field in its wire encoding, and the rest\<close>
  PreserveUnknowns :: bool
    \<comment> \<open>\<open>GetProto3PreserveUnknownsDefault\<close>\<close>
  WriteUInt32 :: "nat \<Rightarrow> u32 \<Rightarrow> bytes"
  WriteEnum :: "nat \<Rightarrow> u32 \<Rightarrow> bytes"
  WriteBool :: "nat \<Rightarrow> bool \<Rightarrow> bytes"
  WriteString :: "nat \<Rightarrow> bytes \<Rightarrow> bytes"
  WriteMessage :: "nat \<Rightarrow> nat \<Rightarrow> bytes \<Rightarrow> bytes"
    \<comment> \<open>field number, cached size, the message's own bytes\<close>
  UInt32NoTag :: "u32 \<Rightarrow> bytes"
  EnumNoTag :: "u32 \<Rightarrow> bytes"
  BoolNoTag :: "bool \<Rightarrow> bytes"
  StringNoTag :: "bytes \<Rightarrow> bytes"
  MessageNoTag :: "nat \<Rightarrow> bytes \<Rightarrow> bytes"
  UInt32Size :: "u32 \<Rightarrow> nat"
  EnumSize :: "u32 \<Rightarrow> nat"
  StringSize :: "bytes \<Rightarrow> nat"
  MessageSize :: "nat \<Rightarrow> nat"

definition GetTagFieldNumber :: "u32 \<Rightarrow> u32" where
  "GetTagFieldNumber tag = drop_bit 3 tag"

section \<open>The generated parse loop\<close>

datatype 'm fres =
    FParsed 'm bytes      \<comment> \<open>the case broke out of the switch: next iteration\<close>
  | FFailure 'm           \<comment> \<open>\<open>goto failure\<close>\<close>
  | FUnusual              \<comment> \<open>\<open>goto handle_unusual\<close>\<close>

datatype 'm parse =
    PSuccess 'm bytes     \<comment> \<open>returned true; the stream where the last tag was read\<close>
  | PFailure 'm           \<comment> \<open>returned false; the fields parsed so far stay\<close>

fun parsed_msg :: "'m parse \<Rightarrow> 'm" where
  "parsed_msg (PSuccess m bs) = m"
| "parsed_msg (PFailure m) = m"

partial_function (option) merge_loop ::
  "wire \<Rightarrow> (u32 \<Rightarrow> bytes \<Rightarrow> 'm \<Rightarrow> 'm fres option) \<Rightarrow> (bytes \<Rightarrow> 'm \<Rightarrow> 'm)
     \<Rightarrow> bytes \<Rightarrow> 'm \<Rightarrow> 'm parse option" where
  "merge_loop W fld unk bs m =
     Option.bind
       (if fst (snd (ReadTag W bs)) then fld (fst (ReadTag W bs)) (snd (snd (ReadTag W bs))) m
        else Some FUnusual)
       (\<lambda>r. case r of
          FParsed m' bs' \<Rightarrow> merge_loop W fld unk bs' m'
        | FFailure m' \<Rightarrow> Some (PFailure m')
        | FUnusual \<Rightarrow>
            if fst (ReadTag W bs) = 0 then Some (PSuccess m bs)
            else (case SkipField W (fst (ReadTag W bs)) (snd (snd (ReadTag W bs))) of
                    None \<Rightarrow> Some (PFailure m)
                  | Some (u, bs') \<Rightarrow> merge_loop W fld unk bs' (unk u m)))"

text \<open>
  The bodies of the \<open>switch\<close> cases: \<open>ReadPrimitive\<close> into a member, \<open>ReadString\<close>
  followed by \<open>VerifyUtf8String\<close>, and a length-delimited message handed to its own
  \<open>MergePartialFromCodedStream\<close> (\<open>ReadMessage\<close>: it must use up its limit).
\<close>

definition read_u32 :: "wire \<Rightarrow> (u32 \<Rightarrow> 'm \<Rightarrow> 'm) \<Rightarrow> bytes \<Rightarrow> 'm \<Rightarrow> 'm fres option" where
  "read_u32 W upd bs m = Some (case ReadUInt32 W bs of
      None \<Rightarrow> FFailure m | Some (v, r) \<Rightarrow> FParsed (upd v m) r)"

definition read_enum :: "wire \<Rightarrow> (u32 \<Rightarrow> 'm \<Rightarrow> 'm) \<Rightarrow> bytes \<Rightarrow> 'm \<Rightarrow> 'm fres option" where
  "read_enum W upd bs m = Some (case ReadEnum W bs of
      None \<Rightarrow> FFailure m | Some (v, r) \<Rightarrow> FParsed (upd v m) r)"

definition read_bool :: "wire \<Rightarrow> (bool \<Rightarrow> 'm \<Rightarrow> 'm) \<Rightarrow> bytes \<Rightarrow> 'm \<Rightarrow> 'm fres option" where
  "read_bool W upd bs m = Some (case ReadBool W bs of
      None \<Rightarrow> FFailure m | Some (v, r) \<Rightarrow> FParsed (upd v m) r)"

definition read_string :: "wire \<Rightarrow> (bytes \<Rightarrow> 'm \<Rightarrow> 'm) \<Rightarrow> bytes \<Rightarrow> 'm \<Rightarrow> 'm fres option" where
  "read_string W upd bs m = Some (case ReadString W bs of
      (s, None) \<Rightarrow> FFailure (upd s m)
    | (s, Some r) \<Rightarrow> if VerifyUtf8String W s then FParsed (upd s m) r else FFailure (upd s m))"

definition read_message ::
  "wire \<Rightarrow> (bytes \<Rightarrow> 'e parse option) \<Rightarrow> ('e \<Rightarrow> 'm \<Rightarrow> 'm) \<Rightarrow> bytes \<Rightarrow> 'm \<Rightarrow> 'm fres option" where
  "read_message W sub upd bs m =
     (case ReadLimit W bs of (lim, after) \<Rightarrow>
        map_option (\<lambda>p. case p of
            PFailure e \<Rightarrow> FFailure (upd e m)
          | PSuccess e left \<Rightarrow>
              (case after of
                 None \<Rightarrow> FFailure (upd e m)
               | Some r \<Rightarrow> if left = [] then FParsed (upd e m) r else FFailure (upd e m)))
          (sub lim))"

text \<open>\<open>if (this->x() != 0) \{ write \}\<close>: the writers skip default values.\<close>

definition write_if :: "bool \<Rightarrow> bytes \<Rightarrow> bytes" where
  "write_if b x = (if b then x else [])"

lemma length_write_if: "length (write_if b x) = (if b then length x else 0)"
  by (simp add: write_if_def)

lemma set_write_if: "set (write_if b x) = (if b then set x else {})"
  by (simp add: write_if_def)

lemmas read_defs = read_u32_def read_enum_def read_bool_def read_string_def read_message_def

text \<open>
  Unknown fields: kept in \<open>_internal_metadata_\<close> (here, in their wire encoding), written
  back and counted only when the runtime preserves them.
\<close>

definition unknown_bytes :: "wire \<Rightarrow> bytes \<Rightarrow> bytes" where
  "unknown_bytes W u = (if u \<noteq> [] \<and> PreserveUnknowns W then u else [])"

lemma unknown_bytes_Nil [simp]: "unknown_bytes W [] = []"
  by (simp add: unknown_bytes_def)

text \<open>
  A \<open>switch\<close> is tame when tag 0 falls through to \<open>handle_unusual\<close> and no case
  gives back more bytes than it got, or fails to return.
\<close>

definition shrinks :: "bytes \<Rightarrow> 'm fres option \<Rightarrow> bool" where
  "shrinks bs res \<longleftrightarrow>
     (\<exists>r. res = Some r \<and> (\<forall>m' bs'. r = FParsed m' bs' \<longrightarrow> length bs' \<le> length bs))"

definition tame :: "(u32 \<Rightarrow> bytes \<Rightarrow> 'm \<Rightarrow> 'm fres option) \<Rightarrow> bool" where
  "tame fld \<longleftrightarrow> (\<forall>bs m. fld 0 bs m = Some FUnusual) \<and> (\<forall>t bs m. shrinks bs (fld t bs m))"

lemma tame_zero: "tame fld \<Longrightarrow> fld 0 bs m = Some FUnusual"
  by (simp add: tame_def)

lemma tame_obtain:
  assumes "tame fld"
  obtains r where "fld t bs m = Some r"
    and "\<And>m' bs'. r = FParsed m' bs' \<Longrightarrow> t \<noteq> 0 \<and> length bs' \<le> length bs"
  using assms unfolding tame_def shrinks_def by (metis fres.distinct(3) option.inject)

lemma shrinks_unusual [simp]: "shrinks bs (Some FUnusual)"
  by (simp add: shrinks_def)

lemma shrinks_if [intro]: "shrinks bs x \<Longrightarrow> shrinks bs y \<Longrightarrow> shrinks bs (if c then x else y)"
  by simp

section \<open>What the generated code relies on\<close>

locale wire_reads =
  fixes W :: wire
  assumes tag_end: "fst (ReadTag W []) = 0"
    and tag_zero: "fst (ReadTag W (0 # r)) = 0"
    and tag_shrinks: "fst (ReadTag W bs) \<noteq> 0 \<Longrightarrow> length (snd (snd (ReadTag W bs))) < length bs"
    and u32_shrinks: "ReadUInt32 W bs = Some (v, r) \<Longrightarrow> length r \<le> length bs"
    and enum_shrinks: "ReadEnum W bs = Some (v, r) \<Longrightarrow> length r \<le> length bs"
    and bool_shrinks: "ReadBool W bs = Some (b, r) \<Longrightarrow> length r \<le> length bs"
    and string_shrinks: "ReadString W bs = (s, Some r) \<Longrightarrow> length r \<le> length bs"
    and limit_shrinks: "ReadLimit W bs = (s, Some r) \<Longrightarrow> length r \<le> length bs"
    and skip_shrinks: "SkipField W t bs = Some (u, r) \<Longrightarrow> length r \<le> length bs"
begin

text \<open>The parse loop ends on every input: each iteration reads a non-zero tag.\<close>

lemma merge_loop_returns:
  assumes "tame fld"
  shows "\<exists>p. merge_loop W fld unk bs m = Some p"
proof (induction "length bs" arbitrary: bs m rule: less_induct)
  case less
  let ?t = "fst (ReadTag W bs)" and ?r = "snd (snd (ReadTag W bs))"
  obtain r where r: "fld ?t ?r m = Some r"
    and sh: "\<And>m' bs'. r = FParsed m' bs' \<Longrightarrow> ?t \<noteq> 0 \<and> length bs' \<le> length ?r"
    using assms by (rule tame_obtain) blast
  have next': "length bs' < length bs" if "?t \<noteq> 0" "length bs' \<le> length ?r" for bs'
    using tag_shrinks [OF that(1)] that(2) by simp
  have unusual: "\<exists>p. (case SkipField W ?t ?r of None \<Rightarrow> Some (PFailure m)
      | Some (u, bs') \<Rightarrow> merge_loop W fld unk bs' (unk u m)) = Some p" if "?t \<noteq> 0"
  proof (cases "SkipField W ?t ?r")
    case (Some a)
    then obtain u bs' where a: "a = (u, bs')" by (cases a)
    from Some have "length bs' \<le> length ?r" by (simp add: a skip_shrinks)
    from less [OF next' [OF that this]] show ?thesis using Some by (simp add: a)
  qed simp
  have parsed: "\<exists>p. merge_loop W fld unk bs' m' = Some p" if "r = FParsed m' bs'" for m' bs'
    using less [OF next'] sh [OF that] by blast
  show ?case
    using unusual parsed r by (subst merge_loop.simps) (auto split: fres.split)
qed

lemma merge_loop_end: "tame fld \<Longrightarrow> merge_loop W fld unk [] m = Some (PSuccess m [])"
  by (subst merge_loop.simps) (simp add: tag_end tame_zero)

text \<open>A zero byte where a tag is expected ends the parse with the fields read so far.\<close>

lemma merge_loop_zero: "tame fld \<Longrightarrow> merge_loop W fld unk (0 # r) m = Some (PSuccess m (0 # r))"
  by (subst merge_loop.simps) (simp add: tag_zero tame_zero)

lemma shrinks_read_prims [intro!, simp]:
  "shrinks bs (read_u32 W f bs m)" "shrinks bs (read_enum W f bs m)"
  "shrinks bs (read_bool W g bs m)" "shrinks bs (read_string W h bs m)"
  by (auto simp: shrinks_def read_defs split: option.splits prod.splits
      dest: u32_shrinks enum_shrinks bool_shrinks string_shrinks)

lemma shrinks_read_message [intro]:
  assumes "\<And>bs. \<exists>p. sub bs = Some p"
  shows "shrinks bs (read_message W sub upd bs m)"
proof -
  obtain lim after where l: "ReadLimit W bs = (lim, after)" by (cases "ReadLimit W bs")
  moreover obtain p where "sub lim = Some p" using assms by blast
  ultimately show ?thesis
    by (auto simp: shrinks_def read_message_def split: parse.splits option.splits
        dest: limit_shrinks)
qed

end

locale wire_format = wire_reads +
  assumes tag_u32: "1 \<le> n \<Longrightarrow> n \<le> 15 \<Longrightarrow>
      ReadTag W (WriteUInt32 W n v @ r) = (of_nat (8 * n), True, UInt32NoTag W v @ r)"
    and tag_enum: "1 \<le> n \<Longrightarrow> n \<le> 15 \<Longrightarrow>
      ReadTag W (WriteEnum W n v @ r) = (of_nat (8 * n), True, EnumNoTag W v @ r)"
    and tag_bool: "1 \<le> n \<Longrightarrow> n \<le> 15 \<Longrightarrow>
      ReadTag W (WriteBool W n b @ r) = (of_nat (8 * n), True, BoolNoTag W b @ r)"
    and tag_string: "1 \<le> n \<Longrightarrow> n \<le> 15 \<Longrightarrow>
      ReadTag W (WriteString W n s @ r) = (of_nat (8 * n + 2), True, StringNoTag W s @ r)"
    and tag_message: "1 \<le> n \<Longrightarrow> n \<le> 15 \<Longrightarrow> k = length p \<Longrightarrow>
      ReadTag W (WriteMessage W n k p @ r) = (of_nat (8 * n + 2), True, MessageNoTag W k p @ r)"
    and rd_u32: "ReadUInt32 W (UInt32NoTag W v @ r) = Some (v, r)"
    and rd_enum: "ReadEnum W (EnumNoTag W v @ r) = Some (v, r)"
    and rd_bool: "ReadBool W (BoolNoTag W b @ r) = Some (b, r)"
    and rd_string: "ReadString W (StringNoTag W s @ r) = (s, Some r)"
    and rd_message: "k = length p \<Longrightarrow> ReadLimit W (MessageNoTag W k p @ r) = (p, Some r)"
    and len_u32: "1 \<le> n \<Longrightarrow> n \<le> 15 \<Longrightarrow> length (WriteUInt32 W n v) = 1 + UInt32Size W v"
    and len_enum: "1 \<le> n \<Longrightarrow> n \<le> 15 \<Longrightarrow> length (WriteEnum W n v) = 1 + EnumSize W v"
    and len_bool: "1 \<le> n \<Longrightarrow> n \<le> 15 \<Longrightarrow> length (WriteBool W n b) = 1 + 1"
    and len_string: "1 \<le> n \<Longrightarrow> n \<le> 15 \<Longrightarrow> length (WriteString W n s) = 1 + StringSize W s"
    and len_message: "1 \<le> n \<Longrightarrow> n \<le> 15 \<Longrightarrow> k = length p \<Longrightarrow>
      length (WriteMessage W n k p) = 1 + MessageSize W k"
begin

text \<open>
  One iteration of the parse loop on a written field, in the form the message proofs use:
  the field is optional in proto3 (a default value is not written), and the member still
  has its default (\<open>upd 0 m = m\<close>) when the field arrives.
\<close>

lemma merge_loop_u32:
  assumes "1 \<le> n" "n \<le> 15"
    and "\<And>bs m. fld (of_nat (8 * n)) bs m = read_u32 W upd bs m" and "upd 0 m = m"
  shows "merge_loop W fld unk (write_if (v \<noteq> 0) (WriteUInt32 W n v) @ r) m =
         merge_loop W fld unk r (upd v m)"
  using assms(3,4)
  by (cases "v = 0") (simp_all add: merge_loop.simps [of W fld unk "WriteUInt32 W n v @ r"]
      tag_u32 [OF assms(1,2)] read_u32_def rd_u32 write_if_def)

lemma merge_loop_enum:
  assumes "1 \<le> n" "n \<le> 15"
    and "\<And>bs m. fld (of_nat (8 * n)) bs m = read_enum W upd bs m" and "upd 0 m = m"
  shows "merge_loop W fld unk (write_if (v \<noteq> 0) (WriteEnum W n v) @ r) m =
         merge_loop W fld unk r (upd v m)"
  using assms(3,4)
  by (cases "v = 0") (simp_all add: merge_loop.simps [of W fld unk "WriteEnum W n v @ r"]
      tag_enum [OF assms(1,2)] read_enum_def rd_enum write_if_def)

lemma merge_loop_bool:
  assumes "1 \<le> n" "n \<le> 15"
    and "\<And>bs m. fld (of_nat (8 * n)) bs m = read_bool W upd bs m" and "upd False m = m"
  shows "merge_loop W fld unk (write_if b (WriteBool W n b) @ r) m =
         merge_loop W fld unk r (upd b m)"
  using assms(3,4)
  by (cases b) (simp_all add: merge_loop.simps [of W fld unk "WriteBool W n True @ r"]
      tag_bool [OF assms(1,2)] read_bool_def rd_bool write_if_def)

lemma merge_loop_string:
  assumes "1 \<le> n" "n \<le> 15"
    and "\<And>bs m. fld (of_nat (8 * n + 2)) bs m = read_string W upd bs m" and "upd [] m = m"
    and "VerifyUtf8String W s"
  shows "merge_loop W fld unk (write_if (s \<noteq> []) (WriteString W n s) @ r) m =
         merge_loop W fld unk r (upd s m)"
  using assms(3,4,5)
  by (cases "s = []") (simp_all add: merge_loop.simps [of W fld unk "WriteString W n s @ r"]
      tag_string [OF assms(1,2)] read_string_def rd_string write_if_def)

lemma merge_loop_message:
  assumes "1 \<le> n" "n \<le> 15" and "k = length p" and "sub p = Some (PSuccess e [])"
    and "\<And>bs m. fld (of_nat (8 * n + 2)) bs m = read_message W sub upd bs m"
  shows "merge_loop W fld unk (WriteMessage W n k p @ r) m = merge_loop W fld unk r (upd e m)"
  using assms(4,5)
  by (simp add: merge_loop.simps [of W fld unk "WriteMessage W n k p @ r"]
      tag_message [OF assms(1,2,3)] read_message_def rd_message [OF assms(3)])

end

text \<open>
  The further fact that the persistence code depends on: in the documented encoding, a field
  that is written at all (its value is not the default) has no zero byte, unless a zero byte
  is in the string itself.
\<close>

locale wire_nul_free = wire_format +
  assumes nul_u32: "1 \<le> n \<Longrightarrow> n \<le> 15 \<Longrightarrow> v \<noteq> 0 \<Longrightarrow> 0 \<notin> set (WriteUInt32 W n v)"
    and nul_enum: "1 \<le> n \<Longrightarrow> n \<le> 15 \<Longrightarrow> v \<noteq> 0 \<Longrightarrow> 0 \<notin> set (WriteEnum W n v)"
    and nul_string: "1 \<le> n \<Longrightarrow> n \<le> 15 \<Longrightarrow> s \<noteq> [] \<Longrightarrow> 0 \<notin> set s \<Longrightarrow>
      0 \<notin> set (WriteString W n s)"

end
