(* ===== verification/Api_Messages.thy ===== *)
theory Api_Messages
  imports Pb_Wire
begin

text \<open>
  The seven messages of \<open>protocol/proto/api.proto\<close> as \<open>protocol/api.pb.cc\<close>
  implements them: each class is a record of its members, with the unknown fields of
  \<open>_internal_metadata_\<close> as their wire encoding, and one definition per generated
  member function. \<open>_cached_size_\<close> is not kept: the runtime calls \<open>ByteSizeLong\<close>
  right before it serialises, so the size a nested message is written with is its
  \<open>ByteSizeLong\<close>. The \<open>CopyFrom\<close> flag \<open>same\<close> is the self-assignment test.
  An enum member holds any 32-bit value, as in proto3.
\<close>

section \<open>The generated messages\<close>

definition NORMAL :: u32 where "NORMAL = 0"

definition CFGADD :: u32 where "CFGADD = 1"

definition CFGREM :: u32 where "CFGREM = 2"

definition entry_entrytype_IsValid :: "int \<Rightarrow> bool" where
  "entry_entrytype_IsValid value \<longleftrightarrow> value = 0 \<or> value = 1 \<or> value = 2"

subsection \<open>\<open>handshake_q\<close>\<close>

record handshake_q =
  hq_raftport :: "u32"
  hq_httpport :: "u32"
  hq_nodeid :: "u32"
  hq_unknown :: bytes

definition handshake_q_SharedCtor :: handshake_q where
  "handshake_q_SharedCtor = \<lparr>hq_raftport = 0, hq_httpport = 0, hq_nodeid = 0, hq_unknown = []\<rparr>"

definition handshake_q_Clear :: "handshake_q \<Rightarrow> handshake_q" where
  "handshake_q_Clear m = m\<lparr>hq_raftport := 0, hq_httpport := 0, hq_nodeid := 0, hq_unknown := []\<rparr>"

definition handshake_q_field :: "wire \<Rightarrow> u32 \<Rightarrow> bytes \<Rightarrow> handshake_q \<Rightarrow> handshake_q fres option" where
  "handshake_q_field W tag bs m =
     (if GetTagFieldNumber tag = 1 then
        (if ucast tag = (8 :: u8) then read_u32 W (\<lambda>v m. m\<lparr>hq_raftport := v\<rparr>) bs m else Some FUnusual)
      else if GetTagFieldNumber tag = 2 then
        (if ucast tag = (16 :: u8) then read_u32 W (\<lambda>v m. m\<lparr>hq_httpport := v\<rparr>) bs m else Some FUnusual)
      else if GetTagFieldNumber tag = 3 then
        (if ucast tag = (24 :: u8) then read_u32 W (\<lambda>v m. m\<lparr>hq_nodeid := v\<rparr>) bs m else Some FUnusual)
      else Some FUnusual)"

definition handshake_q_MergePartialFromCodedStream :: "wire \<Rightarrow> bytes \<Rightarrow> handshake_q \<Rightarrow> handshake_q parse option" where
  "handshake_q_MergePartialFromCodedStream W bs m =
     merge_loop W (handshake_q_field W) (\<lambda>u m. m\<lparr>hq_unknown := hq_unknown m @ u\<rparr>) bs m"

definition handshake_q_InternalSerializeWithCachedSizesToArray :: "wire \<Rightarrow> handshake_q \<Rightarrow> bytes" where
  "handshake_q_InternalSerializeWithCachedSizesToArray W m =
     write_if (hq_raftport m \<noteq> 0) (WriteUInt32 W 1 (hq_raftport m))
     @ write_if (hq_httpport m \<noteq> 0) (WriteUInt32 W 2 (hq_httpport m))
     @ write_if (hq_nodeid m \<noteq> 0) (WriteUInt32 W 3 (hq_nodeid m))
     @ unknown_bytes W (hq_unknown m)"

definition handshake_q_SerializeWithCachedSizes :: "wire \<Rightarrow> handshake_q \<Rightarrow> bytes \<Rightarrow> bytes" where
  "handshake_q_SerializeWithCachedSizes W m output =
     (let output = (if hq_raftport m \<noteq> 0 then output @ WriteUInt32 W 1 (hq_raftport m) else output) in
     (let output = (if hq_httpport m \<noteq> 0 then output @ WriteUInt32 W 2 (hq_httpport m) else output) in
     (let output = (if hq_nodeid m \<noteq> 0 then output @ WriteUInt32 W 3 (hq_nodeid m) else output) in
      output @ unknown_bytes W (hq_unknown m))))"

definition handshake_q_ByteSizeLong :: "wire \<Rightarrow> handshake_q \<Rightarrow> nat" where
  "handshake_q_ByteSizeLong W m =
     length (unknown_bytes W (hq_unknown m))
     + (if hq_raftport m \<noteq> 0 then 1 + UInt32Size W (hq_raftport m) else 0)
     + (if hq_httpport m \<noteq> 0 then 1 + UInt32Size W (hq_httpport m) else 0)
     + (if hq_nodeid m \<noteq> 0 then 1 + UInt32Size W (hq_nodeid m) else 0)"

definition handshake_q_MergeFrom :: "handshake_q \<Rightarrow> handshake_q \<Rightarrow> handshake_q" where
  "handshake_q_MergeFrom from m =
     (let m = m\<lparr>hq_unknown := hq_unknown m @ hq_unknown from\<rparr>;
          m = (if hq_raftport from \<noteq> 0 then m\<lparr>hq_raftport := hq_raftport from\<rparr> else m);
          m = (if hq_httpport from \<noteq> 0 then m\<lparr>hq_httpport := hq_httpport from\<rparr> else m);
          m = (if hq_nodeid from \<noteq> 0 then m\<lparr>hq_nodeid := hq_nodeid from\<rparr> else m)
      in m)"

definition handshake_q_CopyFrom :: "bool \<Rightarrow> handshake_q \<Rightarrow> handshake_q \<Rightarrow> handshake_q" where
  "handshake_q_CopyFrom same from m = (if same then m else handshake_q_MergeFrom from (handshake_q_Clear m))"

definition handshake_q_InternalSwap :: "handshake_q \<Rightarrow> handshake_q \<Rightarrow> handshake_q \<times> handshake_q" where
  "handshake_q_InternalSwap m other =
     (m\<lparr>hq_raftport := hq_raftport other,
        hq_httpport := hq_httpport other,
        hq_nodeid := hq_nodeid other,
        hq_unknown := hq_unknown other\<rparr>,
      other\<lparr>hq_raftport := hq_raftport m,
        hq_httpport := hq_httpport m,
        hq_nodeid := hq_nodeid m,
        hq_unknown := hq_unknown m\<rparr>)"

lemmas handshake_q_defs [msg_defs] = handshake_q_SharedCtor_def handshake_q_Clear_def handshake_q_MergeFrom_def handshake_q_CopyFrom_def

subsection \<open>\<open>handshake_r\<close>\<close>

record handshake_r =
  hr_result :: "bool"
  hr_leaderhost :: "bytes"
  hr_leaderraftport :: "u32"
  hr_unknown :: bytes

definition handshake_r_SharedCtor :: handshake_r where
  "handshake_r_SharedCtor = \<lparr>hr_result = False, hr_leaderhost = [], hr_leaderraftport = 0, hr_unknown = []\<rparr>"

definition handshake_r_Clear :: "handshake_r \<Rightarrow> handshake_r" where
  "handshake_r_Clear m = m\<lparr>hr_leaderhost := [], hr_result := False, hr_leaderraftport := 0, hr_unknown := []\<rparr>"

definition handshake_r_field :: "wire \<Rightarrow> u32 \<Rightarrow> bytes \<Rightarrow> handshake_r \<Rightarrow> handshake_r fres option" where
  "handshake_r_field W tag bs m =
     (if GetTagFieldNumber tag = 1 then
        (if ucast tag = (8 :: u8) then read_bool W (\<lambda>v m. m\<lparr>hr_result := v\<rparr>) bs m else Some FUnusual)
      else if GetTagFieldNumber tag = 2 then
        (if ucast tag = (18 :: u8) then read_string W (\<lambda>v m. m\<lparr>hr_leaderhost := v\<rparr>) bs m else Some FUnusual)
      else if GetTagFieldNumber tag = 3 then
        (if ucast tag = (24 :: u8) then read_u32 W (\<lambda>v m. m\<lparr>hr_leaderraftport := v\<rparr>) bs m else Some FUnusual)
      else Some FUnusual)"

definition handshake_r_MergePartialFromCodedStream :: "wire \<Rightarrow> bytes \<Rightarrow> handshake_r \<Rightarrow> handshake_r parse option" where
  "handshake_r_MergePartialFromCodedStream W bs m =
     merge_loop W (handshake_r_field W) (\<lambda>u m. m\<lparr>hr_unknown := hr_unknown m @ u\<rparr>) bs m"

definition handshake_r_InternalSerializeWithCachedSizesToArray :: "wire \<Rightarrow> handshake_r \<Rightarrow> bytes" where
  "handshake_r_InternalSerializeWithCachedSizesToArray W m =
     write_if (hr_result m) (WriteBool W 1 (hr_result m))
     @ write_if (hr_leaderhost m \<noteq> []) (WriteString W 2 (hr_leaderhost m))
     @ write_if (hr_leaderraftport m \<noteq> 0) (WriteUInt32 W 3 (hr_leaderraftport m))
     @ unknown_bytes W (hr_unknown m)"

definition handshake_r_SerializeWithCachedSizes :: "wire \<Rightarrow> handshake_r \<Rightarrow> bytes \<Rightarrow> bytes" where
  "handshake_r_SerializeWithCachedSizes W m output =
     (let output = (if hr_result m then output @ WriteBool W 1 (hr_result m) else output) in
     (let output = (if hr_leaderhost m \<noteq> [] then output @ WriteString W 2 (hr_leaderhost m) else output) in
     (let output = (if hr_leaderraftport m \<noteq> 0 then output @ WriteUInt32 W 3 (hr_leaderraftport m) else output) in
      output @ unknown_bytes W (hr_unknown m))))"

definition handshake_r_ByteSizeLong :: "wire \<Rightarrow> handshake_r \<Rightarrow> nat" where
  "handshake_r_ByteSizeLong W m =
     length (unknown_bytes W (hr_unknown m))
     + (if hr_leaderhost m \<noteq> [] then 1 + StringSize W (hr_leaderhost m) else 0)
     + (if hr_result m then 1 + 1 else 0)
     + (if hr_leaderraftport m \<noteq> 0 then 1 + UInt32Size W (hr_leaderraftport m) else 0)"

definition handshake_r_MergeFrom :: "handshake_r \<Rightarrow> handshake_r \<Rightarrow> handshake_r" where
  "handshake_r_MergeFrom from m =
     (let m = m\<lparr>hr_unknown := hr_unknown m @ hr_unknown from\<rparr>;
          m = (if hr_leaderhost from \<noteq> [] then m\<lparr>hr_leaderhost := hr_leaderhost from\<rparr> else m);
          m = (if hr_result from then m\<lparr>hr_result := hr_result from\<rparr> else m);
          m = (if hr_leaderraftport from \<noteq> 0 then m\<lparr>hr_leaderraftport := hr_leaderraftport from\<rparr> else m)
      in m)"

definition handshake_r_CopyFrom :: "bool \<Rightarrow> handshake_r \<Rightarrow> handshake_r \<Rightarrow> handshake_r" where
  "handshake_r_CopyFrom same from m = (if same then m else handshake_r_MergeFrom from (handshake_r_Clear m))"

definition handshake_r_InternalSwap :: "handshake_r \<Rightarrow> handshake_r \<Rightarrow> handshake_r \<times> handshake_r" where
  "handshake_r_InternalSwap m other =
     (m\<lparr>hr_leaderhost := hr_leaderhost other,
        hr_result := hr_result other,
        hr_leaderraftport := hr_leaderraftport other,
        hr_unknown := hr_unknown other\<rparr>,
      other\<lparr>hr_leaderhost := hr_leaderhost m,
        hr_result := hr_result m,
        hr_leaderraftport := hr_leaderraftport m,
        hr_unknown := hr_unknown m\<rparr>)"

lemmas handshake_r_defs [msg_defs] = handshake_r_SharedCtor_def handshake_r_Clear_def handshake_r_MergeFrom_def handshake_r_CopyFrom_def

subsection \<open>\<open>entry\<close>\<close>

record entry =
  en_type :: "u32"
  en_term :: "u32"
  en_nodeid :: "u32"
  en_port :: "u32"
  en_host :: "bytes"
  en_write_it :: "u32"
  en_unknown :: bytes

definition entry_SharedCtor :: entry where
  "entry_SharedCtor = \<lparr>en_type = 0, en_term = 0, en_nodeid = 0, en_port = 0, en_host = [], en_write_it = 0, en_unknown = []\<rparr>"

definition entry_Clear :: "entry \<Rightarrow> entry" where
  "entry_Clear m = m\<lparr>en_host := [], en_type := 0, en_term := 0, en_nodeid := 0, en_port := 0, en_write_it := 0, en_unknown := []\<rparr>"

definition entry_field :: "wire \<Rightarrow> u32 \<Rightarrow> bytes \<Rightarrow> entry \<Rightarrow> entry fres option" where
  "entry_field W tag bs m =
     (if GetTagFieldNumber tag = 1 then
        (if ucast tag = (8 :: u8) then read_enum W (\<lambda>v m. m\<lparr>en_type := v\<rparr>) bs m else Some FUnusual)
      else if GetTagFieldNumber tag = 2 then
        (if ucast tag = (16 :: u8) then read_u32 W (\<lambda>v m. m\<lparr>en_term := v\<rparr>) bs m else Some FUnusual)
      else if GetTagFieldNumber tag = 3 then
        (if ucast tag = (24 :: u8) then read_u32 W (\<lambda>v m. m\<lparr>en_nodeid := v\<rparr>) bs m else Some FUnusual)
      else if GetTagFieldNumber tag = 4 then
        (if ucast tag = (32 :: u8) then read_u32 W (\<lambda>v m. m\<lparr>en_port := v\<rparr>) bs m else Some FUnusual)
      else if GetTagFieldNumber tag = 5 then
        (if ucast tag = (42 :: u8) then read_string W (\<lambda>v m. m\<lparr>en_host := v\<rparr>) bs m else Some FUnusual)
      else if GetTagFieldNumber tag = 6 then
        (if ucast tag = (48 :: u8) then read_u32 W (\<lambda>v m. m\<lparr>en_write_it := v\<rparr>) bs m else Some FUnusual)
      else Some FUnusual)"

definition entry_MergePartialFromCodedStream :: "wire \<Rightarrow> bytes \<Rightarrow> entry \<Rightarrow> entry parse option" where
  "entry_MergePartialFromCodedStream W bs m =
     merge_loop W (entry_field W) (\<lambda>u m. m\<lparr>en_unknown := en_unknown m @ u\<rparr>) bs m"

definition entry_InternalSerializeWithCachedSizesToArray :: "wire \<Rightarrow> entry \<Rightarrow> bytes" where
  "entry_InternalSerializeWithCachedSizesToArray W m =
     write_if (en_type m \<noteq> 0) (WriteEnum W 1 (en_type m))
     @ write_if (en_term m \<noteq> 0) (WriteUInt32 W 2 (en_term m))
     @ write_if (en_nodeid m \<noteq> 0) (WriteUInt32 W 3 (en_nodeid m))
     @ write_if (en_port m \<noteq> 0) (WriteUInt32 W 4 (en_port m))
     @ write_if (en_host m \<noteq> []) (WriteString W 5 (en_host m))
     @ write_if (en_write_it m \<noteq> 0) (WriteUInt32 W 6 (en_write_it m))
     @ unknown_bytes W (en_unknown m)"

definition entry_SerializeWithCachedSizes :: "wire \<Rightarrow> entry \<Rightarrow> bytes \<Rightarrow> bytes" where
  "entry_SerializeWithCachedSizes W m output =
     (let output = (if en_type m \<noteq> 0 then output @ WriteEnum W 1 (en_type m) else output) in
     (let output = (if en_term m \<noteq> 0 then output @ WriteUInt32 W 2 (en_term m) else output) in
     (let output = (if en_nodeid m \<noteq> 0 then output @ WriteUInt32 W 3 (en_nodeid m) else output) in
     (let output = (if en_port m \<noteq> 0 then output @ WriteUInt32 W 4 (en_port m) else output) in
     (let output = (if en_host m \<noteq> [] then output @ WriteString W 5 (en_host m) else output) in
     (let output = (if en_write_it m \<noteq> 0 then output @ WriteUInt32 W 6 (en_write_it m) else output) in
      output @ unknown_bytes W (en_unknown m)))))))"

definition entry_ByteSizeLong :: "wire \<Rightarrow> entry \<Rightarrow> nat" where
  "entry_ByteSizeLong W m =
     length (unknown_bytes W (en_unknown m))
     + (if en_host m \<noteq> [] then 1 + StringSize W (en_host m) else 0)
     + (if en_type m \<noteq> 0 then 1 + EnumSize W (en_type m) else 0)
     + (if en_term m \<noteq> 0 then 1 + UInt32Size W (en_term m) else 0)
     + (if en_nodeid m \<noteq> 0 then 1 + UInt32Size W (en_nodeid m) else 0)
     + (if en_port m \<noteq> 0 then 1 + UInt32Size W (en_port m) else 0)
     + (if en_write_it m \<noteq> 0 then 1 + UInt32Size W (en_write_it m) else 0)"

definition entry_MergeFrom :: "entry \<Rightarrow> entry \<Rightarrow> entry" where
  "entry_MergeFrom from m =
     (let m = m\<lparr>en_unknown := en_unknown m @ en_unknown from\<rparr>;
          m = (if en_host from \<noteq> [] then m\<lparr>en_host := en_host from\<rparr> else m);
          m = (if en_type from \<noteq> 0 then m\<lparr>en_type := en_type from\<rparr> else m);
          m = (if en_term from \<noteq> 0 then m\<lparr>en_term := en_term from\<rparr> else m);
          m = (if en_nodeid from \<noteq> 0 then m\<lparr>en_nodeid := en_nodeid from\<rparr> else m);
          m = (if en_port from \<noteq> 0 then m\<lparr>en_port := en_port from\<rparr> else m);
          m = (if en_write_it from \<noteq> 0 then m\<lparr>en_write_it := en_write_it from\<rparr> else m)
      in m)"

definition entry_CopyFrom :: "bool \<Rightarrow> entry \<Rightarrow> entry \<Rightarrow> entry" where
  "entry_CopyFrom same from m = (if same then m else entry_MergeFrom from (entry_Clear m))"

definition entry_InternalSwap :: "entry \<Rightarrow> entry \<Rightarrow> entry \<times> entry" where
  "entry_InternalSwap m other =
     (m\<lparr>en_host := en_host other,
        en_type := en_type other,
        en_term := en_term other,
        en_nodeid := en_nodeid other,
        en_port := en_port other,
        en_write_it := en_write_it other,
        en_unknown := en_unknown other\<rparr>,
      other\<lparr>en_host := en_host m,
        en_type := en_type m,
        en_term := en_term m,
        en_nodeid := en_nodeid m,
        en_port := en_port m,
        en_write_it := en_write_it m,
        en_unknown := en_unknown m\<rparr>)"

lemmas entry_defs [msg_defs] = entry_SharedCtor_def entry_Clear_def entry_MergeFrom_def entry_CopyFrom_def

subsection \<open>\<open>appendentries_q\<close>\<close>

record appendentries_q =
  aq_term :: "u32"
  aq_prelogindex :: "u32"
  aq_prelogterm :: "u32"
  aq_leadercommit :: "u32"
  aq_entries :: "entry list"
  aq_unknown :: bytes

definition appendentries_q_SharedCtor :: appendentries_q where
  "appendentries_q_SharedCtor = \<lparr>aq_term = 0, aq_prelogindex = 0, aq_prelogterm = 0, aq_leadercommit = 0, aq_entries = [], aq_unknown = []\<rparr>"

definition appendentries_q_Clear :: "appendentries_q \<Rightarrow> appendentries_q" where
  "appendentries_q_Clear m = m\<lparr>aq_entries := [], aq_term := 0, aq_prelogindex := 0, aq_prelogterm := 0, aq_leadercommit := 0, aq_unknown := []\<rparr>"

definition appendentries_q_field :: "wire \<Rightarrow> u32 \<Rightarrow> bytes \<Rightarrow> appendentries_q \<Rightarrow> appendentries_q fres option" where
  "appendentries_q_field W tag bs m =
     (if GetTagFieldNumber tag = 1 then
        (if ucast tag = (8 :: u8) then read_u32 W (\<lambda>v m. m\<lparr>aq_term := v\<rparr>) bs m else Some FUnusual)
      else if GetTagFieldNumber tag = 2 then
        (if ucast tag = (16 :: u8) then read_u32 W (\<lambda>v m. m\<lparr>aq_prelogindex := v\<rparr>) bs m else Some FUnusual)
      else if GetTagFieldNumber tag = 3 then
        (if ucast tag = (24 :: u8) then read_u32 W (\<lambda>v m. m\<lparr>aq_prelogterm := v\<rparr>) bs m else Some FUnusual)
      else if GetTagFieldNumber tag = 4 then
        (if ucast tag = (32 :: u8) then read_u32 W (\<lambda>v m. m\<lparr>aq_leadercommit := v\<rparr>) bs m else Some FUnusual)
      else if GetTagFieldNumber tag = 5 then
        (if ucast tag = (42 :: u8) then read_message W (\<lambda>lim. entry_MergePartialFromCodedStream W lim entry_SharedCtor)
            (\<lambda>e m. m\<lparr>aq_entries := aq_entries m @ [e]\<rparr>) bs m else Some FUnusual)
      else Some FUnusual)"

definition appendentries_q_MergePartialFromCodedStream :: "wire \<Rightarrow> bytes \<Rightarrow> appendentries_q \<Rightarrow> appendentries_q parse option" where
  "appendentries_q_MergePartialFromCodedStream W bs m =
     merge_loop W (appendentries_q_field W) (\<lambda>u m. m\<lparr>aq_unknown := aq_unknown m @ u\<rparr>) bs m"

definition appendentries_q_InternalSerializeWithCachedSizesToArray :: "wire \<Rightarrow> appendentries_q \<Rightarrow> bytes" where
  "appendentries_q_InternalSerializeWithCachedSizesToArray W m =
     write_if (aq_term m \<noteq> 0) (WriteUInt32 W 1 (aq_term m))
     @ write_if (aq_prelogindex m \<noteq> 0) (WriteUInt32 W 2 (aq_prelogindex m))
     @ write_if (aq_prelogterm m \<noteq> 0) (WriteUInt32 W 3 (aq_prelogterm m))
     @ write_if (aq_leadercommit m \<noteq> 0) (WriteUInt32 W 4 (aq_leadercommit m))
     @ concat (map (\<lambda>e. WriteMessage W 5 (entry_ByteSizeLong W e)
        (entry_InternalSerializeWithCachedSizesToArray W e)) (aq_entries m))
     @ unknown_bytes W (aq_unknown m)"

definition appendentries_q_SerializeWithCachedSizes :: "wire \<Rightarrow> appendentries_q \<Rightarrow> bytes \<Rightarrow> bytes" where
  "appendentries_q_SerializeWithCachedSizes W m output =
     (let output = (if aq_term m \<noteq> 0 then output @ WriteUInt32 W 1 (aq_term m) else output) in
     (let output = (if aq_prelogindex m \<noteq> 0 then output @ WriteUInt32 W 2 (aq_prelogindex m) else output) in
     (let output = (if aq_prelogterm m \<noteq> 0 then output @ WriteUInt32 W 3 (aq_prelogterm m) else output) in
     (let output = (if aq_leadercommit m \<noteq> 0 then output @ WriteUInt32 W 4 (aq_leadercommit m) else output) in
     (let output = foldl (\<lambda>out e. out @ WriteMessage W 5 (entry_ByteSizeLong W e)
        (entry_InternalSerializeWithCachedSizesToArray W e)) output (aq_entries m) in
      output @ unknown_bytes W (aq_unknown m))))))"

definition appendentries_q_ByteSizeLong :: "wire \<Rightarrow> appendentries_q \<Rightarrow> nat" where
  "appendentries_q_ByteSizeLong W m =
     length (unknown_bytes W (aq_unknown m))
     + (1 * length (aq_entries m) + sum_list (map (\<lambda>e. MessageSize W (entry_ByteSizeLong W e)) (aq_entries m)))
     + (if aq_term m \<noteq> 0 then 1 + UInt32Size W (aq_term m) else 0)
     + (if aq_prelogindex m \<noteq> 0 then 1 + UInt32Size W (aq_prelogindex m) else 0)
     + (if aq_prelogterm m \<noteq> 0 then 1 + UInt32Size W (aq_prelogterm m) else 0)
     + (if aq_leadercommit m \<noteq> 0 then 1 + UInt32Size W (aq_leadercommit m) else 0)"

definition appendentries_q_MergeFrom :: "appendentries_q \<Rightarrow> appendentries_q \<Rightarrow> appendentries_q" where
  "appendentries_q_MergeFrom from m =
     (let m = m\<lparr>aq_unknown := aq_unknown m @ aq_unknown from\<rparr>;
          m = m\<lparr>aq_entries := aq_entries m @ aq_entries from\<rparr>;
          m = (if aq_term from \<noteq> 0 then m\<lparr>aq_term := aq_term from\<rparr> else m);
          m = (if aq_prelogindex from \<noteq> 0 then m\<lparr>aq_prelogindex := aq_prelogindex from\<rparr> else m);
          m = (if aq_prelogterm from \<noteq> 0 then m\<lparr>aq_prelogterm := aq_prelogterm from\<rparr> else m);
          m = (if aq_leadercommit from \<noteq> 0 then m\<lparr>aq_leadercommit := aq_leadercommit from\<rparr> else m)
      in m)"

definition appendentries_q_CopyFrom :: "bool \<Rightarrow> appendentries_q \<Rightarrow> appendentries_q \<Rightarrow> appendentries_q" where
  "appendentries_q_CopyFrom same from m = (if same then m else appendentries_q_MergeFrom from (appendentries_q_Clear m))"

definition appendentries_q_InternalSwap :: "appendentries_q \<Rightarrow> appendentries_q \<Rightarrow> appendentries_q \<times> appendentries_q" where
  "appendentries_q_InternalSwap m other =
     (m\<lparr>aq_entries := aq_entries other,
        aq_term := aq_term other,
        aq_prelogindex := aq_prelogindex other,
        aq_prelogterm := aq_prelogterm other,
        aq_leadercommit := aq_leadercommit other,
        aq_unknown := aq_unknown other\<rparr>,
      other\<lparr>aq_entries := aq_entries m,
        aq_term := aq_term m,
        aq_prelogindex := aq_prelogindex m,
        aq_prelogterm := aq_prelogterm m,
        aq_leadercommit := aq_leadercommit m,
        aq_unknown := aq_unknown m\<rparr>)"

lemmas appendentries_q_defs [msg_defs] = appendentries_q_SharedCtor_def appendentries_q_Clear_def appendentries_q_MergeFrom_def appendentries_q_CopyFrom_def

subsection \<open>\<open>appendentries_r\<close>\<close>

record appendentries_r =
  ar_term :: "u32"
  ar_success :: "bool"
  ar_isheartbeat :: "bool"
  ar_unknown :: bytes

definition appendentries_r_SharedCtor :: appendentries_r where
  "appendentries_r_SharedCtor = \<lparr>ar_term = 0, ar_success = False, ar_isheartbeat = False, ar_unknown = []\<rparr>"

definition appendentries_r_Clear :: "appendentries_r \<Rightarrow> appendentries_r" where
  "appendentries_r_Clear m = m\<lparr>ar_term := 0, ar_success := False, ar_isheartbeat := False, ar_unknown := []\<rparr>"

definition appendentries_r_field :: "wire \<Rightarrow> u32 \<Rightarrow> bytes \<Rightarrow> appendentries_r \<Rightarrow> appendentries_r fres option" where
  "appendentries_r_field W tag bs m =
     (if GetTagFieldNumber tag = 1 then
        (if ucast tag = (8 :: u8) then read_u32 W (\<lambda>v m. m\<lparr>ar_term := v\<rparr>) bs m else Some FUnusual)
      else if GetTagFieldNumber tag = 2 then
        (if ucast tag = (16 :: u8) then read_bool W (\<lambda>v m. m\<lparr>ar_success := v\<rparr>) bs m else Some FUnusual)
      else if GetTagFieldNumber tag = 3 then
        (if ucast tag = (24 :: u8) then read_bool W (\<lambda>v m. m\<lparr>ar_isheartbeat := v\<rparr>) bs m else Some FUnusual)
      else Some FUnusual)"

definition appendentries_r_MergePartialFromCodedStream :: "wire \<Rightarrow> bytes \<Rightarrow> appendentries_r \<Rightarrow> appendentries_r parse option" where
  "appendentries_r_MergePartialFromCodedStream W bs m =
     merge_loop W (appendentries_r_field W) (\<lambda>u m. m\<lparr>ar_unknown := ar_unknown m @ u\<rparr>) bs m"

definition appendentries_r_InternalSerializeWithCachedSizesToArray :: "wire \<Rightarrow> appendentries_r \<Rightarrow> bytes" where
  "appendentries_r_InternalSerializeWithCachedSizesToArray W m =
     write_if (ar_term m \<noteq> 0) (WriteUInt32 W 1 (ar_term m))
     @ write_if (ar_success m) (WriteBool W 2 (ar_success m))
     @ write_if (ar_isheartbeat m) (WriteBool W 3 (ar_isheartbeat m))
     @ unknown_bytes W (ar_unknown m)"

definition appendentries_r_SerializeWithCachedSizes :: "wire \<Rightarrow> appendentries_r \<Rightarrow> bytes \<Rightarrow> bytes" where
  "appendentries_r_SerializeWithCachedSizes W m output =
     (let output = (if ar_term m \<noteq> 0 then output @ WriteUInt32 W 1 (ar_term m) else output) in
     (let output = (if ar_success m then output @ WriteBool W 2 (ar_success m) else output) in
     (let output = (if ar_isheartbeat m then output @ WriteBool W 3 (ar_isheartbeat m) else output) in
      output @ unknown_bytes W (ar_unknown m))))"

definition appendentries_r_ByteSizeLong :: "wire \<Rightarrow> appendentries_r \<Rightarrow> nat" where
  "appendentries_r_ByteSizeLong W m =
     length (unknown_bytes W (ar_unknown m))
     + (if ar_term m \<noteq> 0 then 1 + UInt32Size W (ar_term m) else 0)
     + (if ar_success m then 1 + 1 else 0)
     + (if ar_isheartbeat m then 1 + 1 else 0)"

definition appendentries_r_MergeFrom :: "appendentries_r \<Rightarrow> appendentries_r \<Rightarrow> appendentries_r" where
  "appendentries_r_MergeFrom from m =
     (let m = m\<lparr>ar_unknown := ar_unknown m @ ar_unknown from\<rparr>;
          m = (if ar_term from \<noteq> 0 then m\<lparr>ar_term := ar_term from\<rparr> else m);
          m = (if ar_success from then m\<lparr>ar_success := ar_success from\<rparr> else m);
          m = (if ar_isheartbeat from then m\<lparr>ar_isheartbeat := ar_isheartbeat from\<rparr> else m)
      in m)"

definition appendentries_r_CopyFrom :: "bool \<Rightarrow> appendentries_r \<Rightarrow> appendentries_r \<Rightarrow> appendentries_r" where
  "appendentries_r_CopyFrom same from m = (if same then m else appendentries_r_MergeFrom from (appendentries_r_Clear m))"

definition appendentries_r_InternalSwap :: "appendentries_r \<Rightarrow> appendentries_r \<Rightarrow> appendentries_r \<times> appendentries_r" where
  "appendentries_r_InternalSwap m other =
     (m\<lparr>ar_term := ar_term other,
        ar_success := ar_success other,
        ar_isheartbeat := ar_isheartbeat other,
        ar_unknown := ar_unknown other\<rparr>,
      other\<lparr>ar_term := ar_term m,
        ar_success := ar_success m,
        ar_isheartbeat := ar_isheartbeat m,
        ar_unknown := ar_unknown m\<rparr>)"

lemmas appendentries_r_defs [msg_defs] = appendentries_r_SharedCtor_def appendentries_r_Clear_def appendentries_r_MergeFrom_def appendentries_r_CopyFrom_def

subsection \<open>\<open>requestvote_q\<close>\<close>

record requestvote_q =
  vq_term :: "u32"
  vq_candidateid :: "u32"
  vq_lastlogindex :: "u32"
  vq_lastlogterm :: "u32"
  vq_unknown :: bytes

definition requestvote_q_SharedCtor :: requestvote_q where
  "requestvote_q_SharedCtor = \<lparr>vq_term = 0, vq_candidateid = 0, vq_lastlogindex = 0, vq_lastlogterm = 0, vq_unknown = []\<rparr>"

definition requestvote_q_Clear :: "requestvote_q \<Rightarrow> requestvote_q" where
  "requestvote_q_Clear m = m\<lparr>vq_term := 0, vq_candidateid := 0, vq_lastlogindex := 0, vq_lastlogterm := 0, vq_unknown := []\<rparr>"

definition requestvote_q_field :: "wire \<Rightarrow> u32 \<Rightarrow> bytes \<Rightarrow> requestvote_q \<Rightarrow> requestvote_q fres option" where
  "requestvote_q_field W tag bs m =
     (if GetTagFieldNumber tag = 1 then
        (if ucast tag = (8 :: u8) then read_u32 W (\<lambda>v m. m\<lparr>vq_term := v\<rparr>) bs m else Some FUnusual)
      else if GetTagFieldNumber tag = 2 then
        (if ucast tag = (16 :: u8) then read_u32 W (\<lambda>v m. m\<lparr>vq_candidateid := v\<rparr>) bs m else Some FUnusual)
      else if GetTagFieldNumber tag = 3 then
        (if ucast tag = (24 :: u8) then read_u32 W (\<lambda>v m. m\<lparr>vq_lastlogindex := v\<rparr>) bs m else Some FUnusual)
      else if GetTagFieldNumber tag = 4 then
        (if ucast tag = (32 :: u8) then read_u32 W (\<lambda>v m. m\<lparr>vq_lastlogterm := v\<rparr>) bs m else Some FUnusual)
      else Some FUnusual)"

definition requestvote_q_MergePartialFromCodedStream :: "wire \<Rightarrow> bytes \<Rightarrow> requestvote_q \<Rightarrow> requestvote_q parse option" where
  "requestvote_q_MergePartialFromCodedStream W bs m =
     merge_loop W (requestvote_q_field W) (\<lambda>u m. m\<lparr>vq_unknown := vq_unknown m @ u\<rparr>) bs m"

definition requestvote_q_InternalSerializeWithCachedSizesToArray :: "wire \<Rightarrow> requestvote_q \<Rightarrow> bytes" where
  "requestvote_q_InternalSerializeWithCachedSizesToArray W m =
     write_if (vq_term m \<noteq> 0) (WriteUInt32 W 1 (vq_term m))
     @ write_if (vq_candidateid m \<noteq> 0) (WriteUInt32 W 2 (vq_candidateid m))
     @ write_if (vq_lastlogindex m \<noteq> 0) (WriteUInt32 W 3 (vq_lastlogindex m))
     @ write_if (vq_lastlogterm m \<noteq> 0) (WriteUInt32 W 4 (vq_lastlogterm m))
     @ unknown_bytes W (vq_unknown m)"

definition requestvote_q_SerializeWithCachedSizes :: "wire \<Rightarrow> requestvote_q \<Rightarrow> bytes \<Rightarrow> bytes" where
  "requestvote_q_SerializeWithCachedSizes W m output =
     (let output = (if vq_term m \<noteq> 0 then output @ WriteUInt32 W 1 (vq_term m) else output) in
     (let output = (if vq_candidateid m \<noteq> 0 then output @ WriteUInt32 W 2 (vq_candidateid m) else output) in
     (let output = (if vq_lastlogindex m \<noteq> 0 then output @ WriteUInt32 W 3 (vq_lastlogindex m) else output) in
     (let output = (if vq_lastlogterm m \<noteq> 0 then output @ WriteUInt32 W 4 (vq_lastlogterm m) else output) in
      output @ unknown_bytes W (vq_unknown m)))))"

definition requestvote_q_ByteSizeLong :: "wire \<Rightarrow> requestvote_q \<Rightarrow> nat" where
  "requestvote_q_ByteSizeLong W m =
     length (unknown_bytes W (vq_unknown m))
     + (if vq_term m \<noteq> 0 then 1 + UInt32Size W (vq_term m) else 0)
     + (if vq_candidateid m \<noteq> 0 then 1 + UInt32Size W (vq_candidateid m) else 0)
     + (if vq_lastlogindex m \<noteq> 0 then 1 + UInt32Size W (vq_lastlogindex m) else 0)
     + (if vq_lastlogterm m \<noteq> 0 then 1 + UInt32Size W (vq_lastlogterm m) else 0)"

definition requestvote_q_MergeFrom :: "requestvote_q \<Rightarrow> requestvote_q \<Rightarrow> requestvote_q" where
  "requestvote_q_MergeFrom from m =
     (let m = m\<lparr>vq_unknown := vq_unknown m @ vq_unknown from\<rparr>;
          m = (if vq_term from \<noteq> 0 then m\<lparr>vq_term := vq_term from\<rparr> else m);
          m = (if vq_candidateid from \<noteq> 0 then m\<lparr>vq_candidateid := vq_candidateid from\<rparr> else m);
          m = (if vq_lastlogindex from \<noteq> 0 then m\<lparr>vq_lastlogindex := vq_lastlogindex from\<rparr> else m);
          m = (if vq_lastlogterm from \<noteq> 0 then m\<lparr>vq_lastlogterm := vq_lastlogterm from\<rparr> else m)
      in m)"

definition requestvote_q_CopyFrom :: "bool \<Rightarrow> requestvote_q \<Rightarrow> requestvote_q \<Rightarrow> requestvote_q" where
  "requestvote_q_CopyFrom same from m = (if same then m else requestvote_q_MergeFrom from (requestvote_q_Clear m))"

definition requestvote_q_InternalSwap :: "requestvote_q \<Rightarrow> requestvote_q \<Rightarrow> requestvote_q \<times> requestvote_q" where
  "requestvote_q_InternalSwap m other =
     (m\<lparr>vq_term := vq_term other,
        vq_candidateid := vq_candidateid other,
        vq_lastlogindex := vq_lastlogindex other,
        vq_lastlogterm := vq_lastlogterm other,
        vq_unknown := vq_unknown other\<rparr>,
      other\<lparr>vq_term := vq_term m,
        vq_candidateid := vq_candidateid m,
        vq_lastlogindex := vq_lastlogindex m,
        vq_lastlogterm := vq_lastlogterm m,
        vq_unknown := vq_unknown m\<rparr>)"

lemmas requestvote_q_defs [msg_defs] = requestvote_q_SharedCtor_def requestvote_q_Clear_def requestvote_q_MergeFrom_def requestvote_q_CopyFrom_def

subsection \<open>\<open>requestvote_r\<close>\<close>

record requestvote_r =
  vr_term :: "u32"
  vr_votegranted :: "bool"
  vr_unknown :: bytes

definition requestvote_r_SharedCtor :: requestvote_r where
  "requestvote_r_SharedCtor = \<lparr>vr_term = 0, vr_votegranted = False, vr_unknown = []\<rparr>"

definition requestvote_r_Clear :: "requestvote_r \<Rightarrow> requestvote_r" where
  "requestvote_r_Clear m = m\<lparr>vr_term := 0, vr_votegranted := False, vr_unknown := []\<rparr>"

definition requestvote_r_field :: "wire \<Rightarrow> u32 \<Rightarrow> bytes \<Rightarrow> requestvote_r \<Rightarrow> requestvote_r fres option" where
  "requestvote_r_field W tag bs m =
     (if GetTagFieldNumber tag = 1 then
        (if ucast tag = (8 :: u8) then read_u32 W (\<lambda>v m. m\<lparr>vr_term := v\<rparr>) bs m else Some FUnusual)
      else if GetTagFieldNumber tag = 2 then
        (if ucast tag = (16 :: u8) then read_bool W (\<lambda>v m. m\<lparr>vr_votegranted := v\<rparr>) bs m else Some FUnusual)
      else Some FUnusual)"

definition requestvote_r_MergePartialFromCodedStream :: "wire \<Rightarrow> bytes \<Rightarrow> requestvote_r \<Rightarrow> requestvote_r parse option" where
  "requestvote_r_MergePartialFromCodedStream W bs m =
     merge_loop W (requestvote_r_field W) (\<lambda>u m. m\<lparr>vr_unknown := vr_unknown m @ u\<rparr>) bs m"

definition requestvote_r_InternalSerializeWithCachedSizesToArray :: "wire \<Rightarrow> requestvote_r \<Rightarrow> bytes" where
  "requestvote_r_InternalSerializeWithCachedSizesToArray W m =
     write_if (vr_term m \<noteq> 0) (WriteUInt32 W 1 (vr_term m))
     @ write_if (vr_votegranted m) (WriteBool W 2 (vr_votegranted m))
     @ unknown_bytes W (vr_unknown m)"

definition requestvote_r_SerializeWithCachedSizes :: "wire \<Rightarrow> requestvote_r \<Rightarrow> bytes \<Rightarrow> bytes" where
  "requestvote_r_SerializeWithCachedSizes W m output =
     (let output = (if vr_term m \<noteq> 0 then output @ WriteUInt32 W 1 (vr_term m) else output) in
     (let output = (if vr_votegranted m then output @ WriteBool W 2 (vr_votegranted m) else output) in
      output @ unknown_bytes W (vr_unknown m)))"

definition requestvote_r_ByteSizeLong :: "wire \<Rightarrow> requestvote_r \<Rightarrow> nat" where
  "requestvote_r_ByteSizeLong W m =
     length (unknown_bytes W (vr_unknown m))
     + (if vr_term m \<noteq> 0 then 1 + UInt32Size W (vr_term m) else 0)
     + (if vr_votegranted m then 1 + 1 else 0)"

definition requestvote_r_MergeFrom :: "requestvote_r \<Rightarrow> requestvote_r \<Rightarrow> requestvote_r" where
  "requestvote_r_MergeFrom from m =
     (let m = m\<lparr>vr_unknown := vr_unknown m @ vr_unknown from\<rparr>;
          m = (if vr_term from \<noteq> 0 then m\<lparr>vr_term := vr_term from\<rparr> else m);
          m = (if vr_votegranted from then m\<lparr>vr_votegranted := vr_votegranted from\<rparr> else m)
      in m)"

definition requestvote_r_CopyFrom :: "bool \<Rightarrow> requestvote_r \<Rightarrow> requestvote_r \<Rightarrow> requestvote_r" where
  "requestvote_r_CopyFrom same from m = (if same then m else requestvote_r_MergeFrom from (requestvote_r_Clear m))"

definition requestvote_r_InternalSwap :: "requestvote_r \<Rightarrow> requestvote_r \<Rightarrow> requestvote_r \<times> requestvote_r" where
  "requestvote_r_InternalSwap m other =
     (m\<lparr>vr_term := vr_term other,
        vr_votegranted := vr_votegranted other,
        vr_unknown := vr_unknown other\<rparr>,
      other\<lparr>vr_term := vr_term m,
        vr_votegranted := vr_votegranted m,
        vr_unknown := vr_unknown m\<rparr>)"

lemmas requestvote_r_defs [msg_defs] = requestvote_r_SharedCtor_def requestvote_r_Clear_def requestvote_r_MergeFrom_def requestvote_r_CopyFrom_def

section \<open>Messages behind \<open>google::protobuf::Message\<close>\<close>

text \<open>
  The program handles messages through their base class; the dynamic type is the
  constructor. The operations are the virtual calls.
\<close>

datatype Message =
    M_handshake_q handshake_q
  | M_handshake_r handshake_r
  | M_entry entry
  | M_appendentries_q appendentries_q
  | M_appendentries_r appendentries_r
  | M_requestvote_q requestvote_q
  | M_requestvote_r requestvote_r

fun Message_ByteSize :: "wire \<Rightarrow> Message \<Rightarrow> nat" where
  "Message_ByteSize W (M_handshake_q m) = handshake_q_ByteSizeLong W m"
| "Message_ByteSize W (M_handshake_r m) = handshake_r_ByteSizeLong W m"
| "Message_ByteSize W (M_entry m) = entry_ByteSizeLong W m"
| "Message_ByteSize W (M_appendentries_q m) = appendentries_q_ByteSizeLong W m"
| "Message_ByteSize W (M_appendentries_r m) = appendentries_r_ByteSizeLong W m"
| "Message_ByteSize W (M_requestvote_q m) = requestvote_q_ByteSizeLong W m"
| "Message_ByteSize W (M_requestvote_r m) = requestvote_r_ByteSizeLong W m"

fun Message_Serialize :: "wire \<Rightarrow> Message \<Rightarrow> bytes" where
  "Message_Serialize W (M_handshake_q m) = handshake_q_InternalSerializeWithCachedSizesToArray W m"
| "Message_Serialize W (M_handshake_r m) = handshake_r_InternalSerializeWithCachedSizesToArray W m"
| "Message_Serialize W (M_entry m) = entry_InternalSerializeWithCachedSizesToArray W m"
| "Message_Serialize W (M_appendentries_q m) =
     appendentries_q_InternalSerializeWithCachedSizesToArray W m"
| "Message_Serialize W (M_appendentries_r m) =
     appendentries_r_InternalSerializeWithCachedSizesToArray W m"
| "Message_Serialize W (M_requestvote_q m) =
     requestvote_q_InternalSerializeWithCachedSizesToArray W m"
| "Message_Serialize W (M_requestvote_r m) =
     requestvote_r_InternalSerializeWithCachedSizesToArray W m"

text \<open>\<open>Message::New\<close> of the prototype: a default message of the same class.\<close>

fun Message_New :: "Message \<Rightarrow> Message" where
  "Message_New (M_handshake_q m) = M_handshake_q handshake_q_SharedCtor"
| "Message_New (M_handshake_r m) = M_handshake_r handshake_r_SharedCtor"
| "Message_New (M_entry m) = M_entry entry_SharedCtor"
| "Message_New (M_appendentries_q m) = M_appendentries_q appendentries_q_SharedCtor"
| "Message_New (M_appendentries_r m) = M_appendentries_r appendentries_r_SharedCtor"
| "Message_New (M_requestvote_q m) = M_requestvote_q requestvote_q_SharedCtor"
| "Message_New (M_requestvote_r m) = M_requestvote_r requestvote_r_SharedCtor"

fun map_parse :: "('a \<Rightarrow> 'b) \<Rightarrow> 'a parse \<Rightarrow> 'b parse" where
  "map_parse f (PSuccess m bs) = PSuccess (f m) bs"
| "map_parse f (PFailure m) = PFailure (f m)"

fun Message_Merge :: "wire \<Rightarrow> bytes \<Rightarrow> Message \<Rightarrow> Message parse option" where
  "Message_Merge W bs (M_handshake_q m) =
     map_option (map_parse M_handshake_q) (handshake_q_MergePartialFromCodedStream W bs m)"
| "Message_Merge W bs (M_handshake_r m) =
     map_option (map_parse M_handshake_r) (handshake_r_MergePartialFromCodedStream W bs m)"
| "Message_Merge W bs (M_entry m) =
     map_option (map_parse M_entry) (entry_MergePartialFromCodedStream W bs m)"
| "Message_Merge W bs (M_appendentries_q m) =
     map_option (map_parse M_appendentries_q) (appendentries_q_MergePartialFromCodedStream W bs m)"
| "Message_Merge W bs (M_appendentries_r m) =
     map_option (map_parse M_appendentries_r) (appendentries_r_MergePartialFromCodedStream W bs m)"
| "Message_Merge W bs (M_requestvote_q m) =
     map_option (map_parse M_requestvote_q) (requestvote_q_MergePartialFromCodedStream W bs m)"
| "Message_Merge W bs (M_requestvote_r m) =
     map_option (map_parse M_requestvote_r) (requestvote_r_MergePartialFromCodedStream W bs m)"

text \<open>
  \<open>ParseFromArray\<close> clears the message and merges the bytes into it. The callers of
  the program ignore its result, so what matters is the message it leaves behind.
\<close>

definition Message_ParseFromArray :: "wire \<Rightarrow> bytes \<Rightarrow> Message \<Rightarrow> Message option" where
  "Message_ParseFromArray W bs m = map_option parsed_msg (Message_Merge W bs (Message_New m))"

end
