(* ===== verification/Api_Codec.thy ===== *)
theory Api_Codec
  imports Api_Messages
begin

text \<open>
  Correctness of the generated codec over any runtime that satisfies \<open>wire_format\<close>:
  the announced size is the number of bytes written, both serialisers write the same bytes,
  parsing what was serialised gives the message back, and parsing ends on every input.
\<close>

section \<open>Parsing ends on every input\<close>

context wire_reads
begin

lemma tame_simple_fields:
  "tame (handshake_q_field W)" "tame (handshake_r_field W)" "tame (entry_field W)"
  "tame (appendentries_r_field W)" "tame (requestvote_q_field W)" "tame (requestvote_r_field W)"
  by (simp_all add: tame_def handshake_q_field_def handshake_r_field_def entry_field_def
      appendentries_r_field_def requestvote_q_field_def requestvote_r_field_def
      GetTagFieldNumber_def)

lemma entry_Merge_returns: "\<exists>p. entry_MergePartialFromCodedStream W bs m = Some p"
  unfolding entry_MergePartialFromCodedStream_def
  by (rule merge_loop_returns) (rule tame_simple_fields)

lemma tame_appendentries_q_field: "tame (appendentries_q_field W)"
  by (auto simp: tame_def appendentries_q_field_def GetTagFieldNumber_def
      intro!: shrinks_read_message entry_Merge_returns)

lemmas tame_fields = tame_simple_fields tame_appendentries_q_field

lemma Message_Merge_returns: "\<exists>p. Message_Merge W bs m = Some p"
  by (cases m)
    (auto simp: handshake_q_MergePartialFromCodedStream_def
      handshake_r_MergePartialFromCodedStream_def entry_MergePartialFromCodedStream_def
      appendentries_q_MergePartialFromCodedStream_def
      appendentries_r_MergePartialFromCodedStream_def
      requestvote_q_MergePartialFromCodedStream_def
      requestvote_r_MergePartialFromCodedStream_def
      intro: merge_loop_returns tame_fields)

lemma Message_ParseFromArray_returns: "\<exists>m'. Message_ParseFromArray W bs m = Some m'"
  using Message_Merge_returns [of bs "Message_New m"] by (auto simp: Message_ParseFromArray_def)

end

section \<open>One parse step per field\<close>

context wire_format
begin

lemma handshake_q_steps:
  fixes unk :: "bytes \<Rightarrow> handshake_q \<Rightarrow> handshake_q"
  shows "hq_raftport m = 0 \<Longrightarrow> merge_loop W (handshake_q_field W) unk
        (write_if (v \<noteq> 0) (WriteUInt32 W 1 v) @ r) m =
      merge_loop W (handshake_q_field W) unk r (m\<lparr>hq_raftport := v\<rparr>)"
    and "hq_httpport m = 0 \<Longrightarrow> merge_loop W (handshake_q_field W) unk
        (write_if (v \<noteq> 0) (WriteUInt32 W 2 v) @ r) m =
      merge_loop W (handshake_q_field W) unk r (m\<lparr>hq_httpport := v\<rparr>)"
    and "hq_nodeid m = 0 \<Longrightarrow> merge_loop W (handshake_q_field W) unk
        (write_if (v \<noteq> 0) (WriteUInt32 W 3 v) @ r) m =
      merge_loop W (handshake_q_field W) unk r (m\<lparr>hq_nodeid := v\<rparr>)"
  subgoal
    by (rule merge_loop_u32 [where n = 1 and upd = "\<lambda>v m. m\<lparr>hq_raftport := v\<rparr>"])
      (simp_all add: handshake_q_field_def GetTagFieldNumber_def)
  subgoal
    by (rule merge_loop_u32 [where n = 2 and upd = "\<lambda>v m. m\<lparr>hq_httpport := v\<rparr>"])
      (simp_all add: handshake_q_field_def GetTagFieldNumber_def)
  subgoal
    by (rule merge_loop_u32 [where n = 3 and upd = "\<lambda>v m. m\<lparr>hq_nodeid := v\<rparr>"])
      (simp_all add: handshake_q_field_def GetTagFieldNumber_def)
  done

lemma handshake_r_steps:
  fixes unk :: "bytes \<Rightarrow> handshake_r \<Rightarrow> handshake_r"
  shows "\<not> hr_result m \<Longrightarrow> merge_loop W (handshake_r_field W) unk
        (write_if b (WriteBool W 1 b) @ r) m =
      merge_loop W (handshake_r_field W) unk r (m\<lparr>hr_result := b\<rparr>)"
    and "hr_leaderhost m = [] \<Longrightarrow> VerifyUtf8String W s \<Longrightarrow> merge_loop W (handshake_r_field W) unk
        (write_if (s \<noteq> []) (WriteString W 2 s) @ r) m =
      merge_loop W (handshake_r_field W) unk r (m\<lparr>hr_leaderhost := s\<rparr>)"
    and "hr_leaderraftport m = 0 \<Longrightarrow> merge_loop W (handshake_r_field W) unk
        (write_if (v \<noteq> 0) (WriteUInt32 W 3 v) @ r) m =
      merge_loop W (handshake_r_field W) unk r (m\<lparr>hr_leaderraftport := v\<rparr>)"
  subgoal
    by (rule merge_loop_bool [where n = 1 and upd = "\<lambda>v m. m\<lparr>hr_result := v\<rparr>"])
      (simp_all add: handshake_r_field_def GetTagFieldNumber_def)
  subgoal
    by (rule merge_loop_string [where n = 2 and upd = "\<lambda>v m. m\<lparr>hr_leaderhost := v\<rparr>"])
      (simp_all add: handshake_r_field_def GetTagFieldNumber_def)
  subgoal
    by (rule merge_loop_u32 [where n = 3 and upd = "\<lambda>v m. m\<lparr>hr_leaderraftport := v\<rparr>"])
      (simp_all add: handshake_r_field_def GetTagFieldNumber_def)
  done

lemma entry_steps:
  fixes unk :: "bytes \<Rightarrow> entry \<Rightarrow> entry"
  shows "en_type m = 0 \<Longrightarrow> merge_loop W (entry_field W) unk
        (write_if (v \<noteq> 0) (WriteEnum W 1 v) @ r) m =
      merge_loop W (entry_field W) unk r (m\<lparr>en_type := v\<rparr>)"
    and "en_term m = 0 \<Longrightarrow> merge_loop W (entry_field W) unk
        (write_if (v \<noteq> 0) (WriteUInt32 W 2 v) @ r) m =
      merge_loop W (entry_field W) unk r (m\<lparr>en_term := v\<rparr>)"
    and "en_nodeid m = 0 \<Longrightarrow> merge_loop W (entry_field W) unk
        (write_if (v \<noteq> 0) (WriteUInt32 W 3 v) @ r) m =
      merge_loop W (entry_field W) unk r (m\<lparr>en_nodeid := v\<rparr>)"
    and "en_port m = 0 \<Longrightarrow> merge_loop W (entry_field W) unk
        (write_if (v \<noteq> 0) (WriteUInt32 W 4 v) @ r) m =
      merge_loop W (entry_field W) unk r (m\<lparr>en_port := v\<rparr>)"
    and "en_host m = [] \<Longrightarrow> VerifyUtf8String W s \<Longrightarrow> merge_loop W (entry_field W) unk
        (write_if (s \<noteq> []) (WriteString W 5 s) @ r) m =
      merge_loop W (entry_field W) unk r (m\<lparr>en_host := s\<rparr>)"
    and "en_write_it m = 0 \<Longrightarrow> merge_loop W (entry_field W) unk
        (write_if (v \<noteq> 0) (WriteUInt32 W 6 v) @ r) m =
      merge_loop W (entry_field W) unk r (m\<lparr>en_write_it := v\<rparr>)"
  subgoal
    by (rule merge_loop_enum [where n = 1 and upd = "\<lambda>v m. m\<lparr>en_type := v\<rparr>"])
      (simp_all add: entry_field_def GetTagFieldNumber_def)
  subgoal
    by (rule merge_loop_u32 [where n = 2 and upd = "\<lambda>v m. m\<lparr>en_term := v\<rparr>"])
      (simp_all add: entry_field_def GetTagFieldNumber_def)
  subgoal
    by (rule merge_loop_u32 [where n = 3 and upd = "\<lambda>v m. m\<lparr>en_nodeid := v\<rparr>"])
      (simp_all add: entry_field_def GetTagFieldNumber_def)
  subgoal
    by (rule merge_loop_u32 [where n = 4 and upd = "\<lambda>v m. m\<lparr>en_port := v\<rparr>"])
      (simp_all add: entry_field_def GetTagFieldNumber_def)
  subgoal
    by (rule merge_loop_string [where n = 5 and upd = "\<lambda>v m. m\<lparr>en_host := v\<rparr>"])
      (simp_all add: entry_field_def GetTagFieldNumber_def)
  subgoal
    by (rule merge_loop_u32 [where n = 6 and upd = "\<lambda>v m. m\<lparr>en_write_it := v\<rparr>"])
      (simp_all add: entry_field_def GetTagFieldNumber_def)
  done

lemma appendentries_q_steps:
  fixes unk :: "bytes \<Rightarrow> appendentries_q \<Rightarrow> appendentries_q"
  shows "aq_term m = 0 \<Longrightarrow> merge_loop W (appendentries_q_field W) unk
        (write_if (v \<noteq> 0) (WriteUInt32 W 1 v) @ r) m =
      merge_loop W (appendentries_q_field W) unk r (m\<lparr>aq_term := v\<rparr>)"
    and "aq_prelogindex m = 0 \<Longrightarrow> merge_loop W (appendentries_q_field W) unk
        (write_if (v \<noteq> 0) (WriteUInt32 W 2 v) @ r) m =
      merge_loop W (appendentries_q_field W) unk r (m\<lparr>aq_prelogindex := v\<rparr>)"
    and "aq_prelogterm m = 0 \<Longrightarrow> merge_loop W (appendentries_q_field W) unk
        (write_if (v \<noteq> 0) (WriteUInt32 W 3 v) @ r) m =
      merge_loop W (appendentries_q_field W) unk r (m\<lparr>aq_prelogterm := v\<rparr>)"
    and "aq_leadercommit m = 0 \<Longrightarrow> merge_loop W (appendentries_q_field W) unk
        (write_if (v \<noteq> 0) (WriteUInt32 W 4 v) @ r) m =
      merge_loop W (appendentries_q_field W) unk r (m\<lparr>aq_leadercommit := v\<rparr>)"
  subgoal
    by (rule merge_loop_u32 [where n = 1 and upd = "\<lambda>v m. m\<lparr>aq_term := v\<rparr>"])
      (simp_all add: appendentries_q_field_def GetTagFieldNumber_def)
  subgoal
    by (rule merge_loop_u32 [where n = 2 and upd = "\<lambda>v m. m\<lparr>aq_prelogindex := v\<rparr>"])
      (simp_all add: appendentries_q_field_def GetTagFieldNumber_def)
  subgoal
    by (rule merge_loop_u32 [where n = 3 and upd = "\<lambda>v m. m\<lparr>aq_prelogterm := v\<rparr>"])
      (simp_all add: appendentries_q_field_def GetTagFieldNumber_def)
  subgoal
    by (rule merge_loop_u32 [where n = 4 and upd = "\<lambda>v m. m\<lparr>aq_leadercommit := v\<rparr>"])
      (simp_all add: appendentries_q_field_def GetTagFieldNumber_def)
  done

lemma appendentries_r_steps:
  fixes unk :: "bytes \<Rightarrow> appendentries_r \<Rightarrow> appendentries_r"
  shows "ar_term m = 0 \<Longrightarrow> merge_loop W (appendentries_r_field W) unk
        (write_if (v \<noteq> 0) (WriteUInt32 W 1 v) @ r) m =
      merge_loop W (appendentries_r_field W) unk r (m\<lparr>ar_term := v\<rparr>)"
    and "\<not> ar_success m \<Longrightarrow> merge_loop W (appendentries_r_field W) unk
        (write_if b (WriteBool W 2 b) @ r) m =
      merge_loop W (appendentries_r_field W) unk r (m\<lparr>ar_success := b\<rparr>)"
    and "\<not> ar_isheartbeat m \<Longrightarrow> merge_loop W (appendentries_r_field W) unk
        (write_if b (WriteBool W 3 b) @ r) m =
      merge_loop W (appendentries_r_field W) unk r (m\<lparr>ar_isheartbeat := b\<rparr>)"
  subgoal
    by (rule merge_loop_u32 [where n = 1 and upd = "\<lambda>v m. m\<lparr>ar_term := v\<rparr>"])
      (simp_all add: appendentries_r_field_def GetTagFieldNumber_def)
  subgoal
    by (rule merge_loop_bool [where n = 2 and upd = "\<lambda>v m. m\<lparr>ar_success := v\<rparr>"])
      (simp_all add: appendentries_r_field_def GetTagFieldNumber_def)
  subgoal
    by (rule merge_loop_bool [where n = 3 and upd = "\<lambda>v m. m\<lparr>ar_isheartbeat := v\<rparr>"])
      (simp_all add: appendentries_r_field_def GetTagFieldNumber_def)
  done

lemma requestvote_q_steps:
  fixes unk :: "bytes \<Rightarrow> requestvote_q \<Rightarrow> requestvote_q"
  shows "vq_term m = 0 \<Longrightarrow> merge_loop W (requestvote_q_field W) unk
        (write_if (v \<noteq> 0) (WriteUInt32 W 1 v) @ r) m =
      merge_loop W (requestvote_q_field W) unk r (m\<lparr>vq_term := v\<rparr>)"
    and "vq_candidateid m = 0 \<Longrightarrow> merge_loop W (requestvote_q_field W) unk
        (write_if (v \<noteq> 0) (WriteUInt32 W 2 v) @ r) m =
      merge_loop W (requestvote_q_field W) unk r (m\<lparr>vq_candidateid := v\<rparr>)"
    and "vq_lastlogindex m = 0 \<Longrightarrow> merge_loop W (requestvote_q_field W) unk
        (write_if (v \<noteq> 0) (WriteUInt32 W 3 v) @ r) m =
      merge_loop W (requestvote_q_field W) unk r (m\<lparr>vq_lastlogindex := v\<rparr>)"
    and "vq_lastlogterm m = 0 \<Longrightarrow> merge_loop W (requestvote_q_field W) unk
        (write_if (v \<noteq> 0) (WriteUInt32 W 4 v) @ r) m =
      merge_loop W (requestvote_q_field W) unk r (m\<lparr>vq_lastlogterm := v\<rparr>)"
  subgoal
    by (rule merge_loop_u32 [where n = 1 and upd = "\<lambda>v m. m\<lparr>vq_term := v\<rparr>"])
      (simp_all add: requestvote_q_field_def GetTagFieldNumber_def)
  subgoal
    by (rule merge_loop_u32 [where n = 2 and upd = "\<lambda>v m. m\<lparr>vq_candidateid := v\<rparr>"])
      (simp_all add: requestvote_q_field_def GetTagFieldNumber_def)
  subgoal
    by (rule merge_loop_u32 [where n = 3 and upd = "\<lambda>v m. m\<lparr>vq_lastlogindex := v\<rparr>"])
      (simp_all add: requestvote_q_field_def GetTagFieldNumber_def)
  subgoal
    by (rule merge_loop_u32 [where n = 4 and upd = "\<lambda>v m. m\<lparr>vq_lastlogterm := v\<rparr>"])
      (simp_all add: requestvote_q_field_def GetTagFieldNumber_def)
  done

lemma requestvote_r_steps:
  fixes unk :: "bytes \<Rightarrow> requestvote_r \<Rightarrow> requestvote_r"
  shows "vr_term m = 0 \<Longrightarrow> merge_loop W (requestvote_r_field W) unk
        (write_if (v \<noteq> 0) (WriteUInt32 W 1 v) @ r) m =
      merge_loop W (requestvote_r_field W) unk r (m\<lparr>vr_term := v\<rparr>)"
    and "\<not> vr_votegranted m \<Longrightarrow> merge_loop W (requestvote_r_field W) unk
        (write_if b (WriteBool W 2 b) @ r) m =
      merge_loop W (requestvote_r_field W) unk r (m\<lparr>vr_votegranted := b\<rparr>)"
  subgoal
    by (rule merge_loop_u32 [where n = 1 and upd = "\<lambda>v m. m\<lparr>vr_term := v\<rparr>"])
      (simp_all add: requestvote_r_field_def GetTagFieldNumber_def)
  subgoal
    by (rule merge_loop_bool [where n = 2 and upd = "\<lambda>v m. m\<lparr>vr_votegranted := v\<rparr>"])
      (simp_all add: requestvote_r_field_def GetTagFieldNumber_def)
  done

end

section \<open>The announced size is the number of bytes written\<close>

context wire_format
begin

lemmas len_fields = len_u32 len_enum len_bool len_string length_write_if

lemma entry_size: "length (entry_InternalSerializeWithCachedSizesToArray W m) = entry_ByteSizeLong W m"
  by (simp add: entry_InternalSerializeWithCachedSizesToArray_def entry_ByteSizeLong_def len_fields)

lemma entries_size:
  "length (concat (map (\<lambda>e. WriteMessage W 5 (entry_ByteSizeLong W e)
      (entry_InternalSerializeWithCachedSizesToArray W e)) es)) =
   length es + sum_list (map (\<lambda>e. MessageSize W (entry_ByteSizeLong W e)) es)"
  by (induction es) (simp_all add: len_message entry_size)

lemma Message_size: "length (Message_Serialize W m) = Message_ByteSize W m"
  by (cases m)
    (simp_all add: len_fields entry_size entries_size
      handshake_q_InternalSerializeWithCachedSizesToArray_def handshake_q_ByteSizeLong_def
      handshake_r_InternalSerializeWithCachedSizesToArray_def handshake_r_ByteSizeLong_def
      appendentries_q_InternalSerializeWithCachedSizesToArray_def appendentries_q_ByteSizeLong_def
      appendentries_r_InternalSerializeWithCachedSizesToArray_def appendentries_r_ByteSizeLong_def
      requestvote_q_InternalSerializeWithCachedSizesToArray_def requestvote_q_ByteSizeLong_def
      requestvote_r_InternalSerializeWithCachedSizesToArray_def requestvote_r_ByteSizeLong_def)

section \<open>Parsing what was serialised\<close>

text \<open>
  For each message: merging its serialisation into a default message, with any bytes after
  it, leaves exactly the message and continues with those bytes.
\<close>

lemma handshake_q_merge:
  "hq_unknown m = [] \<Longrightarrow>
   merge_loop W (handshake_q_field W) unk
     (handshake_q_InternalSerializeWithCachedSizesToArray W m @ r) handshake_q_SharedCtor =
   merge_loop W (handshake_q_field W) unk r m"
  by (cases m) (simp add: handshake_q_InternalSerializeWithCachedSizesToArray_def handshake_q_steps
      handshake_q_SharedCtor_def del: One_nat_def)

lemma handshake_r_merge:
  "hr_unknown m = [] \<Longrightarrow> VerifyUtf8String W (hr_leaderhost m) \<Longrightarrow>
   merge_loop W (handshake_r_field W) unk
     (handshake_r_InternalSerializeWithCachedSizesToArray W m @ r) handshake_r_SharedCtor =
   merge_loop W (handshake_r_field W) unk r m"
  by (cases m) (simp add: handshake_r_InternalSerializeWithCachedSizesToArray_def handshake_r_steps
      handshake_r_SharedCtor_def del: One_nat_def)

lemma entry_merge:
  "en_unknown m = [] \<Longrightarrow> VerifyUtf8String W (en_host m) \<Longrightarrow>
   merge_loop W (entry_field W) unk
     (entry_InternalSerializeWithCachedSizesToArray W m @ r) entry_SharedCtor =
   merge_loop W (entry_field W) unk r m"
  by (cases m) (simp add: entry_InternalSerializeWithCachedSizesToArray_def entry_steps
      entry_SharedCtor_def del: One_nat_def)

lemma appendentries_r_merge:
  "ar_unknown m = [] \<Longrightarrow>
   merge_loop W (appendentries_r_field W) unk
     (appendentries_r_InternalSerializeWithCachedSizesToArray W m @ r) appendentries_r_SharedCtor =
   merge_loop W (appendentries_r_field W) unk r m"
  by (cases m) (simp add: appendentries_r_InternalSerializeWithCachedSizesToArray_def appendentries_r_steps
      appendentries_r_SharedCtor_def del: One_nat_def)

lemma requestvote_q_merge:
  "vq_unknown m = [] \<Longrightarrow>
   merge_loop W (requestvote_q_field W) unk
     (requestvote_q_InternalSerializeWithCachedSizesToArray W m @ r) requestvote_q_SharedCtor =
   merge_loop W (requestvote_q_field W) unk r m"
  by (cases m) (simp add: requestvote_q_InternalSerializeWithCachedSizesToArray_def requestvote_q_steps
      requestvote_q_SharedCtor_def del: One_nat_def)

lemma requestvote_r_merge:
  "vr_unknown m = [] \<Longrightarrow>
   merge_loop W (requestvote_r_field W) unk
     (requestvote_r_InternalSerializeWithCachedSizesToArray W m @ r) requestvote_r_SharedCtor =
   merge_loop W (requestvote_r_field W) unk r m"
  by (cases m) (simp add: requestvote_r_InternalSerializeWithCachedSizesToArray_def requestvote_r_steps
      requestvote_r_SharedCtor_def del: One_nat_def)

lemma entry_roundtrip:
  "en_unknown m = [] \<Longrightarrow> VerifyUtf8String W (en_host m) \<Longrightarrow>
   entry_MergePartialFromCodedStream W (entry_InternalSerializeWithCachedSizesToArray W m)
     entry_SharedCtor = Some (PSuccess m [])"
  using entry_merge [of m "\<lambda>u m. m\<lparr>en_unknown := en_unknown m @ u\<rparr>" "[]"]
  by (simp add: entry_MergePartialFromCodedStream_def merge_loop_end tame_fields)

lemma entries_merge:
  "list_all (\<lambda>e. en_unknown e = [] \<and> VerifyUtf8String W (en_host e)) es \<Longrightarrow>
   merge_loop W (appendentries_q_field W) unk
     (concat (map (\<lambda>e. WriteMessage W 5 (entry_ByteSizeLong W e)
        (entry_InternalSerializeWithCachedSizesToArray W e)) es) @ r) m =
   merge_loop W (appendentries_q_field W) unk r (m\<lparr>aq_entries := aq_entries m @ es\<rparr>)"
proof (induction es arbitrary: m)
  case (Cons e es)
  let ?rest = "concat (map (\<lambda>e. WriteMessage W 5 (entry_ByteSizeLong W e)
      (entry_InternalSerializeWithCachedSizesToArray W e)) es) @ r"
  have "merge_loop W (appendentries_q_field W) unk
      (WriteMessage W 5 (entry_ByteSizeLong W e)
        (entry_InternalSerializeWithCachedSizesToArray W e) @ ?rest) m =
    merge_loop W (appendentries_q_field W) unk ?rest (m\<lparr>aq_entries := aq_entries m @ [e]\<rparr>)"
    by (rule merge_loop_message [where upd = "\<lambda>e m. m\<lparr>aq_entries := aq_entries m @ [e]\<rparr>"
          and sub = "\<lambda>lim. entry_MergePartialFromCodedStream W lim entry_SharedCtor"])
      (use Cons.prems in \<open>simp_all add: entry_size entry_roundtrip appendentries_q_field_def
        GetTagFieldNumber_def\<close>)
  then show ?case using Cons by simp
qed simp

lemma appendentries_q_merge:
  "aq_unknown m = [] \<Longrightarrow>
   list_all (\<lambda>e. en_unknown e = [] \<and> VerifyUtf8String W (en_host e)) (aq_entries m) \<Longrightarrow>
   merge_loop W (appendentries_q_field W) unk
     (appendentries_q_InternalSerializeWithCachedSizesToArray W m @ r) appendentries_q_SharedCtor =
   merge_loop W (appendentries_q_field W) unk r m"
  by (cases m) (simp add: appendentries_q_InternalSerializeWithCachedSizesToArray_def appendentries_q_steps entries_merge appendentries_q_SharedCtor_def del: One_nat_def)

end

section \<open>Messages the program builds\<close>

text \<open>
  The messages the program itself builds have no unknown fields, and their strings are
  valid UTF-8.
\<close>

fun Message_plain :: "wire \<Rightarrow> Message \<Rightarrow> bool" where
  "Message_plain W (M_handshake_q m) = (hq_unknown m = [])"
| "Message_plain W (M_handshake_r m) =
     (hr_unknown m = [] \<and> VerifyUtf8String W (hr_leaderhost m))"
| "Message_plain W (M_entry m) = (en_unknown m = [] \<and> VerifyUtf8String W (en_host m))"
| "Message_plain W (M_appendentries_q m) =
     (aq_unknown m = [] \<and>
      list_all (\<lambda>e. en_unknown e = [] \<and> VerifyUtf8String W (en_host e)) (aq_entries m))"
| "Message_plain W (M_appendentries_r m) = (ar_unknown m = [])"
| "Message_plain W (M_requestvote_q m) = (vq_unknown m = [])"
| "Message_plain W (M_requestvote_r m) = (vr_unknown m = [])"

context wire_format
begin

lemma Message_roundtrip:
  "Message_plain W m \<Longrightarrow> Message_Merge W (Message_Serialize W m) (Message_New m) = Some (PSuccess m [])"
  using handshake_q_merge [where r = "[]"] handshake_r_merge [where r = "[]"]
    entry_merge [where r = "[]"] appendentries_q_merge [where r = "[]"]
    appendentries_r_merge [where r = "[]"] requestvote_q_merge [where r = "[]"]
    requestvote_r_merge [where r = "[]"]
  by (cases m)
    (simp_all add: handshake_q_MergePartialFromCodedStream_def
      handshake_r_MergePartialFromCodedStream_def entry_MergePartialFromCodedStream_def
      appendentries_q_MergePartialFromCodedStream_def
      appendentries_r_MergePartialFromCodedStream_def
      requestvote_q_MergePartialFromCodedStream_def
      requestvote_r_MergePartialFromCodedStream_def merge_loop_end tame_fields)

lemma Message_parse_serialize:
  "Message_plain W m \<Longrightarrow> Message_ParseFromArray W (Message_Serialize W m) m = Some m"
  by (simp add: Message_ParseFromArray_def Message_roundtrip)

text \<open>An entry followed by a zero byte: the parse stops there with the entry complete.\<close>

lemma entry_then_zero:
  "en_unknown m = [] \<Longrightarrow> VerifyUtf8String W (en_host m) \<Longrightarrow>
   entry_MergePartialFromCodedStream W
     (entry_InternalSerializeWithCachedSizesToArray W m @ 0 # r) entry_SharedCtor =
   Some (PSuccess m (0 # r))"
  by (simp add: entry_MergePartialFromCodedStream_def entry_merge merge_loop_zero tame_fields)

text \<open>Followed by bytes that look like one more field, they are taken for it.\<close>

lemma entry_then_field:
  assumes "en_unknown m = []" and "VerifyUtf8String W (en_host m)" and "en_write_it m = 0" and "v \<noteq> 0"
  shows "entry_MergePartialFromCodedStream W
      (entry_InternalSerializeWithCachedSizesToArray W m @ WriteUInt32 W 6 v @ 0 # r) entry_SharedCtor =
    Some (PSuccess (m\<lparr>en_write_it := v\<rparr>) (0 # r))"
  using assms entry_steps(6) [of m _ v "0 # r"]
  by (simp add: entry_MergePartialFromCodedStream_def entry_merge merge_loop_zero tame_fields write_if_def)

end

section \<open>Copying and zero bytes\<close>

text \<open>
  \<open>MergeFrom\<close> skips default values, so it copies only because \<open>CopyFrom\<close> clears the
  target first.
\<close>

lemma CopyFrom_eq:
  "handshake_q_CopyFrom same hq m1 = (if same then m1 else hq)"
  "handshake_r_CopyFrom same hr m2 = (if same then m2 else hr)"
  "entry_CopyFrom same en m3 = (if same then m3 else en)"
  "appendentries_q_CopyFrom same aq m4 = (if same then m4 else aq)"
  "appendentries_r_CopyFrom same ar m5 = (if same then m5 else ar)"
  "requestvote_q_CopyFrom same vq m6 = (if same then m6 else vq)"
  "requestvote_r_CopyFrom same vr m7 = (if same then m7 else vr)"
  by (auto simp: msg_defs Let_def)

lemma InternalSwap_eq:
  "handshake_q_InternalSwap a1 b1 = (b1, a1)" "handshake_r_InternalSwap a2 b2 = (b2, a2)"
  "entry_InternalSwap a3 b3 = (b3, a3)" "appendentries_q_InternalSwap a4 b4 = (b4, a4)"
  "appendentries_r_InternalSwap a5 b5 = (b5, a5)" "requestvote_q_InternalSwap a6 b6 = (b6, a6)"
  "requestvote_r_InternalSwap a7 b7 = (b7, a7)"
  by (simp_all add: handshake_q_InternalSwap_def handshake_r_InternalSwap_def
      entry_InternalSwap_def appendentries_q_InternalSwap_def appendentries_r_InternalSwap_def
      requestvote_q_InternalSwap_def requestvote_r_InternalSwap_def)

text \<open>The stream serialiser writes the same bytes as the array serialiser.\<close>

lemma foldl_append_concat: "foldl (\<lambda>out e. out @ f e) acc xs = acc @ concat (map f xs)"
  by (induction xs arbitrary: acc) simp_all

lemma SerializeWithCachedSizes_eq:
  "handshake_q_SerializeWithCachedSizes W hq out =
     out @ handshake_q_InternalSerializeWithCachedSizesToArray W hq"
  "handshake_r_SerializeWithCachedSizes W hr out =
     out @ handshake_r_InternalSerializeWithCachedSizesToArray W hr"
  "entry_SerializeWithCachedSizes W en out =
     out @ entry_InternalSerializeWithCachedSizesToArray W en"
  "appendentries_q_SerializeWithCachedSizes W aq out =
     out @ appendentries_q_InternalSerializeWithCachedSizesToArray W aq"
  "appendentries_r_SerializeWithCachedSizes W ar out =
     out @ appendentries_r_InternalSerializeWithCachedSizesToArray W ar"
  "requestvote_q_SerializeWithCachedSizes W vq out =
     out @ requestvote_q_InternalSerializeWithCachedSizesToArray W vq"
  "requestvote_r_SerializeWithCachedSizes W vr out =
     out @ requestvote_r_InternalSerializeWithCachedSizesToArray W vr"
  by (simp_all add: Let_def write_if_def foldl_append_concat
      handshake_q_SerializeWithCachedSizes_def handshake_q_InternalSerializeWithCachedSizesToArray_def
      handshake_r_SerializeWithCachedSizes_def handshake_r_InternalSerializeWithCachedSizesToArray_def
      entry_SerializeWithCachedSizes_def entry_InternalSerializeWithCachedSizesToArray_def
      appendentries_q_SerializeWithCachedSizes_def
      appendentries_q_InternalSerializeWithCachedSizesToArray_def
      appendentries_r_SerializeWithCachedSizes_def
      appendentries_r_InternalSerializeWithCachedSizesToArray_def
      requestvote_q_SerializeWithCachedSizes_def
      requestvote_q_InternalSerializeWithCachedSizesToArray_def
      requestvote_r_SerializeWithCachedSizes_def
      requestvote_r_InternalSerializeWithCachedSizesToArray_def)

context wire_nul_free
begin

lemma entry_nul_free:
  "en_unknown m = [] \<Longrightarrow> 0 \<notin> set (en_host m) \<Longrightarrow>
   0 \<notin> set (entry_InternalSerializeWithCachedSizesToArray W m)"
  by (simp add: entry_InternalSerializeWithCachedSizesToArray_def set_write_if
      nul_u32 nul_enum nul_string)

end

end
