(* ===== verification/Wire_Leb.thy ===== *)
theory Wire_Leb
  imports Pb_Wire
begin

text \<open>
  The documented protobuf encoding (base-128 varints, length-delimited strings and
  messages), as an instance of the runtime parameter \<open>wire\<close>: it shows that the laws of
  \<open>wire_format\<close> and \<open>wire_nul_free\<close> hold together, and the witnesses run on it.
\<close>

section \<open>Base-128 varints\<close>

fun varint :: "nat \<Rightarrow> bytes" where
  "varint n = (if n < 128 then [of_nat n] else of_nat (128 + n mod 128) # varint (n div 128))"

declare varint.simps [simp del]

fun unvarint :: "bytes \<Rightarrow> (nat \<times> bytes) option" where
  "unvarint [] = None"
| "unvarint (b # bs) =
     (if unat b < 128 then Some (unat b, bs)
      else map_option (\<lambda>(n, r). (unat b - 128 + 128 * n, r)) (unvarint bs))"

lemma unat_of_nat_byte: "n < 256 \<Longrightarrow> unat (of_nat n :: u8) = n"
  by (simp add: unat_of_nat)

lemma unvarint_varint [wire_simps]: "unvarint (varint n @ r) = Some (n, r)"
proof (induction n rule: varint.induct)
  case (1 n)
  have "128 + n mod 128 < 256" by simp
  then show ?case
    using 1 by (simp add: varint.simps [of n] unat_of_nat_byte del: of_nat_add)
qed

lemma unvarint_shrinks: "unvarint bs = Some (n, r) \<Longrightarrow> length r < length bs"
  by (induction bs arbitrary: n r) (fastforce split: if_splits)+

lemma varint_no_zero: "0 < n \<Longrightarrow> (0::u8) \<notin> set (varint n)"
proof (induction n rule: varint.induct)
  case (1 n)
  have nz: "(of_nat k :: u8) \<noteq> 0" if "0 < k" "k < 256" for k
    using that unat_of_nat_byte [of k] by (metis less_irrefl unat_0)
  have "128 + n mod 128 < 256" by simp
  with 1 nz show ?case
    by (simp add: varint.simps [of n] del: of_nat_add)
qed

section \<open>The instance\<close>

definition leb_tag :: "bytes \<Rightarrow> u32 \<times> bool \<times> bytes" where
  "leb_tag bs = (case bs of
      [] \<Rightarrow> (0, False, [])
    | b # r \<Rightarrow>
        if unat b < 128 then (ucast b, True, r)
        else (case unvarint bs of
            None \<Rightarrow> (0, False, [])
          | Some (n, r') \<Rightarrow> (of_nat n, False, r')))"

definition leb_u32 :: "bytes \<Rightarrow> (u32 \<times> bytes) option" where
  "leb_u32 bs = map_option (\<lambda>(n, r). (of_nat n, r)) (unvarint bs)"

definition leb_bool :: "bytes \<Rightarrow> (bool \<times> bytes) option" where
  "leb_bool bs = map_option (\<lambda>(n, r). (n \<noteq> 0, r)) (unvarint bs)"

definition leb_limited :: "bytes \<Rightarrow> bytes \<times> bytes option" where
  "leb_limited bs = (case unvarint bs of
      None \<Rightarrow> ([], None)
    | Some (n, r) \<Rightarrow> if n \<le> length r then (take n r, Some (drop n r)) else ([], None))"

definition leb_skip :: "u32 \<Rightarrow> bytes \<Rightarrow> (bytes \<times> bytes) option" where
  "leb_skip tag bs =
     (let take_raw = (\<lambda>r. Some (varint (unat tag) @ take (length bs - length r) bs, r)) in
      if unat tag mod 8 = 0 then Option.bind (unvarint bs) (\<lambda>(n, r). take_raw r)
      else if unat tag mod 8 = 1 then (if 8 \<le> length bs then take_raw (drop 8 bs) else None)
      else if unat tag mod 8 = 2 then
        (case leb_limited bs of (s, None) \<Rightarrow> None | (s, Some r) \<Rightarrow> take_raw r)
      else if unat tag mod 8 = 5 then (if 4 \<le> length bs then take_raw (drop 4 bs) else None)
      else None)"

definition leb_wire :: wire where
  "leb_wire = \<lparr>
     ReadTag = leb_tag,
     ReadUInt32 = leb_u32,
     ReadEnum = leb_u32,
     ReadBool = leb_bool,
     ReadString = leb_limited,
     ReadLimit = leb_limited,
     VerifyUtf8String = list_all (\<lambda>b. unat b < 128),
     SkipField = leb_skip,
     PreserveUnknowns = True,
     WriteUInt32 = (\<lambda>n v. of_nat (8 * n) # varint (unat v)),
     WriteEnum = (\<lambda>n v. of_nat (8 * n) # varint (unat v)),
     WriteBool = (\<lambda>n b. [of_nat (8 * n), if b then 1 else 0]),
     WriteString = (\<lambda>n s. of_nat (8 * n + 2) # varint (length s) @ s),
     WriteMessage = (\<lambda>n k p. of_nat (8 * n + 2) # varint k @ p),
     UInt32NoTag = (\<lambda>v. varint (unat v)),
     EnumNoTag = (\<lambda>v. varint (unat v)),
     BoolNoTag = (\<lambda>b. [if b then 1 else 0]),
     StringNoTag = (\<lambda>s. varint (length s) @ s),
     MessageNoTag = (\<lambda>k p. varint k @ p),
     UInt32Size = (\<lambda>v. length (varint (unat v))),
     EnumSize = (\<lambda>v. length (varint (unat v))),
     StringSize = (\<lambda>s. length (varint (length s)) + length s),
     MessageSize = (\<lambda>k. length (varint k) + k)\<rparr>"

lemma leb_tag_byte:
  assumes "k < 128"
  shows "leb_tag (of_nat k # r) = (of_nat k, True, r)"
proof -
  have "unat (of_nat k :: u8) = k" using assms by (simp add: unat_of_nat_byte)
  then have "ucast (of_nat k :: u8) = (of_nat k :: u32)"
    using assms
    by (simp add: word_unat_eq_iff unsigned_ucast_eq unat_of_nat take_bit_nat_eq_self)
  with \<open>unat (of_nat k :: u8) = k\<close> show ?thesis using assms by (simp add: leb_tag_def)
qed

lemma byte_nonzero: "0 < k \<Longrightarrow> k < 256 \<Longrightarrow> (0::u8) \<noteq> of_nat k"
  using unat_of_nat_byte [of k] by (metis less_irrefl unat_0)

lemma leb_limited_shrinks: "leb_limited bs = (s, Some r) \<Longrightarrow> length r \<le> length bs"
  by (auto simp: leb_limited_def split: option.splits if_splits dest!: unvarint_shrinks)

lemma leb_skip_shrinks: "leb_skip t bs = Some (u, r) \<Longrightarrow> length r \<le> length bs"
  by (auto simp: leb_skip_def Let_def bind_eq_Some_conv
      split: option.splits if_splits prod.splits
      dest!: unvarint_shrinks leb_limited_shrinks)

lemma leb_tag_stop: "fst (leb_tag []) = 0" "fst (leb_tag (0 # r)) = 0"
  by (simp_all add: leb_tag_def)

lemma leb_tag_shrinks: "fst (leb_tag bs) \<noteq> 0 \<Longrightarrow> length (snd (snd (leb_tag bs))) < length bs"
  by (auto simp: leb_tag_def split: list.splits option.splits if_splits dest!: unvarint_shrinks)

interpretation leb: wire_reads leb_wire
  by unfold_locales
    (auto simp: leb_wire_def leb_tag_shrinks leb_u32_def leb_bool_def
      leb_limited_shrinks leb_skip_shrinks leb_tag_stop dest!: unvarint_shrinks)

interpretation leb: wire_format leb_wire
proof unfold_locales
  fix n v r assume n: "1 \<le> (n::nat)" "n \<le> 15"
  then have s: "8 * n < 128" "8 * n + 2 < 128" by auto
  show "ReadTag leb_wire (WriteUInt32 leb_wire n v @ r) =
      (of_nat (8 * n), True, UInt32NoTag leb_wire v @ r)"
    using leb_tag_byte [OF s(1)] by (simp add: leb_wire_def del: of_nat_mult)
  show "ReadTag leb_wire (WriteEnum leb_wire n v @ r) =
      (of_nat (8 * n), True, EnumNoTag leb_wire v @ r)"
    using leb_tag_byte [OF s(1)] by (simp add: leb_wire_def del: of_nat_mult)
next
  fix n b r assume n: "1 \<le> (n::nat)" "n \<le> 15"
  then have s: "8 * n < 128" by auto
  show "ReadTag leb_wire (WriteBool leb_wire n b @ r) =
      (of_nat (8 * n), True, BoolNoTag leb_wire b @ r)"
    using leb_tag_byte [OF s] by (simp add: leb_wire_def del: of_nat_mult)
next
  fix n t r assume n: "1 \<le> (n::nat)" "n \<le> 15"
  then have s: "8 * n + 2 < 128" by auto
  show "ReadTag leb_wire (WriteString leb_wire n t @ r) =
      (of_nat (8 * n + 2), True, StringNoTag leb_wire t @ r)"
    using leb_tag_byte [OF s] by (simp add: leb_wire_def del: of_nat_mult of_nat_add)
next
  fix n k p r assume n: "1 \<le> (n::nat)" "n \<le> 15"
  then have s: "8 * n + 2 < 128" by auto
  show "ReadTag leb_wire (WriteMessage leb_wire n k p @ r) =
      (of_nat (8 * n + 2), True, MessageNoTag leb_wire k p @ r)"
    using leb_tag_byte [OF s] by (simp add: leb_wire_def del: of_nat_mult of_nat_add)
qed (auto simp: leb_wire_def leb_u32_def leb_bool_def leb_limited_def wire_simps)

interpretation leb: wire_nul_free leb_wire
proof unfold_locales
  fix n v assume n: "1 \<le> (n::nat)" "n \<le> 15" and v: "(v::u32) \<noteq> 0"
  then have "(0::u8) \<noteq> of_nat (8 * n)" by (intro byte_nonzero) auto
  moreover have "0 < unat v" using v by (simp add: unat_gt_0)
  ultimately show "0 \<notin> set (WriteUInt32 leb_wire n v)" "0 \<notin> set (WriteEnum leb_wire n v)"
    by (simp_all add: leb_wire_def varint_no_zero del: of_nat_mult)
next
  fix n t assume n: "1 \<le> (n::nat)" "n \<le> 15" and t: "(t::bytes) \<noteq> []" "0 \<notin> set t"
  then have "(0::u8) \<noteq> of_nat (8 * n + 2)" by (intro byte_nonzero) auto
  then show "0 \<notin> set (WriteString leb_wire n t)"
    using t by (simp add: leb_wire_def varint_no_zero del: of_nat_mult of_nat_add)
qed

end
