(* ===== verification/Api_Roundtrip.thy ===== *)
theory Api_Roundtrip
  imports Api_Codec Wire_Leb
begin

text \<open>
  The properties of \<open>protocol/api.pb.cc\<close>, for every protobuf runtime that keeps to the
  documented wire format, with that format itself (\<open>leb_wire\<close>) as the instance.
\<close>

text \<open>
  C16. Parsing undoes serialising: for each of the seven message types, a message without
  unknown fields and with valid strings comes back unchanged from the bytes it was
  serialised to.
\<close>

theorem message_roundtrip:
  assumes "wire_format W" and "Message_plain W m"
  shows "Message_ParseFromArray W (Message_Serialize W m) m = Some m"
  using assms by (rule wire_format.Message_parse_serialize)

definition sample_query :: Message where
  "sample_query = M_appendentries_q (appendentries_q_SharedCtor\<lparr>aq_term := 3, aq_prelogindex := 300,
     aq_entries := [entry_SharedCtor\<lparr>en_type := CFGADD, en_host := str ''10.0.0.7''\<rparr>, entry_SharedCtor]\<rparr>)"

theorem message_roundtrip_witness:
  "Message_ParseFromArray leb_wire (Message_Serialize leb_wire sample_query) sample_query = Some sample_query"
proof (rule message_roundtrip)
  show "wire_format leb_wire" by (rule leb.wire_format_axioms)
  show "Message_plain leb_wire sample_query" by code_simp
qed

text \<open>
  C28. The size a message announces is the number of bytes its serialisation writes: the
  frame length that is sent and the buffer that is allocated are exact.
\<close>

theorem message_size:
  assumes "wire_format W"
  shows "length (Message_Serialize W m) = Message_ByteSize W m"
  using assms by (rule wire_format.Message_size)

theorem message_size_witness:
  "length (Message_Serialize leb_wire sample_query) = Message_ByteSize leb_wire sample_query
   \<and> Message_ByteSize leb_wire sample_query = 21"
proof
  show "length (Message_Serialize leb_wire sample_query) = Message_ByteSize leb_wire sample_query"
    by (rule message_size) (rule leb.wire_format_axioms)
  show "Message_ByteSize leb_wire sample_query = 21" by code_simp
qed

text \<open>
  C30. The generated parsers return on every input: whatever bytes arrive, the parse loop of
  each message type, nested entries included, ends.
\<close>

theorem parse_terminates:
  assumes "wire_reads W"
  shows "\<exists>m'. Message_ParseFromArray W bs m = Some m'"
  using assms by (rule wire_reads.Message_ParseFromArray_returns)

theorem parse_terminates_witness:
  "\<exists>m'. Message_ParseFromArray leb_wire [255, 255, 3, 42, 200, 1] sample_query = Some m'"
  by (rule parse_terminates) (rule leb.wire_reads_axioms)

text \<open>
  \<open>CopyFrom\<close> makes the target equal to the source, whatever it held before, and the
  stream serialiser writes the same bytes as the array serialiser; shown for the log entry,
  which the replication code copies, and for the message that carries it.
\<close>

lemma copy_and_stream_serialise:
  "entry_CopyFrom False en e0 = en
   \<and> appendentries_q_CopyFrom False aq q0 = aq
   \<and> entry_SerializeWithCachedSizes W en out = out @ entry_InternalSerializeWithCachedSizesToArray W en
   \<and> appendentries_q_SerializeWithCachedSizes W aq out =
       out @ appendentries_q_InternalSerializeWithCachedSizesToArray W aq"
  by (simp add: CopyFrom_eq SerializeWithCachedSizes_eq)

end
