(* ===== verification/Api_Life.thy ===== *)
theory Api_Life
  imports Api_Codec
begin

text \<open>
  The life of the generated messages (\<open>protocol/api.pb.cc\<close>): constructors, copy constructors, \<open>New\<close>, and the operations on a
  \<open>Message\<close> whose class is found out by a cast. Merging a message of another class is left to protobuf's reflection,
  a parameter. What the operations promise together is the locale \<open>message_class\<close>.
\<close>

section \<open>Interface of a message class\<close>

locale message_class =
  fixes create :: 'm and copy :: "'m \<Rightarrow> 'm" and Clear :: "'m \<Rightarrow> 'm" and MergeFrom :: "'m \<Rightarrow> 'm \<Rightarrow> 'm"
    and CopyFrom :: "bool \<Rightarrow> 'm \<Rightarrow> 'm \<Rightarrow> 'm" and wrap :: "'m \<Rightarrow> Message"
    and MergeMsg :: "(Message \<Rightarrow> 'm \<Rightarrow> 'm res) \<Rightarrow> Message \<Rightarrow> 'm \<Rightarrow> 'm res"
    and CopyMsg :: "(Message \<Rightarrow> 'm \<Rightarrow> 'm res) \<Rightarrow> bool \<Rightarrow> Message \<Rightarrow> 'm \<Rightarrow> 'm res"
    and Swap :: "bool \<Rightarrow> 'm \<Rightarrow> 'm \<Rightarrow> 'm \<times> 'm"
  assumes copy_eq: "copy m = m"
    and clear_create: "Clear m = create"
    and merge_create: "MergeFrom m create = m"
    and copy_from: "CopyFrom same from m = (if same then m else MergeFrom from (Clear m))"
    and merge_msg: "MergeMsg r (wrap from) m = Inr (MergeFrom from m)"
    and merge_other: "msg \<notin> range wrap \<Longrightarrow> MergeMsg r msg m = r msg m"
    and copy_msg: "CopyMsg r same msg m = (if same then Inr m else MergeMsg r msg (Clear m))"
    and swap: "Swap False m m' = (m', m)" "Swap True m m = (m, m)"
begin

text \<open>All ways to copy agree, whatever was in the target; only the class decides whether reflection takes part.\<close>

lemma copies_agree:
  "CopyFrom False from m = copy from" "CopyMsg r False (wrap from) m = Inr (copy from)"
  "CopyMsg r False (wrap from) m = MergeMsg r (wrap from) create"
  by (simp_all add: copy_eq copy_from clear_create merge_create copy_msg merge_msg)

lemma copy_other: "msg \<notin> range wrap \<Longrightarrow> CopyMsg r False msg m = r msg create"
  by (simp add: copy_msg merge_other clear_create)

lemma copy_itself: "CopyFrom True from m = m" "CopyMsg r True msg m = Inr m"
  by (simp_all add: copy_from copy_msg)

lemma swap_twice: "case Swap False m m' of (a, b) \<Rightarrow> Swap False a b = (m, m')"
  by (simp add: swap)

end

section \<open>\<open>handshake_q\<close>\<close>

definition handshake_q_new :: "handshake_q" where
  "handshake_q_new = handshake_q_SharedCtor"

definition handshake_q_copy :: "handshake_q \<Rightarrow> handshake_q" where
  "handshake_q_copy from = \<lparr>hq_raftport = hq_raftport from, hq_httpport = hq_httpport from, hq_nodeid = hq_nodeid from, hq_unknown = hq_unknown from\<rparr>"

definition handshake_q_New :: "bool \<Rightarrow> handshake_q \<times> bool" where
  "handshake_q_New arena = (handshake_q_new, arena)"

definition handshake_q_MergeFrom_Message :: "(Message \<Rightarrow> handshake_q \<Rightarrow> handshake_q res) \<Rightarrow> Message \<Rightarrow> handshake_q \<Rightarrow> handshake_q res" where
  "handshake_q_MergeFrom_Message reflection from m =
     (case from of M_handshake_q source \<Rightarrow> Inr (handshake_q_MergeFrom source m) | _ \<Rightarrow> reflection from m)"

definition handshake_q_CopyFrom_Message :: "(Message \<Rightarrow> handshake_q \<Rightarrow> handshake_q res) \<Rightarrow> bool \<Rightarrow> Message \<Rightarrow> handshake_q \<Rightarrow> handshake_q res" where
  "handshake_q_CopyFrom_Message reflection same from m =
     (if same then Inr m else handshake_q_MergeFrom_Message reflection from (handshake_q_Clear m))"

definition handshake_q_IsInitialized :: "handshake_q \<Rightarrow> bool" where
  "handshake_q_IsInitialized m = True"

definition handshake_q_Swap :: "bool \<Rightarrow> handshake_q \<Rightarrow> handshake_q \<Rightarrow> handshake_q \<times> handshake_q" where
  "handshake_q_Swap same m other = (if same then (m, other) else handshake_q_InternalSwap m other)"

section \<open>\<open>handshake_r\<close>\<close>

definition handshake_r_new :: "handshake_r" where
  "handshake_r_new = handshake_r_SharedCtor"

definition handshake_r_copy :: "handshake_r \<Rightarrow> handshake_r" where
  "handshake_r_copy from = \<lparr>hr_result = hr_result from, hr_leaderhost = (if hr_leaderhost from \<noteq> [] then hr_leaderhost from else []), hr_leaderraftport = hr_leaderraftport from, hr_unknown = hr_unknown from\<rparr>"

definition handshake_r_New :: "bool \<Rightarrow> handshake_r \<times> bool" where
  "handshake_r_New arena = (handshake_r_new, arena)"

definition handshake_r_MergeFrom_Message :: "(Message \<Rightarrow> handshake_r \<Rightarrow> handshake_r res) \<Rightarrow> Message \<Rightarrow> handshake_r \<Rightarrow> handshake_r res" where
  "handshake_r_MergeFrom_Message reflection from m =
     (case from of M_handshake_r source \<Rightarrow> Inr (handshake_r_MergeFrom source m) | _ \<Rightarrow> reflection from m)"

definition handshake_r_CopyFrom_Message :: "(Message \<Rightarrow> handshake_r \<Rightarrow> handshake_r res) \<Rightarrow> bool \<Rightarrow> Message \<Rightarrow> handshake_r \<Rightarrow> handshake_r res" where
  "handshake_r_CopyFrom_Message reflection same from m =
     (if same then Inr m else handshake_r_MergeFrom_Message reflection from (handshake_r_Clear m))"

definition handshake_r_IsInitialized :: "handshake_r \<Rightarrow> bool" where
  "handshake_r_IsInitialized m = True"

definition handshake_r_Swap :: "bool \<Rightarrow> handshake_r \<Rightarrow> handshake_r \<Rightarrow> handshake_r \<times> handshake_r" where
  "handshake_r_Swap same m other = (if same then (m, other) else handshake_r_InternalSwap m other)"

section \<open>\<open>entry\<close>\<close>

definition entry_new :: "entry" where
  "entry_new = entry_SharedCtor"

definition entry_copy :: "entry \<Rightarrow> entry" where
  "entry_copy from = \<lparr>en_type = en_type from, en_term = en_term from, en_nodeid = en_nodeid from, en_port = en_port from, en_host = (if en_host from \<noteq> [] then en_host from else []), en_write_it = en_write_it from, en_unknown = en_unknown from\<rparr>"

definition entry_New :: "bool \<Rightarrow> entry \<times> bool" where
  "entry_New arena = (entry_new, arena)"

definition entry_MergeFrom_Message :: "(Message \<Rightarrow> entry \<Rightarrow> entry res) \<Rightarrow> Message \<Rightarrow> entry \<Rightarrow> entry res" where
  "entry_MergeFrom_Message reflection from m =
     (case from of M_entry source \<Rightarrow> Inr (entry_MergeFrom source m) | _ \<Rightarrow> reflection from m)"

definition entry_CopyFrom_Message :: "(Message \<Rightarrow> entry \<Rightarrow> entry res) \<Rightarrow> bool \<Rightarrow> Message \<Rightarrow> entry \<Rightarrow> entry res" where
  "entry_CopyFrom_Message reflection same from m =
     (if same then Inr m else entry_MergeFrom_Message reflection from (entry_Clear m))"

definition entry_IsInitialized :: "entry \<Rightarrow> bool" where
  "entry_IsInitialized m = True"

definition entry_Swap :: "bool \<Rightarrow> entry \<Rightarrow> entry \<Rightarrow> entry \<times> entry" where
  "entry_Swap same m other = (if same then (m, other) else entry_InternalSwap m other)"

section \<open>\<open>appendentries_q\<close>\<close>

definition appendentries_q_new :: "appendentries_q" where
  "appendentries_q_new = appendentries_q_SharedCtor"

definition appendentries_q_copy :: "appendentries_q \<Rightarrow> appendentries_q" where
  "appendentries_q_copy from = \<lparr>aq_term = aq_term from, aq_prelogindex = aq_prelogindex from, aq_prelogterm = aq_prelogterm from, aq_leadercommit = aq_leadercommit from, aq_entries = aq_entries from, aq_unknown = aq_unknown from\<rparr>"

definition appendentries_q_New :: "bool \<Rightarrow> appendentries_q \<times> bool" where
  "appendentries_q_New arena = (appendentries_q_new, arena)"

definition appendentries_q_MergeFrom_Message :: "(Message \<Rightarrow> appendentries_q \<Rightarrow> appendentries_q res) \<Rightarrow> Message \<Rightarrow> appendentries_q \<Rightarrow> appendentries_q res" where
  "appendentries_q_MergeFrom_Message reflection from m =
     (case from of M_appendentries_q source \<Rightarrow> Inr (appendentries_q_MergeFrom source m) | _ \<Rightarrow> reflection from m)"

definition appendentries_q_CopyFrom_Message :: "(Message \<Rightarrow> appendentries_q \<Rightarrow> appendentries_q res) \<Rightarrow> bool \<Rightarrow> Message \<Rightarrow> appendentries_q \<Rightarrow> appendentries_q res" where
  "appendentries_q_CopyFrom_Message reflection same from m =
     (if same then Inr m else appendentries_q_MergeFrom_Message reflection from (appendentries_q_Clear m))"

definition appendentries_q_IsInitialized :: "appendentries_q \<Rightarrow> bool" where
  "appendentries_q_IsInitialized m = True"

definition appendentries_q_Swap :: "bool \<Rightarrow> appendentries_q \<Rightarrow> appendentries_q \<Rightarrow> appendentries_q \<times> appendentries_q" where
  "appendentries_q_Swap same m other = (if same then (m, other) else appendentries_q_InternalSwap m other)"

section \<open>\<open>appendentries_r\<close>\<close>

definition appendentries_r_new :: "appendentries_r" where
  "appendentries_r_new = appendentries_r_SharedCtor"

definition appendentries_r_copy :: "appendentries_r \<Rightarrow> appendentries_r" where
  "appendentries_r_copy from = \<lparr>ar_term = ar_term from, ar_success = ar_success from, ar_isheartbeat = ar_isheartbeat from, ar_unknown = ar_unknown from\<rparr>"

definition appendentries_r_New :: "bool \<Rightarrow> appendentries_r \<times> bool" where
  "appendentries_r_New arena = (appendentries_r_new, arena)"

definition appendentries_r_MergeFrom_Message :: "(Message \<Rightarrow> appendentries_r \<Rightarrow> appendentries_r res) \<Rightarrow> Message \<Rightarrow> appendentries_r \<Rightarrow> appendentries_r res" where
  "appendentries_r_MergeFrom_Message reflection from m =
     (case from of M_appendentries_r source \<Rightarrow> Inr (appendentries_r_MergeFrom source m) | _ \<Rightarrow> reflection from m)"

definition appendentries_r_CopyFrom_Message :: "(Message \<Rightarrow> appendentries_r \<Rightarrow> appendentries_r res) \<Rightarrow> bool \<Rightarrow> Message \<Rightarrow> appendentries_r \<Rightarrow> appendentries_r res" where
  "appendentries_r_CopyFrom_Message reflection same from m =
     (if same then Inr m else appendentries_r_MergeFrom_Message reflection from (appendentries_r_Clear m))"

definition appendentries_r_IsInitialized :: "appendentries_r \<Rightarrow> bool" where
  "appendentries_r_IsInitialized m = True"

definition appendentries_r_Swap :: "bool \<Rightarrow> appendentries_r \<Rightarrow> appendentries_r \<Rightarrow> appendentries_r \<times> appendentries_r" where
  "appendentries_r_Swap same m other = (if same then (m, other) else appendentries_r_InternalSwap m other)"

section \<open>\<open>requestvote_q\<close>\<close>

definition requestvote_q_new :: "requestvote_q" where
  "requestvote_q_new = requestvote_q_SharedCtor"

definition requestvote_q_copy :: "requestvote_q \<Rightarrow> requestvote_q" where
  "requestvote_q_copy from = \<lparr>vq_term = vq_term from, vq_candidateid = vq_candidateid from, vq_lastlogindex = vq_lastlogindex from, vq_lastlogterm = vq_lastlogterm from, vq_unknown = vq_unknown from\<rparr>"

definition requestvote_q_New :: "bool \<Rightarrow> requestvote_q \<times> bool" where
  "requestvote_q_New arena = (requestvote_q_new, arena)"

definition requestvote_q_MergeFrom_Message :: "(Message \<Rightarrow> requestvote_q \<Rightarrow> requestvote_q res) \<Rightarrow> Message \<Rightarrow> requestvote_q \<Rightarrow> requestvote_q res" where
  "requestvote_q_MergeFrom_Message reflection from m =
     (case from of M_requestvote_q source \<Rightarrow> Inr (requestvote_q_MergeFrom source m) | _ \<Rightarrow> reflection from m)"

definition requestvote_q_CopyFrom_Message :: "(Message \<Rightarrow> requestvote_q \<Rightarrow> requestvote_q res) \<Rightarrow> bool \<Rightarrow> Message \<Rightarrow> requestvote_q \<Rightarrow> requestvote_q res" where
  "requestvote_q_CopyFrom_Message reflection same from m =
     (if same then Inr m else requestvote_q_MergeFrom_Message reflection from (requestvote_q_Clear m))"

definition requestvote_q_IsInitialized :: "requestvote_q \<Rightarrow> bool" where
  "requestvote_q_IsInitialized m = True"

definition requestvote_q_Swap :: "bool \<Rightarrow> requestvote_q \<Rightarrow> requestvote_q \<Rightarrow> requestvote_q \<times> requestvote_q" where
  "requestvote_q_Swap same m other = (if same then (m, other) else requestvote_q_InternalSwap m other)"

section \<open>\<open>requestvote_r\<close>\<close>

definition requestvote_r_new :: "requestvote_r" where
  "requestvote_r_new = requestvote_r_SharedCtor"

definition requestvote_r_copy :: "requestvote_r \<Rightarrow> requestvote_r" where
  "requestvote_r_copy from = \<lparr>vr_term = vr_term from, vr_votegranted = vr_votegranted from, vr_unknown = vr_unknown from\<rparr>"

definition requestvote_r_New :: "bool \<Rightarrow> requestvote_r \<times> bool" where
  "requestvote_r_New arena = (requestvote_r_new, arena)"

definition requestvote_r_MergeFrom_Message :: "(Message \<Rightarrow> requestvote_r \<Rightarrow> requestvote_r res) \<Rightarrow> Message \<Rightarrow> requestvote_r \<Rightarrow> requestvote_r res" where
  "requestvote_r_MergeFrom_Message reflection from m =
     (case from of M_requestvote_r source \<Rightarrow> Inr (requestvote_r_MergeFrom source m) | _ \<Rightarrow> reflection from m)"

definition requestvote_r_CopyFrom_Message :: "(Message \<Rightarrow> requestvote_r \<Rightarrow> requestvote_r res) \<Rightarrow> bool \<Rightarrow> Message \<Rightarrow> requestvote_r \<Rightarrow> requestvote_r res" where
  "requestvote_r_CopyFrom_Message reflection same from m =
     (if same then Inr m else requestvote_r_MergeFrom_Message reflection from (requestvote_r_Clear m))"

definition requestvote_r_IsInitialized :: "requestvote_r \<Rightarrow> bool" where
  "requestvote_r_IsInitialized m = True"

definition requestvote_r_Swap :: "bool \<Rightarrow> requestvote_r \<Rightarrow> requestvote_r \<Rightarrow> requestvote_r \<times> requestvote_r" where
  "requestvote_r_Swap same m other = (if same then (m, other) else requestvote_r_InternalSwap m other)"

section \<open>The classes behind the interface\<close>

interpretation handshake_q_class: message_class handshake_q_new handshake_q_copy handshake_q_Clear handshake_q_MergeFrom "handshake_q_CopyFrom" M_handshake_q
    handshake_q_MergeFrom_Message handshake_q_CopyFrom_Message handshake_q_Swap
  by unfold_locales (auto simp: handshake_q_new_def handshake_q_copy_def handshake_q_MergeFrom_Message_def handshake_q_CopyFrom_Message_def handshake_q_Swap_def
      InternalSwap_eq handshake_q_defs Let_def split: Message.splits)

interpretation handshake_r_class: message_class handshake_r_new handshake_r_copy handshake_r_Clear handshake_r_MergeFrom "handshake_r_CopyFrom" M_handshake_r
    handshake_r_MergeFrom_Message handshake_r_CopyFrom_Message handshake_r_Swap
  by unfold_locales (auto simp: handshake_r_new_def handshake_r_copy_def handshake_r_MergeFrom_Message_def handshake_r_CopyFrom_Message_def handshake_r_Swap_def
      InternalSwap_eq handshake_r_defs Let_def split: Message.splits)

interpretation entry_class: message_class entry_new entry_copy entry_Clear entry_MergeFrom "entry_CopyFrom" M_entry
    entry_MergeFrom_Message entry_CopyFrom_Message entry_Swap
  by unfold_locales (auto simp: entry_new_def entry_copy_def entry_MergeFrom_Message_def entry_CopyFrom_Message_def entry_Swap_def
      InternalSwap_eq entry_defs Let_def split: Message.splits)

interpretation appendentries_q_class: message_class appendentries_q_new appendentries_q_copy appendentries_q_Clear appendentries_q_MergeFrom "appendentries_q_CopyFrom" M_appendentries_q
    appendentries_q_MergeFrom_Message appendentries_q_CopyFrom_Message appendentries_q_Swap
  by unfold_locales (auto simp: appendentries_q_new_def appendentries_q_copy_def appendentries_q_MergeFrom_Message_def appendentries_q_CopyFrom_Message_def appendentries_q_Swap_def
      InternalSwap_eq appendentries_q_defs Let_def split: Message.splits)

interpretation appendentries_r_class: message_class appendentries_r_new appendentries_r_copy appendentries_r_Clear appendentries_r_MergeFrom "appendentries_r_CopyFrom" M_appendentries_r
    appendentries_r_MergeFrom_Message appendentries_r_CopyFrom_Message appendentries_r_Swap
  by unfold_locales (auto simp: appendentries_r_new_def appendentries_r_copy_def appendentries_r_MergeFrom_Message_def appendentries_r_CopyFrom_Message_def appendentries_r_Swap_def
      InternalSwap_eq appendentries_r_defs Let_def split: Message.splits)

interpretation requestvote_q_class: message_class requestvote_q_new requestvote_q_copy requestvote_q_Clear requestvote_q_MergeFrom "requestvote_q_CopyFrom" M_requestvote_q
    requestvote_q_MergeFrom_Message requestvote_q_CopyFrom_Message requestvote_q_Swap
  by unfold_locales (auto simp: requestvote_q_new_def requestvote_q_copy_def requestvote_q_MergeFrom_Message_def requestvote_q_CopyFrom_Message_def requestvote_q_Swap_def
      InternalSwap_eq requestvote_q_defs Let_def split: Message.splits)

interpretation requestvote_r_class: message_class requestvote_r_new requestvote_r_copy requestvote_r_Clear requestvote_r_MergeFrom "requestvote_r_CopyFrom" M_requestvote_r
    requestvote_r_MergeFrom_Message requestvote_r_CopyFrom_Message requestvote_r_Swap
  by unfold_locales (auto simp: requestvote_r_new_def requestvote_r_copy_def requestvote_r_MergeFrom_Message_def requestvote_r_CopyFrom_Message_def requestvote_r_Swap_def
      InternalSwap_eq requestvote_r_defs Let_def split: Message.splits)

end
