(* ===== verification/Std_Map.thy ===== *)
theory Std_Map
  imports Raft_Prelude
begin

text \<open>
  \<open>std::map\<close> as the program uses it: \<open>find\<close>, \<open>operator[]\<close> (which inserts a
  default value for a missing key, also when it is only read), assignment through it,
  \<open>erase\<close> of a found element, \<open>size\<close>, and iteration in ascending key order. A map is
  the list of its elements in iteration order.
\<close>

type_synonym ('k, 'v) omap = "('k \<times> 'v) list"

section \<open>The interface\<close>

locale ordered_map =
  fixes find :: "'k::linorder \<Rightarrow> 'm \<Rightarrow> 'v option"
    and assign :: "'k \<Rightarrow> 'v \<Rightarrow> 'm \<Rightarrow> 'm"
    and erase :: "'k \<Rightarrow> 'm \<Rightarrow> 'm"
    and elements :: "'m \<Rightarrow> ('k \<times> 'v) list"
    and ok :: "'m \<Rightarrow> bool"
  assumes find_assign: "find k' (assign k v m) = (if k' = k then Some v else find k' m)"
    and find_erase: "ok m \<Longrightarrow> find k' (erase k m) = (if k' = k then None else find k' m)"
    and ok_assign: "ok m \<Longrightarrow> ok (assign k v m)"
    and ok_erase: "ok m \<Longrightarrow> ok (erase k m)"
    and elements_find: "ok m \<Longrightarrow> (k, v) \<in> set (elements m) \<longleftrightarrow> find k m = Some v"
    and elements_sorted: "ok m \<Longrightarrow> sorted_wrt (<) (map fst (elements m))"
begin

lemma elements_distinct: "ok m \<Longrightarrow> distinct (map fst (elements m))"
  using elements_sorted [of m] by (simp add: strict_sorted_iff)

text \<open>Assigning to a present key keeps the number of elements; to a new one adds one.\<close>

lemma keys_find: "ok m \<Longrightarrow> k \<in> fst ` set (elements m) \<longleftrightarrow> find k m \<noteq> None"
  using elements_find [of m k] by (force simp: image_iff)

lemma keys_assign:
  "ok m \<Longrightarrow> fst ` set (elements (assign k v m)) = insert k (fst ` set (elements m))"
  by (rule set_eqI) (simp add: keys_find ok_assign find_assign)

lemma size_assign:
  assumes "ok m"
  shows "length (elements (assign k v m)) =
    (if find k m = None then Suc (length (elements m)) else length (elements m))"
proof -
  have card: "length (elements m') = card (fst ` set (elements m'))" if "ok m'" for m'
    using elements_distinct [OF that] by (metis distinct_card length_map list.set_map)
  show ?thesis
    using keys_find [OF assms, of k] card [OF assms] card [OF ok_assign [OF assms]] keys_assign [OF assms]
    by (auto simp: insert_absorb)
qed

end

section \<open>The elements in key order\<close>

fun om_find :: "'k \<Rightarrow> ('k, 'v) omap \<Rightarrow> 'v option" where
  "om_find k [] = None"
| "om_find k ((k', v) # m) = (if k = k' then Some v else om_find k m)"

fun om_assign :: "'k::linorder \<Rightarrow> 'v \<Rightarrow> ('k, 'v) omap \<Rightarrow> ('k, 'v) omap" where
  "om_assign k v [] = [(k, v)]"
| "om_assign k v ((k', v') # m) =
     (if k < k' then (k, v) # (k', v') # m
      else if k = k' then (k, v) # m
      else (k', v') # om_assign k v m)"

fun om_erase :: "'k \<Rightarrow> ('k, 'v) omap \<Rightarrow> ('k, 'v) omap" where
  "om_erase k [] = []"
| "om_erase k ((k', v) # m) = (if k = k' then m else (k', v) # om_erase k m)"

text \<open>\<open>m[k]\<close> in an expression: a missing key is inserted with the default \<open>d\<close>.\<close>

definition om_index :: "'v \<Rightarrow> 'k::linorder \<Rightarrow> ('k, 'v) omap \<Rightarrow> 'v \<times> ('k, 'v) omap" where
  "om_index d k m = (case om_find k m of Some v \<Rightarrow> (v, m) | None \<Rightarrow> (d, om_assign k d m))"

definition om_ok :: "('k::linorder, 'v) omap \<Rightarrow> bool" where
  "om_ok m \<longleftrightarrow> sorted_wrt (<) (map fst m)"

lemma om_ok_Nil [simp]: "om_ok []"
  by (simp add: om_ok_def)

lemma om_ok_Cons: "om_ok ((k, v) # m) \<longleftrightarrow> (\<forall>k' \<in> fst ` set m. k < k') \<and> om_ok m"
  by (auto simp: om_ok_def)

lemma om_find_assign [simp]:
  "om_find k' (om_assign k v m) = (if k' = k then Some v else om_find k' m)"
  by (induction k v m rule: om_assign.induct) auto

lemma om_assign_twice [simp]: "om_assign k a (om_assign k b m) = om_assign k a m"
  by (induction k b m rule: om_assign.induct) auto

lemma om_find_None_iff: "om_find k m = None \<longleftrightarrow> k \<notin> fst ` set m"
  by (induction k m rule: om_find.induct) auto

lemma om_find_erase: "om_ok m \<Longrightarrow> om_find k' (om_erase k m) = (if k' = k then None else om_find k' m)"
proof (induction k m rule: om_erase.induct)
  case (2 k k'' v m)
  then show ?case using om_find_None_iff [of k m] by (auto simp: om_ok_Cons)
qed simp

lemma keys_om_assign: "fst ` set (om_assign k v m) = insert k (fst ` set m)"
  by (induction k v m rule: om_assign.induct) auto

lemma keys_om_erase: "fst ` set (om_erase k m) \<subseteq> fst ` set m"
  by (induction k m rule: om_erase.induct) auto

lemma om_ok_assign [simp, intro]: "om_ok m \<Longrightarrow> om_ok (om_assign k v m)"
  by (induction k v m rule: om_assign.induct) (auto simp: om_ok_Cons keys_om_assign)

lemma om_ok_erase [simp, intro]: "om_ok m \<Longrightarrow> om_ok (om_erase k m)"
  using keys_om_erase by (induction k m rule: om_erase.induct) (fastforce simp: om_ok_Cons)+

lemma om_elements_find: "om_ok m \<Longrightarrow> (k, v) \<in> set m \<longleftrightarrow> om_find k m = Some v"
  by (induction k m rule: om_find.induct) (force simp: om_ok_Cons)+

interpretation om: ordered_map om_find om_assign om_erase "\<lambda>m. m" om_ok
  by unfold_locales
    (auto simp: om_find_erase om_elements_find, simp add: om_ok_def)

lemma om_index_fst: "fst (om_index d k m) = (case om_find k m of Some v \<Rightarrow> v | None \<Rightarrow> d)"
  by (simp add: om_index_def split: option.split)

lemma om_find_index [simp]:
  "om_find k' (snd (om_index d k m)) =
     (if k' = k then Some (case om_find k m of Some v \<Rightarrow> v | None \<Rightarrow> d) else om_find k' m)"
  by (simp add: om_index_def split: option.split)

text \<open>An in-place change of every element, as a loop over the map performs it.\<close>

definition om_update_all :: "('v \<Rightarrow> 'v) \<Rightarrow> ('k, 'v) omap \<Rightarrow> ('k, 'v) omap" where
  "om_update_all f m = map (\<lambda>(k, v). (k, f v)) m"

lemma om_find_update_all [simp]:
  "om_find k (om_update_all f m) = map_option f (om_find k m)"
  by (induction k m rule: om_find.induct) (auto simp: om_update_all_def)

end
