(* ===== verification/Leveldb_Store.thy ===== *)
theory Leveldb_Store
  imports Raft_Prelude
begin

text \<open>
  What the server uses of leveldb. The engine is a prebuilt library, so a database is a
  parameter: a record of its \<open>Put\<close>, \<open>Delete\<close> and iterator, over an abstract state.
  Its documented behaviour (\<open>leveldb/db.h\<close>, \<open>leveldb/iterator.h\<close>: an ordered map
  whose iterator visits the keys in comparator order) is the locale \<open>ldb_engine\<close>.

  The comparator that the server installs for its log (\<open>IndexComparator\<close> in
  \<open>nanoraft/RaftServer.cpp\<close>), the decimal keys it writes and the two ways it builds a
  \<open>Slice\<close> are translated.
\<close>

section \<open>Decimal keys\<close>

text \<open>\<open>std::to_string\<close> of an unsigned value.\<close>

fun to_string :: "nat \<Rightarrow> bytes" where
  "to_string n = (if n < 10 then [of_nat (48 + n)] else to_string (n div 10) @ [of_nat (48 + n mod 10)])"

declare to_string.simps [simp del]

text \<open>The same for a signed value, as \<open>%d\<close> prints it.\<close>

definition to_string_int :: "int \<Rightarrow> bytes" where
  "to_string_int n = (if n < 0 then 45 # to_string (nat (- n)) else to_string (nat n))"

definition is_digit :: "u8 \<Rightarrow> bool" where
  "is_digit b \<longleftrightarrow> 48 \<le> unat b \<and> unat b \<le> 57"

definition digits_value :: "bytes \<Rightarrow> int" where
  "digits_value ds = foldl (\<lambda>acc d. 10 * acc + (int (unat d) - 48)) 0 ds"

text \<open>
  The number at the start of a string: skip white space, an optional sign, the longest run of
  digits; 0 when there is none.
\<close>

definition parse_int :: "bytes \<Rightarrow> int" where
  "parse_int bs =
     (let bs = dropWhile (\<lambda>b. unat b = 32 \<or> (9 \<le> unat b \<and> unat b \<le> 13)) bs in
      case bs of
        [] \<Rightarrow> 0
      | b # r \<Rightarrow>
          if unat b = 45 then - digits_value (takeWhile is_digit r)
          else if unat b = 43 then digits_value (takeWhile is_digit r)
          else digits_value (takeWhile is_digit bs))"

text \<open>
  \<open>std::istringstream >> int\<close> stores the nearest \<open>int\<close> when the value does not fit.
  (It stores nothing for a blank string; the program writes no such key.)
\<close>

definition clamp_int :: "int \<Rightarrow> int" where
  "clamp_int v = max (- (2 ^ 31)) (min v (2 ^ 31 - 1))"

definition extract_int :: "bytes \<Rightarrow> int" where
  "extract_int bs = clamp_int (parse_int bs)"

text \<open>\<open>atoi\<close> is undefined when the value does not fit.\<close>

definition atoi :: "bytes \<Rightarrow> int res" where
  "atoi bs = (let v = parse_int bs in if - (2 ^ 31) \<le> v \<and> v < 2 ^ 31 then Inr v else Inl SignedOverflow)"

definition IndexComparator_Compare :: "bytes \<Rightarrow> bytes \<Rightarrow> int" where
  "IndexComparator_Compare a b =
     (let iIndex1 = extract_int a; iIndex2 = extract_int b in
      if iIndex1 < iIndex2 then -1 else if iIndex1 > iIndex2 then 1 else 0)"

definition digit :: "nat \<Rightarrow> u8" where
  "digit d = of_nat (48 + d)"

lemma unat_digit [simp]: "d < 10 \<Longrightarrow> unat (digit d) = 48 + d"
  by (simp add: digit_def unat_of_nat del: of_nat_add)

lemma to_string_digit:
  "to_string n = (if n < 10 then [digit n] else to_string (n div 10) @ [digit (n mod 10)])"
  by (subst to_string.simps) (simp add: digit_def)

lemma to_string_digits: "list_all is_digit (to_string n)"
proof (induction n rule: to_string.induct)
  case (1 n)
  have "is_digit (digit d)" if "d < 10" for d
    using that by (simp add: is_digit_def)
  with 1 show ?case by (simp add: to_string_digit [of n])
qed

lemma to_string_not_Nil [simp]: "to_string n \<noteq> []"
  by (simp add: to_string.simps)

lemma digits_value_to_string: "digits_value (to_string n) = int n"
proof (induction n rule: to_string.induct)
  case (1 n)
  have v: "digits_value (ds @ [digit d]) = 10 * digits_value ds + int d" if "d < 10" for ds d
    by (simp only: digits_value_def foldl_append foldl.simps unat_digit [OF that])
  have z: "digits_value [digit d] = int d" if "d < 10" for d
    using v [OF that, of "[]"] by (simp add: digits_value_def)
  show ?case
  proof (cases "n < 10")
    case True
    then show ?thesis by (simp add: to_string_digit [of n] z)
  next
    case False
    have "int n = 10 * int (n div 10) + int (n mod 10)" by presburger
    with False 1 show ?thesis by (simp add: to_string_digit [of n] v)
  qed
qed

lemma takeWhile_all: "list_all P xs \<Longrightarrow> takeWhile P xs = xs"
  by (induction xs) auto

text \<open>What was printed is read back; by the comparator up to \<open>INT_MAX\<close>.\<close>

lemma parse_int_to_string: "parse_int (to_string n) = int n"
proof -
  obtain b r where br: "to_string n = b # r" by (cases "to_string n") auto
  have d: "is_digit b" using to_string_digits [of n] by (simp add: br)
  have v: "digits_value (takeWhile is_digit (b # r)) = int n"
    using to_string_digits [of n] digits_value_to_string [of n] by (simp add: br takeWhile_all)
  have "dropWhile (\<lambda>b. unat b = 32 \<or> (9 \<le> unat b \<and> unat b \<le> 13)) (b # r) = b # r"
    using d by (auto simp: is_digit_def)
  with d v show ?thesis by (auto simp: parse_int_def br is_digit_def Let_def)
qed

lemma extract_int_to_string: "extract_int (to_string n) = min (int n) (2 ^ 31 - 1)"
  by (simp add: extract_int_def parse_int_to_string clamp_int_def)

lemma atoi_to_string: "n < 2 ^ 31 \<Longrightarrow> atoi (to_string n) = Inr (int n)"
  by (simp add: atoi_def parse_int_to_string)

lemma length_to_string: "n < 10 ^ k \<Longrightarrow> 0 < k \<Longrightarrow> length (to_string n) \<le> k"
proof (induction k arbitrary: n)
  case (Suc k)
  show ?case
  proof (cases "n < 10")
    case False
    with Suc.prems have "n div 10 < 10 ^ k" and "0 < k" by (cases k; simp)+
    with Suc.IH have "length (to_string (n div 10)) \<le> k" by blast
    with False show ?thesis by (simp add: to_string.simps [of n])
  qed (simp add: to_string.simps)
qed simp

lemma Compare_to_string:
  "i < 2 ^ 31 \<Longrightarrow> j < 2 ^ 31 \<Longrightarrow>
   IndexComparator_Compare (to_string i) (to_string j) = sgn (int i - int j)"
  by (simp add: IndexComparator_Compare_def extract_int_to_string Let_def)

section \<open>Slices\<close>

text \<open>
  \<open>Slice(const char* s)\<close> takes \<open>strlen(s)\<close> bytes. The scan does not know where the
  allocation ends: it goes on into \<open>after\<close>, the memory that follows the block, and has
  no defined result when there is no zero byte in sight.
\<close>

definition Slice_cstr :: "bytes \<Rightarrow> bytes \<Rightarrow> bytes res" where
  "Slice_cstr block after =
     (if 0 \<in> set (block @ after) then Inr (takeWhile (\<lambda>b. b \<noteq> 0) (block @ after))
      else Inl OverRead)"

lemma Slice_cstr_terminated:
  "0 \<notin> set block \<Longrightarrow> Slice_cstr block (0 # after) = Inr block"
  by (induction block) (auto simp: Slice_cstr_def)

lemma Slice_cstr_extends:
  "0 \<notin> set block \<Longrightarrow> 0 \<in> set after \<Longrightarrow>
   Slice_cstr block after = Inr (block @ takeWhile (\<lambda>b. b \<noteq> 0) after)"
  by (induction block) (auto simp: Slice_cstr_def)

section \<open>The engine\<close>

record 'db leveldb =
  ldb_Put :: "'db \<Rightarrow> bytes \<Rightarrow> bytes \<Rightarrow> bool \<times> 'db"
  ldb_Delete :: "'db \<Rightarrow> bytes \<Rightarrow> bool \<times> 'db"
  ldb_Iter :: "'db \<Rightarrow> (bytes \<times> bytes) list"
  ldb_IterOk :: "'db \<Rightarrow> bool"

text \<open>The ordered map that the documentation describes, for a comparator \<open>cmp\<close>.\<close>

fun ldb_ins :: "(bytes \<Rightarrow> bytes \<Rightarrow> int) \<Rightarrow> bytes \<Rightarrow> bytes \<Rightarrow> (bytes \<times> bytes) list
    \<Rightarrow> (bytes \<times> bytes) list" where
  "ldb_ins cmp k v [] = [(k, v)]"
| "ldb_ins cmp k v ((k', v') # kvs) =
     (if cmp k k' < 0 then (k, v) # (k', v') # kvs
      else if cmp k k' = 0 then (k, v) # kvs
      else (k', v') # ldb_ins cmp k v kvs)"

definition ldb_del :: "(bytes \<Rightarrow> bytes \<Rightarrow> int) \<Rightarrow> bytes \<Rightarrow> (bytes \<times> bytes) list
    \<Rightarrow> (bytes \<times> bytes) list" where
  "ldb_del cmp k kvs = filter (\<lambda>kv. cmp (fst kv) k \<noteq> 0) kvs"

text \<open>\<open>Seek\<close>: the iteration from the first key at or past the target.\<close>

definition ldb_Seek :: "(bytes \<Rightarrow> bytes \<Rightarrow> int) \<Rightarrow> bytes \<Rightarrow> (bytes \<times> bytes) list
    \<Rightarrow> (bytes \<times> bytes) list" where
  "ldb_Seek cmp k kvs = dropWhile (\<lambda>kv. cmp (fst kv) k < 0) kvs"

locale ldb_engine =
  fixes L :: "'db leveldb"
    and cmp :: "bytes \<Rightarrow> bytes \<Rightarrow> int"
  assumes put_iter: "ldb_Put L db k v = (True, db') \<Longrightarrow> ldb_Iter L db' = ldb_ins cmp k v (ldb_Iter L db)"
    and put_iter_ok: "ldb_Put L db k v = (True, db') \<Longrightarrow> ldb_IterOk L db \<Longrightarrow> ldb_IterOk L db'"
    and delete_iter: "ldb_Delete L db k = (True, db') \<Longrightarrow> ldb_Iter L db' = ldb_del cmp k (ldb_Iter L db)"

text \<open>
  The log as the server keeps it in the database: value \<open>i\<close> under the decimal key of
  \<open>i\<close>. Under \<open>IndexComparator\<close>, appending the next index lands at the end of the
  iteration, although \<open>10\<close> sorts before \<open>9\<close> as a string.
\<close>

definition indexed :: "bytes list \<Rightarrow> (bytes \<times> bytes) list" where
  "indexed vs = map (\<lambda>i. (to_string i, vs ! i)) [0..<length vs]"

lemma indexed_Nil [simp]: "indexed [] = []"
  by (simp add: indexed_def)

lemma length_indexed [simp]: "length (indexed vs) = length vs"
  by (simp add: indexed_def)

lemma indexed_snoc: "indexed (vs @ [v]) = indexed vs @ [(to_string (length vs), v)]"
  by (auto simp: indexed_def nth_append)

lemma map_snd_indexed [simp]: "map snd (indexed vs) = vs"
  by (simp add: indexed_def comp_def map_nth)

lemma ldb_ins_last:
  "(\<And>k' v'. (k', v') \<in> set kvs \<Longrightarrow> cmp k k' > 0) \<Longrightarrow> ldb_ins cmp k v kvs = kvs @ [(k, v)]"
proof (induction kvs)
  case (Cons kv kvs)
  obtain k' v' where kv: "kv = (k', v')" by (cases kv)
  have "cmp k k' > 0" by (rule Cons.prems [of k' v']) (simp add: kv)
  moreover have "ldb_ins cmp k v kvs = kvs @ [(k, v)]"
    using Cons.prems by (intro Cons.IH) (meson list.set_intros(2))
  ultimately show ?case by (simp add: kv)
qed simp

lemma ldb_ins_indexed:
  assumes "length vs < 2 ^ 31"
  shows "ldb_ins IndexComparator_Compare (to_string (length vs)) v (indexed vs) = indexed (vs @ [v])"
  unfolding indexed_snoc
proof (rule ldb_ins_last)
  fix k' v' assume "(k', v') \<in> set (indexed vs)"
  then obtain i where "i < length vs" "k' = to_string i" by (auto simp: indexed_def)
  with assms show "IndexComparator_Compare (to_string (length vs)) k' > 0"
    by (simp add: Compare_to_string)
qed

section \<open>An instance\<close>

text \<open>
  A database that never fails, as its element list: the documented map itself. It shows
  that the laws of \<open>ldb_engine\<close> can hold, for any comparator.
\<close>

definition list_db :: "(bytes \<Rightarrow> bytes \<Rightarrow> int) \<Rightarrow> (bytes \<times> bytes) list leveldb" where
  "list_db cmp = \<lparr>
     ldb_Put = (\<lambda>db k v. (True, ldb_ins cmp k v db)),
     ldb_Delete = (\<lambda>db k. (True, ldb_del cmp k db)),
     ldb_Iter = (\<lambda>db. db),
     ldb_IterOk = (\<lambda>db. True)\<rparr>"

interpretation idx: ldb_engine "list_db IndexComparator_Compare" IndexComparator_Compare
  by unfold_locales (auto simp: list_db_def)

end
