(* ===== verification/Event_Channel.thy ===== *)
theory Event_Channel
  imports Raft_Prelude
begin

text \<open>
  \<open>eventloop/Channel\<close> and the registration half of \<open>eventloop/EPoller\<close>: a channel
  is the mask of events one file descriptor listens for, and a three-valued status that
  decides whether a change is an \<open>epoll_ctl\<close> ADD, MOD or DEL.

  System calls are recorded in the order in which the program makes them (\<open>effect\<close>).
  The specification is the kernel's side of the contract, for one descriptor: ADD needs an
  unregistered descriptor, MOD and DEL a registered one. The theorems say that whatever
  sequence of enabling and disabling calls is made on a channel, none of its
  \<open>epoll_ctl\<close> calls fails, and the kernel's interest is the one the masks ask for.
\<close>

unbundle bit_operations_syntax

section \<open>System calls\<close>

datatype ctl_op = EPOLL_CTL_ADD | EPOLL_CTL_MOD | EPOLL_CTL_DEL

record itimerspec =
  it_interval_sec :: u64
  it_value_sec :: u64

datatype effect =
    EpollCtl ctl_op int u32           \<comment> \<open>operation, descriptor, event mask\<close>
  | SendCall int bytes int            \<comment> \<open>descriptor, the bytes offered, the result of \<open>send\<close>\<close>
  | CloseCall int
  | ConnectCall int
  | SetTimeCall int itimerspec        \<comment> \<open>\<open>timerfd_settime\<close>\<close>
  | ReadTimerCall int                 \<comment> \<open>\<open>read\<close> of a timer descriptor\<close>

section \<open>Channels\<close>

text \<open>The member functions that are bound as callbacks, and the objects they belong to.\<close>

datatype callback =
    Bind_RecvCallback | Bind_SendCallback | Bind_CloseCallback | Bind_AcceptedCallback
  | Bind_SendAppendEntriesCallback | Bind_HeartBeatTimeoutCallback | Bind_ApplyLogCallback
  | Bind_TcpAcceptCallback
  | Bind_RedisReadCallback | Bind_RedisWriteCallback
  | Bind_ClientTimeoutCallback | Bind_ServerTimeoutCallback

datatype tied_object = Tied_Conn nat | Tied_Timer int

record Channel =
  ch_stReadCallback :: "callback option"
  ch_stWriteCallback :: "callback option"
  ch_stCloseCallback :: "callback option"
  ch_stErrorCallback :: "callback option"
  ch_iFd :: int
  ch_iStatus :: int
  ch_iEvents :: u32
  ch_iRevents :: u32
  ch_pstOwnerEventLoop :: bool       \<comment> \<open>whether the pointer is set; there is one event loop\<close>
  ch_pstConn :: "tied_object option"
  ch_bIsServerChannel :: bool

definition EPOLLIN :: u32 where "EPOLLIN = 1"
definition EPOLLPRI :: u32 where "EPOLLPRI = 2"
definition EPOLLOUT :: u32 where "EPOLLOUT = 4"
definition EPOLLERR :: u32 where "EPOLLERR = 8"
definition EPOLLHUP :: u32 where "EPOLLHUP = 16"

definition s_iNoneEvent :: u32 where "s_iNoneEvent = 0"
definition s_iReadEvent :: u32 where "s_iReadEvent = EPOLLIN OR EPOLLPRI"
definition s_iWriteEvent :: u32 where "s_iWriteEvent = EPOLLOUT"

definition iIsNew :: int where "iIsNew = - 1"
definition iIsAdded :: int where "iIsAdded = 1"
definition iIsDeleted :: int where "iIsDeleted = 2"

lemmas event_masks =
  EPOLLIN_def EPOLLPRI_def EPOLLOUT_def EPOLLERR_def EPOLLHUP_def
  s_iNoneEvent_def s_iReadEvent_def s_iWriteEvent_def

lemmas channel_states = iIsNew_def iIsAdded_def iIsDeleted_def

definition Channel_new :: "int \<Rightarrow> bool \<Rightarrow> bool \<Rightarrow> Channel" where
  "Channel_new fd pstOwnerEventLoop bIsServerChannel = \<lparr>
     ch_stReadCallback = None, ch_stWriteCallback = None,
     ch_stCloseCallback = None, ch_stErrorCallback = None,
     ch_iFd = fd, ch_iStatus = - 1, ch_iEvents = 0, ch_iRevents = 0,
     ch_pstOwnerEventLoop = pstOwnerEventLoop, ch_pstConn = None,
     ch_bIsServerChannel = bIsServerChannel\<rparr>"

definition Channel_Tie :: "tied_object \<Rightarrow> Channel \<Rightarrow> Channel" where
  "Channel_Tie obj ch = ch\<lparr>ch_pstConn := Some obj\<rparr>"

definition Channel_IsInit :: "Channel \<Rightarrow> bool" where
  "Channel_IsInit ch \<longleftrightarrow> ch_iFd ch \<noteq> - 1 \<and> ch_pstOwnerEventLoop ch"

definition Channel_IsNoneEvent :: "Channel \<Rightarrow> bool" where
  "Channel_IsNoneEvent ch \<longleftrightarrow> ch_iEvents ch = s_iNoneEvent"

section \<open>Registration\<close>

definition EPoller_UpdateToEpoll :: "ctl_op \<Rightarrow> Channel \<Rightarrow> effect list" where
  "EPoller_UpdateToEpoll iOP ch = [EpollCtl iOP (ch_iFd ch) (ch_iEvents ch)]"

definition EPoller_UpdateChannel :: "Channel \<Rightarrow> Channel \<times> effect list" where
  "EPoller_UpdateChannel ch =
     (let iStatus = ch_iStatus ch in
      if iStatus = iIsNew \<or> iStatus = iIsDeleted then
        (let ch = ch\<lparr>ch_iStatus := iIsAdded\<rparr> in (ch, EPoller_UpdateToEpoll EPOLL_CTL_ADD ch))
      else if Channel_IsNoneEvent ch then
        (let eff = EPoller_UpdateToEpoll EPOLL_CTL_DEL ch in (ch\<lparr>ch_iStatus := iIsDeleted\<rparr>, eff))
      else (ch, EPoller_UpdateToEpoll EPOLL_CTL_MOD ch))"

definition EventLoop_UpdateChannel :: "Channel \<Rightarrow> Channel \<times> effect list" where
  "EventLoop_UpdateChannel ch = EPoller_UpdateChannel ch"

definition Channel_UpdateToEventLoop :: "Channel \<Rightarrow> Channel \<times> effect list" where
  "Channel_UpdateToEventLoop ch =
     (if ch_pstOwnerEventLoop ch then EventLoop_UpdateChannel ch else (ch, []))"

definition Channel_EnableRead :: "Channel \<Rightarrow> Channel \<times> effect list" where
  "Channel_EnableRead ch =
     Channel_UpdateToEventLoop (ch\<lparr>ch_iEvents := ch_iEvents ch OR s_iReadEvent\<rparr>)"

definition Channel_EnableWrite :: "Channel \<Rightarrow> Channel \<times> effect list" where
  "Channel_EnableWrite ch =
     Channel_UpdateToEventLoop (ch\<lparr>ch_iEvents := ch_iEvents ch OR s_iWriteEvent\<rparr>)"

definition Channel_DisableWrite :: "Channel \<Rightarrow> Channel \<times> effect list" where
  "Channel_DisableWrite ch =
     Channel_UpdateToEventLoop (ch\<lparr>ch_iEvents := ch_iEvents ch AND NOT s_iWriteEvent\<rparr>)"

definition Channel_DisableRead :: "Channel \<Rightarrow> Channel \<times> effect list" where
  "Channel_DisableRead ch =
     Channel_UpdateToEventLoop (ch\<lparr>ch_iEvents := ch_iEvents ch AND NOT s_iReadEvent\<rparr>)"

definition Channel_DisableAll :: "Channel \<Rightarrow> Channel \<times> effect list" where
  "Channel_DisableAll ch = Channel_UpdateToEventLoop (ch\<lparr>ch_iEvents := s_iNoneEvent\<rparr>)"

lemmas channel_op_defs = Channel_EnableRead_def Channel_EnableWrite_def Channel_DisableWrite_def
  Channel_DisableRead_def Channel_DisableAll_def Channel_UpdateToEventLoop_def
  EventLoop_UpdateChannel_def

section \<open>The kernel's side\<close>

text \<open>
  The interest of the kernel in one descriptor (its mask, if it is registered) after one
  \<open>epoll_ctl\<close>; \<open>None\<close> when the call fails with \<open>EEXIST\<close> or \<open>ENOENT\<close>.
\<close>

fun ctl_step :: "effect \<Rightarrow> u32 option \<Rightarrow> u32 option option" where
  "ctl_step (EpollCtl EPOLL_CTL_ADD fd ev) k = (if k = None then Some (Some ev) else None)"
| "ctl_step (EpollCtl EPOLL_CTL_MOD fd ev) k = (if k = None then None else Some (Some ev))"
| "ctl_step (EpollCtl EPOLL_CTL_DEL fd ev) k = (if k = None then None else Some None)"
| "ctl_step _ k = Some k"

fun ctl_run :: "effect list \<Rightarrow> u32 option \<Rightarrow> u32 option option" where
  "ctl_run [] k = Some k"
| "ctl_run (e # es) k = Option.bind (ctl_step e k) (ctl_run es)"

lemma ctl_run_append: "ctl_run (xs @ ys) k = Option.bind (ctl_run xs k) (ctl_run ys)"
  by (induction xs arbitrary: k) (auto simp: bind_eq_Some_conv split: Option.bind_splits)

text \<open>
  What the kernel is to know of a descriptor, without the channel's status: a new mask is
  registered when the descriptor is not, an empty mask takes a registered descriptor out,
  and any other mask replaces the registered one.
\<close>

definition interest_step :: "u32 \<Rightarrow> u32 option \<Rightarrow> u32 option" where
  "interest_step m k = (if k = None then Some m else if m = 0 then None else Some m)"

text \<open>
  A channel agrees with the kernel: it is \<open>iIsAdded\<close> iff the descriptor is registered,
  the registered mask is the channel's, and a channel with events to wait for is registered.
\<close>

definition synced :: "Channel \<Rightarrow> u32 option \<Rightarrow> bool" where
  "synced ch k \<longleftrightarrow>
     (if ch_iStatus ch = iIsAdded then k = Some (ch_iEvents ch)
      else k = None \<and> ch_iEvents ch = 0
        \<and> (ch_iStatus ch = iIsNew \<or> ch_iStatus ch = iIsDeleted))"

lemma UpdateChannel_synced:
  assumes "synced ch k"
  shows "ctl_run (snd (EPoller_UpdateChannel (ch\<lparr>ch_iEvents := m\<rparr>))) k = Some (interest_step m k)
    \<and> synced (fst (EPoller_UpdateChannel (ch\<lparr>ch_iEvents := m\<rparr>))) (interest_step m k)"
  using assms
  by (auto simp: EPoller_UpdateChannel_def EPoller_UpdateToEpoll_def synced_def channel_states
      interest_step_def Channel_IsNoneEvent_def s_iNoneEvent_def Let_def split: if_splits)

text \<open>
  What the clients of a channel (connections, timers, the listening socket) rely on: each
  call changes the mask in a known way, changes nothing else that they set up, and keeps
  the kernel and the channel in agreement.
\<close>

locale channel_op =
  fixes call :: "Channel \<Rightarrow> Channel \<times> effect list"
    and chg :: "u32 \<Rightarrow> u32"
  assumes call_events: "ch_iEvents (fst (call ch)) = chg (ch_iEvents ch)"
    and call_keeps: "\<exists>st. fst (call ch) = ch\<lparr>ch_iEvents := chg (ch_iEvents ch), ch_iStatus := st\<rparr>"
    and call_only_ctl: "e \<in> set (snd (call ch)) \<Longrightarrow> \<exists>iOP ev. e = EpollCtl iOP (ch_iFd ch) ev"
    and call_synced: "ch_pstOwnerEventLoop ch \<Longrightarrow> synced ch k \<Longrightarrow>
      ctl_run (snd (call ch)) k = Some (interest_step (chg (ch_iEvents ch)) k)
        \<and> synced (fst (call ch)) (interest_step (chg (ch_iEvents ch)) k)"
begin

lemma call_frame [simp]:
  "ch_stReadCallback (fst (call ch)) = ch_stReadCallback ch"
  "ch_stWriteCallback (fst (call ch)) = ch_stWriteCallback ch"
  "ch_stCloseCallback (fst (call ch)) = ch_stCloseCallback ch"
  "ch_stErrorCallback (fst (call ch)) = ch_stErrorCallback ch"
  "ch_iFd (fst (call ch)) = ch_iFd ch"
  "ch_iRevents (fst (call ch)) = ch_iRevents ch"
  "ch_pstOwnerEventLoop (fst (call ch)) = ch_pstOwnerEventLoop ch"
  "ch_pstConn (fst (call ch)) = ch_pstConn ch"
  "ch_bIsServerChannel (fst (call ch)) = ch_bIsServerChannel ch"
proof -
  obtain st where "fst (call ch) = ch\<lparr>ch_iEvents := chg (ch_iEvents ch), ch_iStatus := st\<rparr>"
    using call_keeps by blast
  note st = this
  show "ch_stReadCallback (fst (call ch)) = ch_stReadCallback ch"
    "ch_stWriteCallback (fst (call ch)) = ch_stWriteCallback ch"
    "ch_stCloseCallback (fst (call ch)) = ch_stCloseCallback ch"
    "ch_stErrorCallback (fst (call ch)) = ch_stErrorCallback ch"
    "ch_iFd (fst (call ch)) = ch_iFd ch"
    "ch_iRevents (fst (call ch)) = ch_iRevents ch"
    "ch_pstOwnerEventLoop (fst (call ch)) = ch_pstOwnerEventLoop ch"
    "ch_pstConn (fst (call ch)) = ch_pstConn ch"
    "ch_bIsServerChannel (fst (call ch)) = ch_bIsServerChannel ch"
    by (simp_all add: st)
qed

end

lemma UpdateToEventLoop_keeps:
  "\<exists>st. fst (Channel_UpdateToEventLoop ch) = ch\<lparr>ch_iStatus := st\<rparr>"
  by (auto simp: Channel_UpdateToEventLoop_def EventLoop_UpdateChannel_def
      EPoller_UpdateChannel_def Let_def intro: exI [of _ "ch_iStatus ch"])

lemma UpdateToEventLoop_only_ctl:
  "e \<in> set (snd (Channel_UpdateToEventLoop ch)) \<Longrightarrow> \<exists>iOP ev. e = EpollCtl iOP (ch_iFd ch) ev"
  by (auto simp: Channel_UpdateToEventLoop_def EventLoop_UpdateChannel_def
      EPoller_UpdateChannel_def EPoller_UpdateToEpoll_def Let_def split: if_splits)

text \<open>Every call that sets a mask and updates the event loop is such an operation.\<close>

lemma mask_update_channel_op:
  "channel_op (\<lambda>ch. Channel_UpdateToEventLoop (ch\<lparr>ch_iEvents := chg (ch_iEvents ch)\<rparr>)) chg"
proof
  fix ch :: Channel and e k
  let ?ch = "ch\<lparr>ch_iEvents := chg (ch_iEvents ch)\<rparr>"
  obtain st where st: "fst (Channel_UpdateToEventLoop ?ch) = ?ch\<lparr>ch_iStatus := st\<rparr>"
    using UpdateToEventLoop_keeps by blast
  then show "ch_iEvents (fst (Channel_UpdateToEventLoop ?ch)) = chg (ch_iEvents ch)" by simp
  from st show "\<exists>st. fst (Channel_UpdateToEventLoop ?ch) =
      ch\<lparr>ch_iEvents := chg (ch_iEvents ch), ch_iStatus := st\<rparr>" by auto
  show "e \<in> set (snd (Channel_UpdateToEventLoop ?ch)) \<Longrightarrow> \<exists>iOP ev. e = EpollCtl iOP (ch_iFd ch) ev"
    using UpdateToEventLoop_only_ctl [of e ?ch] by simp
  show "ch_pstOwnerEventLoop ch \<Longrightarrow> synced ch k \<Longrightarrow>
      ctl_run (snd (Channel_UpdateToEventLoop ?ch)) k = Some (interest_step (chg (ch_iEvents ch)) k)
        \<and> synced (fst (Channel_UpdateToEventLoop ?ch)) (interest_step (chg (ch_iEvents ch)) k)"
    using UpdateChannel_synced [of ch k "chg (ch_iEvents ch)"]
    by (simp add: Channel_UpdateToEventLoop_def EventLoop_UpdateChannel_def)
qed

interpretation er: channel_op Channel_EnableRead "\<lambda>m. m OR s_iReadEvent"
  unfolding Channel_EnableRead_def [abs_def] by (rule mask_update_channel_op)

interpretation ew: channel_op Channel_EnableWrite "\<lambda>m. m OR s_iWriteEvent"
  unfolding Channel_EnableWrite_def [abs_def] by (rule mask_update_channel_op)

interpretation dw: channel_op Channel_DisableWrite "\<lambda>m. m AND NOT s_iWriteEvent"
  unfolding Channel_DisableWrite_def [abs_def] by (rule mask_update_channel_op)

interpretation dr: channel_op Channel_DisableRead "\<lambda>m. m AND NOT s_iReadEvent"
  unfolding Channel_DisableRead_def [abs_def] by (rule mask_update_channel_op)

interpretation da: channel_op Channel_DisableAll "\<lambda>m. s_iNoneEvent"
  unfolding Channel_DisableAll_def [abs_def] by (rule mask_update_channel_op)

section \<open>Sequences of calls\<close>

datatype chan_op = CallEnableRead | CallEnableWrite | CallDisableRead | CallDisableWrite
  | CallDisableAll

fun chan_call :: "chan_op \<Rightarrow> Channel \<Rightarrow> Channel \<times> effect list" where
  "chan_call CallEnableRead ch = Channel_EnableRead ch"
| "chan_call CallEnableWrite ch = Channel_EnableWrite ch"
| "chan_call CallDisableRead ch = Channel_DisableRead ch"
| "chan_call CallDisableWrite ch = Channel_DisableWrite ch"
| "chan_call CallDisableAll ch = Channel_DisableAll ch"

fun chan_calls :: "chan_op list \<Rightarrow> Channel \<Rightarrow> Channel \<times> effect list" where
  "chan_calls [] ch = (ch, [])"
| "chan_calls (c # cs) ch =
     (let (ch, eff) = chan_call c ch; (ch, effs) = chan_calls cs ch in (ch, eff @ effs))"

text \<open>
  The specification of a sequence: the mask each call asks for, and the kernel's interest
  that follows from these masks alone.
\<close>

fun op_mask :: "chan_op \<Rightarrow> u32 \<Rightarrow> u32" where
  "op_mask CallEnableRead m = m OR (EPOLLIN OR EPOLLPRI)"
| "op_mask CallEnableWrite m = m OR EPOLLOUT"
| "op_mask CallDisableRead m = m AND NOT (EPOLLIN OR EPOLLPRI)"
| "op_mask CallDisableWrite m = m AND NOT EPOLLOUT"
| "op_mask CallDisableAll m = 0"

fun interest :: "chan_op list \<Rightarrow> u32 \<Rightarrow> u32 option \<Rightarrow> u32 \<times> u32 option" where
  "interest [] m k = (m, k)"
| "interest (c # cs) m k = interest cs (op_mask c m) (interest_step (op_mask c m) k)"

lemmas chan_calls_events = er.call_events ew.call_events dr.call_events dw.call_events
  da.call_events

lemma chan_call_events: "ch_iEvents (fst (chan_call c ch)) = op_mask c (ch_iEvents ch)"
  by (cases c) (simp_all add: chan_calls_events s_iReadEvent_def s_iWriteEvent_def s_iNoneEvent_def)

lemma chan_call_frame:
  "ch_pstOwnerEventLoop (fst (chan_call c ch)) = ch_pstOwnerEventLoop ch"
  "ch_iFd (fst (chan_call c ch)) = ch_iFd ch"
  by (cases c; simp)+

lemma chan_call_synced:
  assumes "ch_pstOwnerEventLoop ch" and "synced ch k"
  shows "ctl_run (snd (chan_call c ch)) k = Some (interest_step (op_mask c (ch_iEvents ch)) k)
    \<and> synced (fst (chan_call c ch)) (interest_step (op_mask c (ch_iEvents ch)) k)"
  using er.call_synced [OF assms] ew.call_synced [OF assms] dr.call_synced [OF assms]
    dw.call_synced [OF assms] da.call_synced [OF assms]
  by (cases c) (simp_all add: s_iReadEvent_def s_iWriteEvent_def s_iNoneEvent_def)

lemma chan_calls_synced:
  assumes "ch_pstOwnerEventLoop ch" and "synced ch k"
  shows "ctl_run (snd (chan_calls cs ch)) k = Some (snd (interest cs (ch_iEvents ch) k))
    \<and> synced (fst (chan_calls cs ch)) (snd (interest cs (ch_iEvents ch) k))
    \<and> ch_iEvents (fst (chan_calls cs ch)) = fst (interest cs (ch_iEvents ch) k)"
  using assms
proof (induction cs arbitrary: ch k)
  case (Cons c cs)
  obtain ch1 e1 where c: "chan_call c ch = (ch1, e1)" by fastforce
  obtain ch2 e2 where cs: "chan_calls cs ch1 = (ch2, e2)" by fastforce
  let ?m = "op_mask c (ch_iEvents ch)"
  have step: "ctl_run e1 k = Some (interest_step ?m k)" "synced ch1 (interest_step ?m k)"
    "ch_pstOwnerEventLoop ch1" "ch_iEvents ch1 = ?m"
    using chan_call_synced [OF Cons.prems, of c] chan_call_frame [of c ch] Cons.prems(1)
      chan_call_events [of c ch] by (simp_all add: c)
  show ?case
    using Cons.IH [OF step(3,2)] by (simp add: c cs ctl_run_append step)
qed simp

lemma chan_call_only_ctl:
  "list_all (\<lambda>e. \<exists>iOP ev. e = EpollCtl iOP (ch_iFd ch) ev) (snd (chan_call c ch))"
  using er.call_only_ctl ew.call_only_ctl dr.call_only_ctl dw.call_only_ctl da.call_only_ctl
  by (cases c) (force simp: list_all_iff)+

lemma chan_calls_only_ctl:
  "list_all (\<lambda>e. \<exists>iOP ev. e = EpollCtl iOP (ch_iFd ch) ev) (snd (chan_calls cs ch))"
proof (induction cs arbitrary: ch)
  case (Cons c cs)
  obtain ch1 e1 where c: "chan_call c ch = (ch1, e1)" by fastforce
  obtain ch2 e2 where cs: "chan_calls cs ch1 = (ch2, e2)" by fastforce
  show ?case
    using chan_call_only_ctl [of ch c] Cons.IH [of ch1] chan_call_frame(2) [of c ch]
    by (simp add: c cs)
qed simp

text \<open>
  C31. From a fresh channel of the event loop, any sequence of enabling and disabling calls
  makes only \<open>epoll_ctl\<close> calls on the channel's descriptor, and all of them succeed. The
  kernel's interest afterwards is the one the sequence of masks asks for (\<open>interest\<close>): a
  nonempty mask is registered as it is; an empty one is either not registered or registered
  as empty (a second \<open>DisableAll\<close> registers it again). The channel's status says which.
\<close>

theorem channel_epoll_agree:
  "let (ch, effs) = chan_calls cs (Channel_new fd True srv); (m, k) = interest cs 0 None in
     list_all (\<lambda>e. \<exists>iOP ev. e = EpollCtl iOP fd ev) effs
   \<and> ctl_run effs None = Some k
   \<and> ch_iEvents ch = m
   \<and> (ch_iStatus ch = iIsAdded \<longleftrightarrow> k \<noteq> None)
   \<and> (if m = 0 then k = None \<or> k = Some 0 else k = Some m)"
proof -
  let ?c = "Channel_new fd True srv"
  have init: "ch_pstOwnerEventLoop ?c" "synced ?c None" "ch_iEvents ?c = 0" "ch_iFd ?c = fd"
    by (simp_all add: Channel_new_def synced_def channel_states)
  show ?thesis
    using chan_calls_synced [OF init(1,2), of cs] chan_calls_only_ctl [of ?c cs]
    by (auto simp: init(3,4) synced_def Let_def split: prod.splits if_splits)
qed

text \<open>
  \<open>DisableAll\<close> is not idempotent: on a channel that is already deleted the status
  test comes first, so a second \<open>DisableAll\<close> registers the descriptor again, with an empty
  mask (for which the kernel still reports hang-ups and errors).
\<close>

lemma DisableAll_twice_registers:
  assumes "ch_pstOwnerEventLoop ch" and "ch_iStatus ch = iIsAdded"
  shows "let (ch1, eff1) = Channel_DisableAll ch; (ch2, eff2) = Channel_DisableAll ch1 in
    eff1 = [EpollCtl EPOLL_CTL_DEL (ch_iFd ch) 0] \<and> eff2 = [EpollCtl EPOLL_CTL_ADD (ch_iFd ch) 0]
    \<and> ch_iStatus ch1 = iIsDeleted \<and> ch_iStatus ch2 = iIsAdded"
  using assms
  by (simp add: channel_op_defs EPoller_UpdateChannel_def EPoller_UpdateToEpoll_def
      Channel_IsNoneEvent_def event_masks channel_states Let_def)

end
