(* ===== verification/Easy_Timer.thy ===== *)
theory Easy_Timer
  imports Event_Channel
begin

text \<open>
  \<open>easytimer/Timer\<close>: a timer descriptor with its channel. The constructor arms it and
  binds the callback of its type; \<open>FreshTime\<close> starts it again. The results of
  \<open>timerfd_create\<close> (the descriptor) and \<open>timerfd_settime\<close> are arguments. The
  callbacks themselves act on the server and are with the event loop.
\<close>

record Timer =
  t_bIsRun :: bool
  t_bIsInit :: bool
  t_iFd :: int
  t_pstChannel :: Channel
  t_pstTimerSpec :: itimerspec

definition FollowerHeartbeatTimer :: int where "FollowerHeartbeatTimer = 0"
definition FollowerApplyLogTimer :: int where "FollowerApplyLogTimer = 1"
definition LeaderHeartbeatTimer :: int where "LeaderHeartbeatTimer = 2"

lemmas timer_types = FollowerHeartbeatTimer_def FollowerApplyLogTimer_def LeaderHeartbeatTimer_def

text \<open>The body the three branches of the constructor share.\<close>

definition Timer_arm :: "bool \<Rightarrow> u64 \<Rightarrow> u64 \<Rightarrow> callback \<Rightarrow> Timer \<Rightarrow> Timer \<times> effect list" where
  "Timer_arm settime_ok val interval cb t =
     (let t = t\<lparr>t_pstTimerSpec := \<lparr>it_interval_sec = interval, it_value_sec = val\<rparr>\<rparr>;
          eff = [SetTimeCall (t_iFd t) (t_pstTimerSpec t)] in
      if \<not> settime_ok then (t, eff)
      else
        (let ch = (t_pstChannel t)\<lparr>ch_stReadCallback := Some cb\<rparr>;
             (ch, eff1) = Channel_DisableWrite ch;
             (ch, eff2) = Channel_EnableRead ch
         in (t\<lparr>t_pstChannel := ch\<rparr>, eff @ eff1 @ eff2)))"

definition Timer_new :: "int \<Rightarrow> bool \<Rightarrow> u64 \<Rightarrow> int \<Rightarrow> Timer \<times> effect list" where
  "Timer_new iFd settime_ok ulExpireTime iTimerType =
     (let t = \<lparr>t_bIsRun = False, t_bIsInit = True, t_iFd = iFd,
               t_pstChannel = Channel_new iFd True False,
               t_pstTimerSpec = \<lparr>it_interval_sec = 0, it_value_sec = 0\<rparr>\<rparr> in
      if iFd = - 1 then (t\<lparr>t_bIsInit := False\<rparr>, [])
      else if iTimerType = LeaderHeartbeatTimer then
        Timer_arm settime_ok ulExpireTime ulExpireTime Bind_SendAppendEntriesCallback t
      else if iTimerType = FollowerHeartbeatTimer then
        Timer_arm settime_ok ulExpireTime 0 Bind_HeartBeatTimeoutCallback t
      else if iTimerType = FollowerApplyLogTimer then
        Timer_arm settime_ok ulExpireTime ulExpireTime Bind_ApplyLogCallback t
      else (t, []))"

definition Timer_destroy :: "Timer \<Rightarrow> effect list" where
  "Timer_destroy t =
     snd (Channel_DisableAll (t_pstChannel t)) @ (if t_iFd t > 0 then [CloseCall (t_iFd t)] else [])"

definition Timer_Init :: "int \<Rightarrow> Timer \<Rightarrow> Timer" where
  "Timer_Init key t =
     (if Channel_IsInit (t_pstChannel t)
      then t\<lparr>t_pstChannel := Channel_Tie (Tied_Timer key) (t_pstChannel t)\<rparr> else t)"

definition Timer_FreshTime :: "u64 \<Rightarrow> Timer \<Rightarrow> effect list" where
  "Timer_FreshTime ulExpireTime t = [SetTimeCall (t_iFd t) (t_pstTimerSpec t)]"

lemma Timer_new_armed:
  assumes "iFd \<noteq> - 1"
    and "iTimerType \<in> {LeaderHeartbeatTimer, FollowerHeartbeatTimer, FollowerApplyLogTimer}"
  shows "Timer_new iFd True e iTimerType =
    (\<lparr>t_bIsRun = False, t_bIsInit = True, t_iFd = iFd,
      t_pstChannel = (Channel_new iFd True False)\<lparr>
        ch_stReadCallback := Some (if iTimerType = LeaderHeartbeatTimer
          then Bind_SendAppendEntriesCallback
          else if iTimerType = FollowerHeartbeatTimer then Bind_HeartBeatTimeoutCallback
          else Bind_ApplyLogCallback),
        ch_iStatus := iIsAdded, ch_iEvents := s_iReadEvent\<rparr>,
      t_pstTimerSpec = \<lparr>it_interval_sec = (if iTimerType = FollowerHeartbeatTimer then 0 else e),
        it_value_sec = e\<rparr>\<rparr>,
     [SetTimeCall iFd \<lparr>it_interval_sec = (if iTimerType = FollowerHeartbeatTimer then 0 else e),
        it_value_sec = e\<rparr>,
      EpollCtl EPOLL_CTL_ADD iFd 0, EpollCtl EPOLL_CTL_MOD iFd s_iReadEvent])"
  using assms
  by (auto simp: Timer_new_def Timer_arm_def timer_types Channel_new_def channel_op_defs
      EPoller_UpdateChannel_def EPoller_UpdateToEpoll_def Channel_IsNoneEvent_def event_masks
      channel_states Let_def)

text \<open>
  Refreshing a timer starts it again with the period it was constructed with: the
  argument of \<open>Timer::FreshTime\<close> is ignored, so the 10 and 20 seconds that
  \<open>RaftServer::FreshTime\<close> passes have no effect. A follower's heartbeat timer is
  re-armed for a single expiry after the constructor's time.
\<close>

lemma FreshTime_ignores_argument:
  assumes "iFd \<noteq> - 1"
    and "iTimerType \<in> {LeaderHeartbeatTimer, FollowerHeartbeatTimer, FollowerApplyLogTimer}"
  shows "Timer_FreshTime ul (fst (Timer_new iFd True e iTimerType)) =
    [SetTimeCall iFd \<lparr>it_interval_sec = (if iTimerType = FollowerHeartbeatTimer then 0 else e),
       it_value_sec = e\<rparr>]"
  by (simp add: Timer_new_armed [OF assms] Timer_FreshTime_def)

end
