(* ===== verification/Raft_Server.thy ===== *)
theory Raft_Server
  imports Api_Codec Wire_Leb Std_Map Leveldb_Store Easy_Timer "HOL-Library.Sublist"
begin

text \<open>
  \<open>nanoraft/RaftServer\<close>, \<open>nanoraft/RaftProxy\<close> and \<open>nanoraft/RaftLogEntry\<close>: the
  state of the server and every operation of it that touches only this state, the two
  databases and the timers. The operations that also act on connections (broadcasts,
  accepting, becoming leader) are with the connections.

  The parameters of the whole program are collected in \<open>env\<close>: the protobuf runtime, the
  database engine, the results of \<open>send\<close>, and what lies in memory behind two blocks that
  the program reads beyond their end.
\<close>

section \<open>The environment\<close>

record 'db env =
  e_wire :: wire
  e_state_db :: "'db leveldb"
  e_entries_db :: "'db leveldb"
  e_after :: "nat \<Rightarrow> bytes"
    \<comment> \<open>the memory behind the \<open>n\<close>-th buffer that \<open>AppendCfgLog\<close> allocates\<close>
  e_value_after :: "nat \<Rightarrow> bytes"
    \<comment> \<open>the memory behind the \<open>n\<close>-th value that \<open>LoadEntries\<close> visits\<close>
  e_send :: "nat \<Rightarrow> int \<Rightarrow> bytes \<Rightarrow> int"
    \<comment> \<open>the result of \<open>send(fd, bytes)\<close>, made as the \<open>n\<close>-th system call\<close>
  e_memcpy_down :: bool
    \<comment> \<open>whether \<open>memcpy\<close>, on overlapping blocks undefined, happens to move one to a lower address correctly\<close>

section \<open>Data\<close>

datatype RaftProxyRole = Role_None | Candidate | Follower | Leader

datatype RaftProxyState = IsVoting | SufficientLog | InActive

datatype RaftLogEntryType = Normal | AddNode | RemoveNode

record RaftLogEntry =
  le_dwTerm :: u32
  le_dwIndex :: u32
  le_stType :: RaftLogEntryType
  le_dwWriteIt :: u32

definition RaftLogEntry_new :: "u32 \<Rightarrow> u32 \<Rightarrow> u32 \<Rightarrow> RaftLogEntry" where
  "RaftLogEntry_new dwIndex dwTerm dwWriteIt =
     \<lparr>le_dwTerm = dwTerm, le_dwIndex = dwIndex, le_stType = Normal, le_dwWriteIt = dwWriteIt\<rparr>"

record RaftProxy =
  p_stRole :: RaftProxyRole
  p_stState :: RaftProxyState
  p_dwID :: u32
  p_ulNextIndex :: u64
  p_ulMatchIndex :: u64
  p_iConnFd :: int
  p_pstConn :: "nat option"      \<comment> \<open>weak pointer to a connection object\<close>

text \<open>The constructor leaves \<open>m_dwID_\<close> alone; every caller sets it next.\<close>

definition RaftProxy_new :: "u32 \<Rightarrow> RaftProxy" where
  "RaftProxy_new dwID = \<lparr>p_stRole = Candidate, p_stState = IsVoting, p_dwID = dwID,
     p_ulNextIndex = 1, p_ulMatchIndex = 0, p_iConnFd = - 1, p_pstConn = None\<rparr>"

record 'db RaftServer =
  s_dwCurrentTerm :: u32
  s_dwVotedFor :: u32
  s_dwCommitIndex :: u32
  s_dwLastApplied :: u32
  s_stRole :: RaftProxyRole
  s_dwLogBase :: u64
  s_dwEntryBase :: u64
  s_pstLeader :: "u32 option"    \<comment> \<open>weak pointer to a proxy, by its key\<close>
  s_stProxys :: "(u32, RaftProxy option) omap"   \<comment> \<open>\<open>None\<close>: a null pointer\<close>
  s_stLogs :: "RaftLogEntry list"
  s_stEntries :: "entry list"
  s_stConns :: "(int, nat) omap"
  s_iServerFd :: int
  s_pstServerChannel :: Channel
  s_pstStateDB :: 'db
  s_pstEntriesDB :: 'db
  s_pstCfgLogIndex :: u32
  s_stTimers :: "(int, Timer option) omap"
  s_nAllocs :: nat               \<comment> \<open>how many buffers \<open>AppendCfgLog\<close> has allocated\<close>

text \<open>
  The constructor that \<open>main\<close> uses, given the descriptor of its listening socket and
  the results of the two \<open>DB::Open\<close> calls.
\<close>

definition RaftServer_new :: "int \<Rightarrow> 'db option \<Rightarrow> 'db option \<Rightarrow> 'db RaftServer res" where
  "RaftServer_new iFd pstStateDB pstEntriesDB =
     (case pstStateDB of None \<Rightarrow> Inl ExitFailure | Some sdb \<Rightarrow>
      case pstEntriesDB of None \<Rightarrow> Inl ExitFailure | Some edb \<Rightarrow>
      Inr \<lparr>s_dwCurrentTerm = 0, s_dwVotedFor = 0, s_dwCommitIndex = 0, s_dwLastApplied = 0,
        s_stRole = Follower, s_dwLogBase = 0, s_dwEntryBase = 0, s_pstLeader = None,
        s_stProxys = [], s_stLogs = [], s_stEntries = [], s_stConns = [],
        s_iServerFd = iFd, s_pstServerChannel = Channel_new iFd True True,
        s_pstStateDB = sdb, s_pstEntriesDB = edb, s_pstCfgLogIndex = 0, s_stTimers = [],
        s_nAllocs = 0\<rparr>)"

text \<open>
  The other constructor, which opens no database: both pointers stay null (\<open>None\<close>). The socket it listens on
  is the one of \<open>SocketWrapper(SSOCKET)\<close>.
\<close>

definition RaftServer_default :: "int \<Rightarrow> 'db option RaftServer" where
  "RaftServer_default iFd =
     \<lparr>s_dwCurrentTerm = 0, s_dwVotedFor = 0, s_dwCommitIndex = 0, s_dwLastApplied = 0,
      s_stRole = Follower, s_dwLogBase = 0, s_dwEntryBase = 0, s_pstLeader = None,
      s_stProxys = [], s_stLogs = [], s_stEntries = [], s_stConns = [],
      s_iServerFd = iFd, s_pstServerChannel = Channel_new iFd True True,
      s_pstStateDB = None, s_pstEntriesDB = None, s_pstCfgLogIndex = 0, s_stTimers = [],
      s_nAllocs = 0\<rparr>"

text \<open>The two constructors differ in the databases only.\<close>

lemma RaftServer_default_eq:
  "RaftServer_new iFd (Some (Some sdb)) (Some (Some edb)) =
     Inr ((RaftServer_default iFd)\<lparr>s_pstStateDB := Some sdb, s_pstEntriesDB := Some edb\<rparr>)"
  by (simp add: RaftServer_new_def RaftServer_default_def)

section \<open>Operations\<close>

text \<open>An operation with an empty body.\<close>

definition RaftServer_TcpSendAppendEntries :: "'db RaftServer \<Rightarrow> 'db RaftServer" where
  "RaftServer_TcpSendAppendEntries s = s"

text \<open>
  \<open>m_stProxys_[dwID]\<close> inserts a null pointer for an unknown node. The weak pointer is the
  key; \<open>proxy_lock\<close> is its \<open>lock()\<close> (proxies are never removed or replaced).
\<close>

definition RaftServer_GetProxyByID :: "u32 \<Rightarrow> 'db RaftServer \<Rightarrow> u32 \<times> 'db RaftServer" where
  "RaftServer_GetProxyByID dwID s =
     (dwID, s\<lparr>s_stProxys := snd (om_index None dwID (s_stProxys s))\<rparr>)"

definition proxy_lock :: "'db RaftServer \<Rightarrow> u32 option \<Rightarrow> RaftProxy option" where
  "proxy_lock s w = (case w of None \<Rightarrow> None | Some k \<Rightarrow>
     (case om_find k (s_stProxys s) of None \<Rightarrow> None | Some p \<Rightarrow> p))"

definition proxy_update :: "u32 \<Rightarrow> (RaftProxy \<Rightarrow> RaftProxy) \<Rightarrow> 'db RaftServer \<Rightarrow> 'db RaftServer" where
  "proxy_update k f s = (case om_find k (s_stProxys s) of
       Some (Some p) \<Rightarrow> s\<lparr>s_stProxys := om_assign k (Some (f p)) (s_stProxys s)\<rparr> | _ \<Rightarrow> s)"

definition RaftServer_ProxyConnFd :: "u32 \<Rightarrow> 'db RaftServer \<Rightarrow> int res" where
  "RaftServer_ProxyConnFd dwID s =
     (case om_find dwID (s_stProxys s) of
        None \<Rightarrow> Inr (- 1)
      | Some None \<Rightarrow> Inl NullDeref
      | Some (Some p) \<Rightarrow> Inr (p_iConnFd p))"

definition RaftServer_AddProxy :: "u32 \<Rightarrow> 'db RaftServer \<Rightarrow> 'db RaftServer res" where
  "RaftServer_AddProxy dwID s =
     (case om_find dwID (s_stProxys s) of
        Some None \<Rightarrow> Inl NullDeref
      | Some (Some p) \<Rightarrow>
          Inr (s\<lparr>s_stProxys := om_assign dwID (Some (p\<lparr>p_stState := IsVoting\<rparr>)) (s_stProxys s)\<rparr>)
      | None \<Rightarrow> Inr (s\<lparr>s_stProxys := om_assign dwID (Some (RaftProxy_new dwID)) (s_stProxys s)\<rparr>))"

definition RaftServer_ProxysNum :: "'db RaftServer \<Rightarrow> nat" where
  "RaftServer_ProxysNum s = length (s_stProxys s)"

definition RaftServer_LastLogIndex :: "'db RaftServer \<Rightarrow> u64" where
  "RaftServer_LastLogIndex s = of_nat (length (s_stLogs s)) + s_dwLogBase s"

definition RaftServer_LastEntryIndex :: "'db RaftServer \<Rightarrow> u64" where
  "RaftServer_LastEntryIndex s =
     (if s_stEntries s = [] then 0 else of_nat (length (s_stEntries s)) - 1)"

definition RaftServer_BecomeFollower :: "'db RaftServer \<Rightarrow> 'db RaftServer" where
  "RaftServer_BecomeFollower s = s\<lparr>s_stRole := Follower\<rparr>"

text \<open>The random election time that \<open>BecomeCandidate\<close> draws is only printed.\<close>

definition RaftServer_BecomeCandidate :: "'db RaftServer \<Rightarrow> 'db RaftServer" where
  "RaftServer_BecomeCandidate s = s\<lparr>s_dwCurrentTerm := s_dwCurrentTerm s + 1\<rparr>"

definition RaftServer_SetLeader :: "u32 \<Rightarrow> 'db RaftServer \<Rightarrow> 'db RaftServer" where
  "RaftServer_SetLeader k s = s\<lparr>s_pstLeader := Some k\<rparr>"

definition RaftServer_SetCommitIndex :: "u32 \<Rightarrow> 'db RaftServer \<Rightarrow> 'db RaftServer" where
  "RaftServer_SetCommitIndex dwIndex s = s\<lparr>s_dwCommitIndex := dwIndex\<rparr>"

definition RaftServer_OfflineConn :: "int \<Rightarrow> 'db RaftServer \<Rightarrow> 'db RaftServer res" where
  "RaftServer_OfflineConn iFd s =
     (case om_find iFd (s_stConns s) of
        None \<Rightarrow> Inl InvalidErase
      | Some _ \<Rightarrow> Inr (s\<lparr>s_stConns := om_erase iFd (s_stConns s)\<rparr>))"

definition RaftServer_SetAndPersistTerm :: "'db env \<Rightarrow> u32 \<Rightarrow> 'db RaftServer \<Rightarrow> 'db RaftServer res" where
  "RaftServer_SetAndPersistTerm E dwTerm s =
     (case ldb_Put (e_state_db E) (s_pstStateDB s) (str ''term'') (to_string (unat dwTerm)) of
        (ok, db) \<Rightarrow>
          if ok then Inr (s\<lparr>s_pstStateDB := db, s_dwCurrentTerm := dwTerm\<rparr>) else Inl ExitFailure)"

definition RaftServer_PreLogTerm :: "'db RaftServer \<Rightarrow> u32" where
  "RaftServer_PreLogTerm s = (if s_stLogs s = [] then 0 else le_dwTerm (last (s_stLogs s)))"

text \<open>
  The comparison adds 1 in 32 bits before it is widened to \<open>size_t\<close>; the result is the
  term as an \<open>int\<close>.
\<close>

definition RaftServer_LogTermByIndex :: "u32 \<Rightarrow> 'db RaftServer \<Rightarrow> int res" where
  "RaftServer_LogTermByIndex dwIndex s =
     (if length (s_stLogs s) < unat (dwIndex + 1) then Inr (- 1)
      else if unat dwIndex < length (s_stLogs s) then Inr (sint (le_dwTerm (s_stLogs s ! unat dwIndex)))
      else Inl OutOfRange)"

definition RaftServer_EntryTermByIndex :: "u32 \<Rightarrow> 'db RaftServer \<Rightarrow> int res" where
  "RaftServer_EntryTermByIndex dwIndex s =
     (if length (s_stEntries s) < unat (dwIndex + 1) then Inr (- 1)
      else if unat dwIndex < length (s_stEntries s) then Inr (sint (en_term (s_stEntries s ! unat dwIndex)))
      else Inl OutOfRange)"

text \<open>The iterator is a snapshot; the status of each \<open>Delete\<close> is not looked at.\<close>

definition RaftServer_DelLogsFromIndex :: "'db env \<Rightarrow> u32 \<Rightarrow> 'db RaftServer \<Rightarrow> 'db RaftServer" where
  "RaftServer_DelLogsFromIndex E dwIndex s =
     (if length (s_stLogs s) < unat (dwIndex + 1) then s
      else foldl (\<lambda>s kv. s\<lparr>s_pstEntriesDB := snd (ldb_Delete (e_entries_db E) (s_pstEntriesDB s) (fst kv)),
                          s_stLogs := butlast (s_stLogs s)\<rparr>)
             s (ldb_Seek IndexComparator_Compare (to_string (unat dwIndex))
                  (ldb_Iter (e_entries_db E) (s_pstEntriesDB s))))"

definition RaftServer_AppendLog :: "u32 \<Rightarrow> u32 \<Rightarrow> u32 \<Rightarrow> 'db RaftServer \<Rightarrow> 'db RaftServer" where
  "RaftServer_AppendLog dwIndex dwTerm dwWriteIt s =
     (if length (s_stLogs s) \<noteq> unat dwIndex then s
      else s\<lparr>s_stLogs := s_stLogs s @ [RaftLogEntry_new dwIndex dwTerm dwWriteIt]\<rparr>)"

text \<open>The entry that \<open>AppendCfgLog\<close> builds, and the heap block it serialises it into.\<close>

definition cfg_entry :: "u32 \<Rightarrow> bytes \<Rightarrow> int \<Rightarrow> int \<Rightarrow> entry" where
  "cfg_entry dwTerm strHost iRaftPort iNodeID = entry_SharedCtor\<lparr>en_type := CFGADD, en_term := dwTerm,
     en_nodeid := word_of_int iNodeID, en_port := word_of_int iRaftPort, en_host := strHost\<rparr>"

definition entry_block :: "wire \<Rightarrow> entry \<Rightarrow> bytes" where
  "entry_block W e = blit 0 (entry_InternalSerializeWithCachedSizesToArray W e)
     (replicate (entry_ByteSizeLong W e) 0)"

definition RaftServer_AppendCfgLog ::
  "'db env \<Rightarrow> bytes \<Rightarrow> int \<Rightarrow> int \<Rightarrow> 'db RaftServer \<Rightarrow> 'db RaftServer res" where
  "RaftServer_AppendCfgLog E strHost iRaftPort iNodeID s =
     (let dwIndex = of_nat (length (s_stEntries s)) :: u32;
          pstEntry = cfg_entry (s_dwCurrentTerm s) strHost iRaftPort iNodeID;
          pstBuffer = entry_block (e_wire E) pstEntry
      in rbind (Slice_cstr pstBuffer (e_after E (s_nAllocs s))) (\<lambda>stValues.
         case ldb_Put (e_entries_db E) (s_pstEntriesDB s) (to_string (unat dwIndex)) stValues of
           (ok, db) \<Rightarrow>
             let s = s\<lparr>s_pstEntriesDB := db, s_nAllocs := s_nAllocs s + 1\<rparr> in
             Inr (if ok then s\<lparr>s_stEntries := s_stEntries s @ [pstEntry]\<rparr> else s)))"

definition RaftServer_EntryByIndex :: "u32 \<Rightarrow> entry \<Rightarrow> 'db RaftServer \<Rightarrow> entry res" where
  "RaftServer_EntryByIndex dwIndex pstEntry s =
     (if unat dwIndex < length (s_stEntries s)
      then Inr (entry_CopyFrom False (s_stEntries s ! unat dwIndex) pstEntry)
      else Inl OutOfRange)"

definition RaftServer_FreshTime :: "int \<Rightarrow> 'db RaftServer \<Rightarrow> 'db RaftServer \<times> effect list" where
  "RaftServer_FreshTime iTimer s =
     (let (t, timers) = om_index None iTimer (s_stTimers s); s = s\<lparr>s_stTimers := timers\<rparr> in
      case t of
        None \<Rightarrow> (s, [])
      | Some t \<Rightarrow>
          if iTimer = FollowerHeartbeatTimer then (s, Timer_FreshTime 10 t)
          else if iTimer = LeaderHeartbeatTimer then (s, Timer_FreshTime 20 t)
          else (s, []))"

definition count_proxies :: "u64 \<Rightarrow> (u32, RaftProxy option) omap \<Rightarrow> nat res" where
  "count_proxies bound ps =
     rfold (\<lambda>(k, p) n. case p of None \<Rightarrow> Inl NullDeref
         | Some p \<Rightarrow> Inr (if p_ulMatchIndex p \<ge> bound then n + 1 else n)) ps 0"

definition RaftServer_ChangeCommitIndex :: "'db RaftServer \<Rightarrow> (bool \<times> 'db RaftServer) res" where
  "RaftServer_ChangeCommitIndex s =
     (let iMostNum = RaftServer_ProxysNum s div 2 + 1; dwNext = s_dwCommitIndex s + 1 in
      rbind (count_proxies (ucast dwNext) (s_stProxys s)) (\<lambda>iCurrNum.
        if iCurrNum \<ge> iMostNum then
          (if unat dwNext < length (s_stEntries s) then
             (if en_term (s_stEntries s ! unat dwNext) = s_dwCurrentTerm s
              then Inr (True, s\<lparr>s_dwCommitIndex := s_dwCommitIndex s + 1\<rparr>)
              else Inr (False, s))
           else Inl OutOfRange)
        else Inr (False, s)))"

definition RaftServer_TryApplyLogToFSM :: "'db RaftServer \<Rightarrow> (bool \<times> 'db RaftServer) res" where
  "RaftServer_TryApplyLogToFSM s =
     (if s_dwLastApplied s > s_dwCommitIndex s then
        (if s_stEntries s = [] then Inr (False, s)
         else if unat (s_dwLastApplied s) < length (s_stEntries s)
         then Inr (True, s\<lparr>s_dwLastApplied := s_dwLastApplied s + 1\<rparr>)
         else Inl OutOfRange)
      else Inr (False, s))"

text \<open>
  One iteration of \<open>LoadEntries\<close>: whatever the length of the value, 128 bytes are parsed
  from where it starts. The memory behind the value is a parameter, of which nothing is assumed:
  the theorems say what a restart makes of which memory.
\<close>

definition load_one :: "'db env \<Rightarrow> bytes \<Rightarrow> 'db RaftServer \<Rightarrow> 'db RaftServer res" where
  "load_one E val s =
     (let mem = val @ e_value_after E (length (s_stEntries s)) in
      if length mem < 128 then Inl OverRead
      else case entry_MergePartialFromCodedStream (e_wire E) (take 128 mem) entry_SharedCtor of
             None \<Rightarrow> Inl NoReturn
           | Some p \<Rightarrow>
               let pstEntry = parsed_msg p in
               rbind (if en_type pstEntry = CFGADD then RaftServer_AddProxy (en_nodeid pstEntry) s else Inr s)
                 (\<lambda>s. Inr (s\<lparr>s_stEntries := s_stEntries s @ [pstEntry]\<rparr>)))"

definition RaftServer_LoadEntries :: "'db env \<Rightarrow> 'db RaftServer \<Rightarrow> 'db RaftServer res" where
  "RaftServer_LoadEntries E s =
     (let s = s\<lparr>s_stEntries := []\<rparr> in
      rbind (rfold (\<lambda>(k, v). load_one E v) (ldb_Iter (e_entries_db E) (s_pstEntriesDB s)) s) (\<lambda>s.
        if ldb_IterOk (e_entries_db E) (s_pstEntriesDB s) then Inr s else Inl ExitFailure))"

declare RaftServer_GetProxyByID_def [srv_defs] RaftServer_ProxyConnFd_def [srv_defs]
  RaftServer_AddProxy_def [srv_defs] RaftServer_BecomeFollower_def [srv_defs]
  RaftServer_BecomeCandidate_def [srv_defs] RaftServer_SetLeader_def [srv_defs]
  RaftServer_SetCommitIndex_def [srv_defs] RaftServer_OfflineConn_def [srv_defs]
  RaftServer_SetAndPersistTerm_def [srv_defs] RaftServer_LogTermByIndex_def [srv_defs]
  RaftServer_EntryTermByIndex_def [srv_defs] RaftServer_DelLogsFromIndex_def [srv_defs]
  RaftServer_AppendLog_def [srv_defs] RaftServer_AppendCfgLog_def [srv_defs]
  RaftServer_FreshTime_def [srv_defs] RaftServer_ChangeCommitIndex_def [srv_defs]
  RaftServer_TryApplyLogToFSM_def [srv_defs] proxy_update_def [srv_defs]

end
