(* ===== verification/Net_Buffer.thy ===== *)
theory Net_Buffer
  imports Raft_Server
begin

text \<open>
  \<open>net/Conn\<close>: the connection object and its two 1440-byte buffers. Bytes are appended
  behind the \<open>m_iInBufferSize_\<close> (\<open>m_iOutBufferSize_\<close>) bytes that are in use and
  consumed at the front, the rest being moved down with \<open>memcpy\<close>. Nothing in the code
  checks the 1440 bytes; here every access outside them is the stop \<open>BufferOverflow\<close>.

  The specification is a queue of bytes (\<open>byte_queue\<close>), and both buffers implement it.
\<close>

section \<open>The connection object\<close>

record Conn =
  cn_iFd :: int
  cn_stInBuffer :: bytes
  cn_stOutBuffer :: bytes
  cn_pstChannel :: Channel
  cn_pstMod :: "nat option"        \<comment> \<open>the connection its \<open>Mod\<close> is tied to\<close>
  cn_iInBufferSize :: int
  cn_iOutBufferSize :: int
  cn_pstProxy :: "u32 option"      \<comment> \<open>weak pointer to a proxy, by its key\<close>
  cn_iRaftPort :: int
  cn_strAddr :: bytes
  cn_iJoinPort :: int
  cn_strJoinAddr :: bytes
  cn_iNodeID :: "int option"       \<comment> \<open>\<open>None\<close> until \<open>TryConnect\<close> sets it\<close>

definition BUFSIZE :: nat where "BUFSIZE = 1440"

section \<open>Accesses to the buffers\<close>

text \<open>\<open>memcpy\<close> or \<open>SerializeToArray\<close> to \<open>OutBufferPtr(off)\<close>, \<open>recv\<close> to \<open>InBufferPtr(off)\<close>.\<close>

definition buf_write :: "int \<Rightarrow> bytes \<Rightarrow> bytes \<Rightarrow> bytes res" where
  "buf_write off src buf =
     (if 0 \<le> off \<and> nat off + length src \<le> length buf then Inr (blit (nat off) src buf)
      else Inl BufferOverflow)"

text \<open>
  \<open>memcpy(Ptr(0), Ptr(off), n)\<close>: the regions overlap when \<open>n > off\<close>, which \<open>memcpy\<close>
  does not allow: its outcome is undefined. The flag stands for what the implementation at hand
  does: it copies upwards byte by byte, which gives the moved bytes, or it does anything
  else, which is the stop \<open>OverlappingCopy\<close>. The theorems on the streams treat both.
\<close>

definition buf_down :: "bool \<Rightarrow> int \<Rightarrow> int \<Rightarrow> bytes \<Rightarrow> bytes res" where
  "buf_down overlap_ok off n buf =
     (if n < 0 then Inl NegativeLength
      else if off < 0 \<or> nat off + nat n > length buf then Inl BufferOverflow
      else if n > off \<and> off > 0 \<and> \<not> overlap_ok then Inl OverlappingCopy
      else Inr (blit 0 (take (nat n) (drop (nat off) buf)) buf))"

lemma buf_write_ok:
  "0 \<le> off \<Longrightarrow> nat off + length src \<le> length buf \<Longrightarrow> buf_write off src buf = Inr (blit (nat off) src buf)"
  by (simp add: buf_write_def)

text \<open>A buffer in use: \<open>sz\<close> bytes of 1440.\<close>

definition buf_ok :: "int \<Rightarrow> bytes \<Rightarrow> bool" where
  "buf_ok sz buf \<longleftrightarrow> length buf = BUFSIZE \<and> 0 \<le> sz \<and> sz \<le> int BUFSIZE"

definition content :: "int \<Rightarrow> bytes \<Rightarrow> bytes" where
  "content sz buf = take (nat sz) buf"

lemma length_content [simp]: "buf_ok sz buf \<Longrightarrow> length (content sz buf) = nat sz"
  by (auto simp: content_def buf_ok_def)

lemma content_write:
  assumes "buf_ok sz buf" and "nat sz + length src \<le> BUFSIZE"
  shows "\<exists>buf'. buf_write sz src buf = Inr buf' \<and> buf_ok (sz + int (length src)) buf'
    \<and> content (sz + int (length src)) buf' = content sz buf @ src"
proof -
  have "nat (sz + int (length src)) = nat sz + length src"
    using assms(1) by (simp add: buf_ok_def nat_add_distrib)
  with assms show ?thesis
    by (auto simp: buf_write_def buf_ok_def content_def take_blit_end)
qed

lemma content_down:
  assumes "buf_ok sz buf" and "0 \<le> k" "k \<le> sz" and "overlap_ok \<or> sz - k \<le> k"
  shows "\<exists>buf'. buf_down overlap_ok k (sz - k) buf = Inr buf' \<and> buf_ok (sz - k) buf'
    \<and> content (sz - k) buf' = drop (nat k) (content sz buf)"
proof -
  let ?src = "take (nat (sz - k)) (drop (nat k) buf)"
  have n: "nat k + nat (sz - k) = nat sz" using assms(2,3) by simp
  have src: "length ?src = nat (sz - k)"
    using assms n by (auto simp: buf_ok_def)
  have "\<not> (sz - k > k \<and> k > 0 \<and> \<not> overlap_ok)" using assms(4) by auto
  then have d: "buf_down overlap_ok k (sz - k) buf = Inr (blit 0 ?src buf)"
    using assms n by (auto simp: buf_down_def buf_ok_def)
  have "take (nat (sz - k)) (blit 0 ?src buf) = ?src"
    using take_blit_0 [of ?src buf] src assms(1) n by (simp add: buf_ok_def)
  moreover have "?src = drop (nat k) (take (nat sz) buf)"
    by (simp add: drop_take flip: n)
  moreover have "buf_ok (sz - k) (blit 0 ?src buf)"
    using assms n src by (auto simp: buf_ok_def)
  ultimately show ?thesis using d by (simp add: content_def)
qed

section \<open>The two queues\<close>

locale byte_queue =
  fixes queue :: "'c \<Rightarrow> bytes"
    and ok :: "'c \<Rightarrow> bool"
    and put :: "bytes \<Rightarrow> 'c \<Rightarrow> 'c res"
    and consume :: "nat \<Rightarrow> 'c \<Rightarrow> 'c res"
    and capacity :: nat
  assumes put_fits: "ok c \<Longrightarrow> length (queue c) + length bs \<le> capacity \<Longrightarrow>
      \<exists>c'. put bs c = Inr c' \<and> ok c' \<and> queue c' = queue c @ bs"
    and put_overflows: "ok c \<Longrightarrow> capacity < length (queue c) + length bs \<Longrightarrow> put bs c = Inl BufferOverflow"
    and consume_front: "ok c \<Longrightarrow> n \<le> length (queue c) \<Longrightarrow>
      \<exists>c'. consume n c = Inr c' \<and> ok c' \<and> queue c' = drop n (queue c)"
    and bounded: "ok c \<Longrightarrow> length (queue c) \<le> capacity"
begin

text \<open>First in, first out: what is put behind a queue comes out when the front is consumed.\<close>

lemma put_then_consume:
  assumes "ok c" and "length (queue c) + length bs \<le> capacity"
  shows "\<exists>c'. rbind (put bs c) (consume (length (queue c))) = Inr c' \<and> ok c' \<and> queue c' = bs"
proof -
  obtain c1 where c1: "put bs c = Inr c1" "ok c1" "queue c1 = queue c @ bs"
    using put_fits [OF assms] by blast
  have "length (queue c) \<le> length (queue c1)" by (simp add: c1(3))
  from consume_front [OF c1(2) this] show ?thesis by (auto simp: c1)
qed

text \<open>A sequence of writes is one write of the concatenation, or an overflow.\<close>

lemma puts_fit:
  assumes "ok c" and "length (queue c) + length (concat bss) \<le> capacity"
  shows "\<exists>c'. rfold put bss c = Inr c' \<and> ok c' \<and> queue c' = queue c @ concat bss"
  using assms
proof (induction bss arbitrary: c)
  case (Cons bs bss)
  obtain c1 where c1: "put bs c = Inr c1" "ok c1" "queue c1 = queue c @ bs"
    using put_fits [OF Cons.prems(1), of bs] Cons.prems(2) by auto
  show ?case using Cons.IH [OF c1(2)] Cons.prems(2) by (auto simp: c1)
qed simp

lemma puts_overflow:
  assumes "ok c" and "capacity < length (queue c) + length (concat bss)"
  shows "rfold put bss c = Inl BufferOverflow"
  using assms
proof (induction bss arbitrary: c)
  case Nil
  then show ?case using bounded [of c] by simp
next
  case (Cons bs bss)
  show ?case
  proof (cases "length (queue c) + length bs \<le> capacity")
    case True
    then obtain c1 where c1: "put bs c = Inr c1" "ok c1" "queue c1 = queue c @ bs"
      using put_fits [OF Cons.prems(1)] by blast
    show ?thesis using Cons.IH [OF c1(2)] Cons.prems(2) by (simp add: c1)
  next
    case False
    then show ?thesis using put_overflows [OF Cons.prems(1), of bs] by simp
  qed
qed

end

definition out_ok :: "Conn \<Rightarrow> bool" where
  "out_ok c \<longleftrightarrow> buf_ok (cn_iOutBufferSize c) (cn_stOutBuffer c)"

definition out_queue :: "Conn \<Rightarrow> bytes" where
  "out_queue c = content (cn_iOutBufferSize c) (cn_stOutBuffer c)"

definition in_ok :: "Conn \<Rightarrow> bool" where
  "in_ok c \<longleftrightarrow> buf_ok (cn_iInBufferSize c) (cn_stInBuffer c)"

definition in_queue :: "Conn \<Rightarrow> bytes" where
  "in_queue c = content (cn_iInBufferSize c) (cn_stInBuffer c)"

definition out_put :: "bytes \<Rightarrow> Conn \<Rightarrow> Conn res" where
  "out_put bs c = rbind (buf_write (cn_iOutBufferSize c) bs (cn_stOutBuffer c)) (\<lambda>buf.
     Inr (c\<lparr>cn_stOutBuffer := buf, cn_iOutBufferSize := cn_iOutBufferSize c + int (length bs)\<rparr>))"

text \<open>
  After a \<open>send\<close> of \<open>k\<close> bytes: the new size first, then the move, which is skipped when
  nothing is left.
\<close>

definition out_consume :: "bool \<Rightarrow> int \<Rightarrow> Conn \<Rightarrow> Conn res" where
  "out_consume overlap_ok iSended c =
     (let iLeftSize = cn_iOutBufferSize c - iSended; c = c\<lparr>cn_iOutBufferSize := iLeftSize\<rparr> in
      if iLeftSize > 0 then
        rbind (buf_down overlap_ok iSended iLeftSize (cn_stOutBuffer c)) (\<lambda>buf.
          Inr (c\<lparr>cn_stOutBuffer := buf\<rparr>))
      else Inr c)"

definition in_put :: "bytes \<Rightarrow> Conn \<Rightarrow> Conn res" where
  "in_put bs c = rbind (buf_write (cn_iInBufferSize c) bs (cn_stInBuffer c)) (\<lambda>buf.
     Inr (c\<lparr>cn_stInBuffer := buf, cn_iInBufferSize := cn_iInBufferSize c + int (length bs)\<rparr>))"

definition in_consume :: "bool \<Rightarrow> int \<Rightarrow> Conn \<Rightarrow> Conn res" where
  "in_consume overlap_ok k c =
     (let iLeftSize = cn_iInBufferSize c - k in
      rbind (buf_down overlap_ok k iLeftSize (cn_stInBuffer c)) (\<lambda>buf.
        Inr (c\<lparr>cn_stInBuffer := buf, cn_iInBufferSize := iLeftSize\<rparr>)))"

lemma out_consume_front:
  assumes "out_ok c" and "n \<le> length (out_queue c)"
    and "overlap_ok \<or> length (out_queue c) \<le> 2 * n"
  shows "\<exists>c'. out_consume overlap_ok (int n) c = Inr c' \<and> out_ok c' \<and> out_queue c' = drop n (out_queue c)
    \<and> c' = c\<lparr>cn_iOutBufferSize := cn_iOutBufferSize c', cn_stOutBuffer := cn_stOutBuffer c'\<rparr>"
proof (cases "cn_iOutBufferSize c - int n > 0")
  case True
  have "overlap_ok \<or> cn_iOutBufferSize c - int n \<le> int n"
    using assms(1,3) by (auto simp: out_ok_def out_queue_def)
  with True assms show ?thesis
    using content_down [of "cn_iOutBufferSize c" "cn_stOutBuffer c" "int n" overlap_ok]
    by (auto simp: out_ok_def out_queue_def out_consume_def Let_def)
next
  case False
  with assms have "cn_iOutBufferSize c - int n = 0" by (auto simp: out_ok_def out_queue_def buf_ok_def)
  with assms show ?thesis by (auto simp: out_ok_def out_queue_def out_consume_def buf_ok_def content_def)
qed

lemma in_consume_front:
  assumes "in_ok c" and "n \<le> length (in_queue c)"
    and "overlap_ok \<or> length (in_queue c) \<le> 2 * n"
  shows "\<exists>c'. in_consume overlap_ok (int n) c = Inr c' \<and> in_ok c' \<and> in_queue c' = drop n (in_queue c)
    \<and> c' = c\<lparr>cn_iInBufferSize := cn_iInBufferSize c', cn_stInBuffer := cn_stInBuffer c'\<rparr>"
proof -
  have "overlap_ok \<or> cn_iInBufferSize c - int n \<le> int n" "int n \<le> cn_iInBufferSize c"
    using assms by (auto simp: in_ok_def in_queue_def buf_ok_def)
  then show ?thesis
    using assms content_down [of "cn_iInBufferSize c" "cn_stInBuffer c" "int n" overlap_ok]
    by (auto simp: in_ok_def in_queue_def in_consume_def Let_def)
qed

text \<open>The other case: the regions of the move overlap, and \<open>memcpy\<close> does not cope with it.\<close>

lemma out_consume_overlap:
  assumes "out_ok c" and "0 < n" and "2 * n < length (out_queue c)"
  shows "out_consume False (int n) c = Inl OverlappingCopy"
  using assms by (auto simp: out_ok_def out_queue_def buf_ok_def content_def out_consume_def buf_down_def Let_def)

lemma in_consume_overlap:
  assumes "in_ok c" and "0 < n" and "2 * n < length (in_queue c)"
  shows "in_consume False (int n) c = Inl OverlappingCopy"
  using assms by (auto simp: in_ok_def in_queue_def buf_ok_def content_def in_consume_def buf_down_def Let_def)

lemma out_put_fits:
  assumes "out_ok c" and "length (out_queue c) + length bs \<le> BUFSIZE"
  shows "\<exists>c'. out_put bs c = Inr c' \<and> out_ok c' \<and> out_queue c' = out_queue c @ bs
    \<and> c' = c\<lparr>cn_iOutBufferSize := cn_iOutBufferSize c', cn_stOutBuffer := cn_stOutBuffer c'\<rparr>"
  using assms content_write [of "cn_iOutBufferSize c" "cn_stOutBuffer c" bs]
  by (auto simp: out_ok_def out_queue_def out_put_def)

lemma in_put_fits:
  assumes "in_ok c" and "length (in_queue c) + length bs \<le> BUFSIZE"
  shows "\<exists>c'. in_put bs c = Inr c' \<and> in_ok c' \<and> in_queue c' = in_queue c @ bs
    \<and> c' = c\<lparr>cn_iInBufferSize := cn_iInBufferSize c', cn_stInBuffer := cn_stInBuffer c'\<rparr>"
  using assms content_write [of "cn_iInBufferSize c" "cn_stInBuffer c" bs]
  by (auto simp: in_ok_def in_queue_def in_put_def)

interpretation outq: byte_queue out_queue out_ok out_put "\<lambda>n. out_consume True (int n)" BUFSIZE
proof
  fix c and bs :: bytes assume "out_ok c" "length (out_queue c) + length bs \<le> BUFSIZE"
  then show "\<exists>c'. out_put bs c = Inr c' \<and> out_ok c' \<and> out_queue c' = out_queue c @ bs"
    using out_put_fits by blast
next
  fix c and bs :: bytes assume "out_ok c" "BUFSIZE < length (out_queue c) + length bs"
  then show "out_put bs c = Inl BufferOverflow"
    by (auto simp: out_put_def buf_write_def out_ok_def out_queue_def) (auto simp: buf_ok_def)
next
  fix c n assume "out_ok c" "n \<le> length (out_queue c)"
  then show "\<exists>c'. out_consume True (int n) c = Inr c' \<and> out_ok c' \<and> out_queue c' = drop n (out_queue c)"
    using out_consume_front by blast
next
  fix c assume "out_ok c"
  then show "length (out_queue c) \<le> BUFSIZE"
    by (auto simp: out_ok_def out_queue_def buf_ok_def)
qed

interpretation inq: byte_queue in_queue in_ok in_put "\<lambda>n. in_consume True (int n)" BUFSIZE
proof
  fix c and bs :: bytes assume "in_ok c" "length (in_queue c) + length bs \<le> BUFSIZE"
  then show "\<exists>c'. in_put bs c = Inr c' \<and> in_ok c' \<and> in_queue c' = in_queue c @ bs"
    using in_put_fits by blast
next
  fix c and bs :: bytes assume "in_ok c" "BUFSIZE < length (in_queue c) + length bs"
  then show "in_put bs c = Inl BufferOverflow"
    by (auto simp: in_put_def buf_write_def in_ok_def in_queue_def) (auto simp: buf_ok_def)
next
  fix c n assume "in_ok c" "n \<le> length (in_queue c)"
  then show "\<exists>c'. in_consume True (int n) c = Inr c' \<and> in_ok c' \<and> in_queue c' = drop n (in_queue c)"
    using in_consume_front by blast
next
  fix c assume "in_ok c"
  then show "length (in_queue c) \<le> BUFSIZE"
    by (auto simp: in_ok_def in_queue_def buf_ok_def)
qed

end
