(* ===== verification/Raft_Log.thy ===== *)
theory Raft_Log
  imports Raft_Server
begin

text \<open>
  What the operations of \<open>nanoraft/RaftServer\<close> guarantee: the invariant of the server's
  containers, the persistent log and what a restart reads back of it from which memory, and the rule that advances
  the commit index.
\<close>

section \<open>A concrete environment\<close>

text \<open>
  Protobuf's documented encoding, databases that never fail, zeroed memory behind every
  block, a network that takes everything: the instance on which hypotheses are discharged.
\<close>

definition bytewise :: "bytes \<Rightarrow> bytes \<Rightarrow> int" where
  "bytewise a b = (if a = b then 0 else if lexordp (<) a b then - 1 else 1)"

definition calm_env :: "(bytes \<times> bytes) list env" where
  "calm_env = \<lparr>e_wire = leb_wire, e_state_db = list_db bytewise,
     e_entries_db = list_db IndexComparator_Compare,
     e_after = (\<lambda>n. [0]), e_value_after = (\<lambda>n. replicate 128 0),
     e_send = (\<lambda>n fd bs. int (length bs)), e_memcpy_down = True\<rparr>"

lemma calm_env_simps [simp]:
  "e_wire calm_env = leb_wire" "e_state_db calm_env = list_db bytewise"
  "e_entries_db calm_env = list_db IndexComparator_Compare" "e_after calm_env n = [0]"
  "e_value_after calm_env n = replicate 128 0" "e_send calm_env n fd bs = int (length bs)"
  "e_memcpy_down calm_env"
  by (simp_all add: calm_env_def)

lemma list_db_simps [simp]:
  "ldb_Put (list_db cmp) db k v = (True, ldb_ins cmp k v db)"
  "ldb_Delete (list_db cmp) db k = (True, ldb_del cmp k db)"
  "ldb_Iter (list_db cmp) db = db" "ldb_IterOk (list_db cmp) db"
  by (simp_all add: list_db_def)

definition calm_server :: "(bytes \<times> bytes) list RaftServer" where
  "calm_server = (case RaftServer_new 3 (Some []) (Some []) of Inr s \<Rightarrow> s)"

lemma calm_server_simps:
  "s_stEntries calm_server = []" "s_pstEntriesDB calm_server = []" "s_pstStateDB calm_server = []"
  "s_dwCurrentTerm calm_server = 0" "s_dwCommitIndex calm_server = 0" "s_nAllocs calm_server = 0"
  "s_stProxys calm_server = []" "s_stLogs calm_server = []" "s_stRole calm_server = Follower"
  "s_stConns calm_server = []" "s_dwLastApplied calm_server = 0" "s_stTimers calm_server = []"
  "s_dwLogBase calm_server = 0"
  by (simp_all add: calm_server_def RaftServer_new_def)

section \<open>The invariant\<close>

text \<open>
  Proxies: the map is in key order and holds no null pointer, each proxy is stored under its
  own id, is never taken for disconnected, and the next index to send is the last
  acknowledged one plus 1. The old log \<open>m_stLogs_\<close> is empty: nothing appends to it.
\<close>

definition proxy_ok :: "u32 \<Rightarrow> RaftProxy option \<Rightarrow> bool" where
  "proxy_ok k v \<longleftrightarrow> (case v of None \<Rightarrow> False | Some p \<Rightarrow>
     p_dwID p = k \<and> p_stState p = IsVoting \<and> p_ulNextIndex p = p_ulMatchIndex p + 1)"

definition srv_inv :: "'db RaftServer \<Rightarrow> bool" where
  "srv_inv s \<longleftrightarrow> om_ok (s_stProxys s) \<and> om_ok (s_stConns s)
     \<and> (\<forall>k v. om_find k (s_stProxys s) = Some v \<longrightarrow> proxy_ok k v)
     \<and> s_stLogs s = [] \<and> s_dwLogBase s = 0"

lemma RaftServer_new_facts:
  assumes "RaftServer_new fd sdb edb = Inr s"
  shows "srv_inv s" "s_stConns s = []" "s_stProxys s = []" "s_stEntries s = []" "s_stRole s = Follower"
    "edb = Some (s_pstEntriesDB s)"
  using assms by (auto simp: RaftServer_new_def srv_inv_def split: option.splits)

text \<open>The log in the database: the serialised log in memory, entry \<open>i\<close> under the decimal key of \<open>i\<close>.\<close>

definition entry_plain :: "wire \<Rightarrow> entry \<Rightarrow> bool" where
  "entry_plain W e \<longleftrightarrow> en_unknown e = [] \<and> VerifyUtf8String W (en_host e)"

abbreviation ser :: "wire \<Rightarrow> entry \<Rightarrow> bytes" where
  "ser W e \<equiv> entry_InternalSerializeWithCachedSizesToArray W e"

definition stored :: "'db env \<Rightarrow> 'db RaftServer \<Rightarrow> bool" where
  "stored E s \<longleftrightarrow> ldb_Iter (e_entries_db E) (s_pstEntriesDB s) = indexed (map (ser (e_wire E)) (s_stEntries s))"

text \<open>
  What the database holds whatever lies behind the heap blocks: for each entry its bytes, followed by
  the bytes that were in memory behind its block up to the next zero byte. They are none iff
  that zero byte comes at once.
\<close>

definition junk :: "'db env \<Rightarrow> nat \<Rightarrow> bytes" where
  "junk E n = takeWhile (\<lambda>b. b \<noteq> 0) (e_after E n)"

definition kept :: "'db env \<Rightarrow> 'db RaftServer \<Rightarrow> bool" where
  "kept E s \<longleftrightarrow> (\<exists>ns. length ns = length (s_stEntries s) \<and>
     ldb_Iter (e_entries_db E) (s_pstEntriesDB s) =
       indexed (map2 (\<lambda>e n. ser (e_wire E) e @ junk E n) (s_stEntries s) ns))"

definition durable :: "'db env \<Rightarrow> 'db RaftServer \<Rightarrow> bool" where
  "durable E s \<longleftrightarrow> kept E s \<and> ldb_IterOk (e_entries_db E) (s_pstEntriesDB s)"

lemma kept_stored:
  assumes "kept E s" and "\<And>n. junk E n = []"
  shows "stored E s"
proof -
  have "map2 (\<lambda>e n. ser (e_wire E) e @ junk E n) es ns = map (ser (e_wire E)) es"
    if "length ns = length es" for es and ns :: "nat list"
    using that by (induction ns es rule: list_induct2) (simp_all add: assms(2))
  with assms(1) show ?thesis by (auto simp: kept_def stored_def)
qed

text \<open>Storage that works: the engine keeps its contract and accepts every write.\<close>

definition calm_db :: "'db env \<Rightarrow> bool" where
  "calm_db E \<longleftrightarrow> wire_nul_free (e_wire E) \<and> ldb_engine (e_entries_db E) IndexComparator_Compare
     \<and> (\<forall>db k v. fst (ldb_Put (e_entries_db E) db k v))"

text \<open>A log that can be stored: no host name with a zero byte, indices that the comparator tells apart.\<close>

definition storable :: "entry list \<Rightarrow> bool" where
  "storable es \<longleftrightarrow> list_all (\<lambda>e. 0 \<notin> set (en_host e)) es \<and> length es < 2 ^ 31"

lemma storable_prefix: "storable es' \<Longrightarrow> prefix es es' \<Longrightarrow> storable es"
  by (auto simp: storable_def prefix_def)

definition cfg_typed :: "entry \<Rightarrow> bool" where
  "cfg_typed e \<longleftrightarrow> en_type e = CFGADD \<and> entry_entrytype_IsValid (sint (en_type e)) \<and> en_unknown e = []"

text \<open>
  Nothing the program does shortens or rewrites the log in memory, forgets a proxy, or makes a leader;
  entries that are added are well-typed, and on storage that works they are in the database too.
\<close>

definition extends :: "'db env \<Rightarrow> 'db RaftServer \<Rightarrow> 'db RaftServer \<Rightarrow> bool" where
  "extends E s s' \<longleftrightarrow> prefix (s_stEntries s) (s_stEntries s')
     \<and> (\<forall>k. om_find k (s_stProxys s) \<noteq> None \<longrightarrow> om_find k (s_stProxys s') \<noteq> None)
     \<and> (srv_inv s \<longrightarrow> srv_inv s')
     \<and> (s_stRole s' = Leader \<longrightarrow> s_stRole s = Leader)
     \<and> (list_all cfg_typed (s_stEntries s) \<longrightarrow> list_all cfg_typed (s_stEntries s'))
     \<and> (srv_inv s \<and> calm_db E \<and> storable (s_stEntries s') \<and> durable E s \<longrightarrow> durable E s')"

lemma extends_refl [simp, intro]: "extends E s s"
  by (simp add: extends_def)

lemma extends_trans [trans]: "extends E s t \<Longrightarrow> extends E t u \<Longrightarrow> extends E s u"
  unfolding extends_def using storable_prefix prefix_order.trans by metis

lemma proxy_ok_new [simp]: "proxy_ok k (Some (RaftProxy_new k))"
  by (simp add: proxy_ok_def RaftProxy_new_def)

lemma srv_inv_find:
  "srv_inv s \<Longrightarrow> om_find k (s_stProxys s) = Some v \<Longrightarrow> \<exists>p. v = Some p \<and> proxy_ok k (Some p)"
  by (cases v) (auto simp: srv_inv_def proxy_ok_def split: option.splits)

lemma extends_GetProxyByID:
  "om_find k (s_stProxys s) \<noteq> None \<Longrightarrow> extends E s (snd (RaftServer_GetProxyByID k s))"
  by (auto simp: extends_def durable_def kept_def RaftServer_GetProxyByID_def om_index_def)

lemma extends_assign_proxy:
  "(srv_inv s \<Longrightarrow> proxy_ok k v) \<Longrightarrow> extends E s (s\<lparr>s_stProxys := om_assign k v (s_stProxys s)\<rparr>)"
  by (simp add: extends_def srv_inv_def durable_def kept_def)

lemma extends_AddProxy:
  assumes "RaftServer_AddProxy k s = Inr s'"
  shows "extends E s s'"
proof (cases "om_find k (s_stProxys s)")
  case None
  with assms show ?thesis by (auto simp: RaftServer_AddProxy_def intro!: extends_assign_proxy)
next
  case (Some v)
  with assms obtain p where p: "v = Some p"
      "s' = s\<lparr>s_stProxys := om_assign k (Some (p\<lparr>p_stState := IsVoting\<rparr>)) (s_stProxys s)\<rparr>"
    by (cases v) (auto simp: RaftServer_AddProxy_def)
  have "proxy_ok k (Some (p\<lparr>p_stState := IsVoting\<rparr>))" if "srv_inv s"
    using srv_inv_find [OF that Some] p(1) by (auto simp: proxy_ok_def)
  then show ?thesis unfolding p(2) by (rule extends_assign_proxy)
qed

lemma AddProxy_present: "RaftServer_AddProxy k s = Inr s' \<Longrightarrow> \<exists>p. om_find k (s_stProxys s') = Some (Some p)"
  by (auto simp: RaftServer_AddProxy_def split: option.splits)

lemma AddProxy_returns:
  assumes "srv_inv s"
  shows "\<exists>s'. RaftServer_AddProxy k s = Inr s'"
  using srv_inv_find [OF assms, of k]
  by (cases "om_find k (s_stProxys s)") (auto simp: RaftServer_AddProxy_def)

lemma AddProxy_frame [frame_simps]:
  "RaftServer_AddProxy k s = Inr s' \<Longrightarrow> s_stEntries s' = s_stEntries s"
  "RaftServer_AddProxy k s = Inr s' \<Longrightarrow> s_pstEntriesDB s' = s_pstEntriesDB s"
  "RaftServer_AddProxy k s = Inr s' \<Longrightarrow> s_dwCurrentTerm s' = s_dwCurrentTerm s"
  by (auto simp: RaftServer_AddProxy_def split: option.splits)

text \<open>A change of the state that leaves the containers alone.\<close>

lemma extends_fields:
  "s_stEntries s' = s_stEntries s \<Longrightarrow> s_stProxys s' = s_stProxys s \<Longrightarrow> s_stConns s' = s_stConns s \<Longrightarrow>
   s_stLogs s' = s_stLogs s \<Longrightarrow> s_dwLogBase s' = s_dwLogBase s \<Longrightarrow> s_pstEntriesDB s' = s_pstEntriesDB s \<Longrightarrow>
   (s_stRole s' = Leader \<Longrightarrow> s_stRole s = Leader) \<Longrightarrow> extends E s s'"
  by (auto simp: extends_def srv_inv_def durable_def kept_def)

lemma extends_simple [simp, intro]:
  "extends E s (RaftServer_BecomeFollower s)" "extends E s (RaftServer_BecomeCandidate s)"
  "extends E s (RaftServer_SetLeader k s)" "extends E s (RaftServer_SetCommitIndex i s)"
  "extends E s (fst (RaftServer_FreshTime t s))"
  by (auto intro!: extends_fields simp: RaftServer_BecomeFollower_def RaftServer_BecomeCandidate_def
      RaftServer_SetLeader_def RaftServer_SetCommitIndex_def RaftServer_FreshTime_def Let_def
      split: prod.split option.split)

lemma extends_SetAndPersistTerm: "RaftServer_SetAndPersistTerm E t s = Inr s' \<Longrightarrow> extends E s s'"
  by (auto simp: RaftServer_SetAndPersistTerm_def intro!: extends_fields split: prod.splits if_splits)

lemma extends_OfflineConn: "RaftServer_OfflineConn fd s = Inr s' \<Longrightarrow> extends E s s'"
  by (auto simp: RaftServer_OfflineConn_def extends_def srv_inv_def durable_def kept_def split: option.splits)

text \<open>The two outcomes of \<open>AppendCfgLog\<close> when it returns.\<close>

lemma AppendCfgLog_cases:
  assumes "RaftServer_AppendCfgLog E h p n s = Inr s'"
  obtains (stored) val db where
      "Slice_cstr (entry_block (e_wire E) (cfg_entry (s_dwCurrentTerm s) h p n))
        (e_after E (s_nAllocs s)) = Inr val"
      "ldb_Put (e_entries_db E) (s_pstEntriesDB s)
        (to_string (unat (of_nat (length (s_stEntries s)) :: u32))) val = (True, db)"
      "s' = s\<lparr>s_pstEntriesDB := db, s_nAllocs := s_nAllocs s + 1,
        s_stEntries := s_stEntries s @ [cfg_entry (s_dwCurrentTerm s) h p n]\<rparr>"
  | (failed) val db where
      "ldb_Put (e_entries_db E) (s_pstEntriesDB s)
        (to_string (unat (of_nat (length (s_stEntries s)) :: u32))) val = (False, db)"
      "s' = s\<lparr>s_pstEntriesDB := db, s_nAllocs := s_nAllocs s + 1\<rparr>"
proof -
  from assms obtain val where val: "Slice_cstr
      (entry_block (e_wire E) (cfg_entry (s_dwCurrentTerm s) h p n)) (e_after E (s_nAllocs s)) = Inr val"
    by (auto simp: RaftServer_AppendCfgLog_def Let_def rbind_Inr_iff)
  obtain ok db where put: "ldb_Put (e_entries_db E) (s_pstEntriesDB s)
      (to_string (unat (of_nat (length (s_stEntries s)) :: u32))) val = (ok, db)" by fastforce
  from assms val put that show ?thesis
    by (cases ok) (auto simp: RaftServer_AppendCfgLog_def Let_def)
qed

lemma extends_ChangeCommitIndex: "RaftServer_ChangeCommitIndex s = Inr (b, s') \<Longrightarrow> extends E s s'"
  by (auto simp: RaftServer_ChangeCommitIndex_def Let_def rbind_Inr_iff intro!: extends_fields
      split: if_splits)

lemma DelLogsFromIndex_empty:
  assumes "s_stLogs s = []" and "dwIndex + 1 \<noteq> 0"
  shows "RaftServer_DelLogsFromIndex E dwIndex s = s"
proof -
  have "0 < unat (dwIndex + 1)" using assms(2) by (simp add: unat_gt_0)
  with assms(1) show ?thesis by (simp add: RaftServer_DelLogsFromIndex_def)
qed

text \<open>
  \<open>DelLogsFromIndex\<close> deletes from the database of the entries. On an empty old log only index
  \<open>0xffffffff\<close> passes its guard, and no stored key lies that far.
\<close>

lemma Seek_behind:
  assumes "length vs < 2 ^ 31" and "2 ^ 31 - 1 \<le> n"
  shows "ldb_Seek IndexComparator_Compare (to_string n) (indexed vs) = []"
proof -
  have "IndexComparator_Compare (to_string j) (to_string n) < 0" if "j < length vs" for j
    using that assms by (simp add: IndexComparator_Compare_def extract_int_to_string Let_def)
  then show ?thesis by (auto simp: ldb_Seek_def dropWhile_eq_Nil_conv indexed_def)
qed

lemma DelLogsFromIndex_fold:
  "s_stEntries (foldl (\<lambda>s kv. s\<lparr>s_pstEntriesDB := g s kv, s_stLogs := butlast (s_stLogs s)\<rparr>) s xs) = s_stEntries s
   \<and> s_stProxys (foldl (\<lambda>s kv. s\<lparr>s_pstEntriesDB := g s kv, s_stLogs := butlast (s_stLogs s)\<rparr>) s xs) = s_stProxys s
   \<and> s_stConns (foldl (\<lambda>s kv. s\<lparr>s_pstEntriesDB := g s kv, s_stLogs := butlast (s_stLogs s)\<rparr>) s xs) = s_stConns s
   \<and> s_dwLogBase (foldl (\<lambda>s kv. s\<lparr>s_pstEntriesDB := g s kv, s_stLogs := butlast (s_stLogs s)\<rparr>) s xs) = s_dwLogBase s
   \<and> s_stRole (foldl (\<lambda>s kv. s\<lparr>s_pstEntriesDB := g s kv, s_stLogs := butlast (s_stLogs s)\<rparr>) s xs) = s_stRole s
   \<and> (s_stLogs s = [] \<longrightarrow>
      s_stLogs (foldl (\<lambda>s kv. s\<lparr>s_pstEntriesDB := g s kv, s_stLogs := butlast (s_stLogs s)\<rparr>) s xs) = [])"
  by (induction xs arbitrary: s) simp_all

lemma DelLogsFromIndex_frame:
  "s_stConns (RaftServer_DelLogsFromIndex E i s) = s_stConns s"
  "s_stEntries (RaftServer_DelLogsFromIndex E i s) = s_stEntries s"
  "s_stProxys (RaftServer_DelLogsFromIndex E i s) = s_stProxys s"
  "s_stRole (RaftServer_DelLogsFromIndex E i s) = s_stRole s"
  "srv_inv s \<Longrightarrow> srv_inv (RaftServer_DelLogsFromIndex E i s)"
  by (simp_all add: RaftServer_DelLogsFromIndex_def srv_inv_def DelLogsFromIndex_fold)

lemma DelLogsFromIndex_kept:
  assumes "s_stLogs s = []" and "storable (s_stEntries s)" and "kept E s"
  shows "RaftServer_DelLogsFromIndex E i s = s"
proof (cases "i = - 1")
  case True
  have u: "unat (- 1 :: u32) = 2 ^ 32 - 1" by (simp add: unsigned_minus_1_eq_mask mask_eq_exp_minus_1)
  obtain ns where "length ns = length (s_stEntries s)" "ldb_Iter (e_entries_db E) (s_pstEntriesDB s) =
      indexed (map2 (\<lambda>e n. ser (e_wire E) e @ junk E n) (s_stEntries s) ns)"
    using assms(3) unfolding kept_def by blast
  with u show ?thesis
    using assms(1,2) True Seek_behind [of "map2 (\<lambda>e n. ser (e_wire E) e @ junk E n) (s_stEntries s) ns" "2 ^ 32 - 1"]
    by (simp add: RaftServer_DelLogsFromIndex_def storable_def)
next
  case False
  then have "i + 1 \<noteq> 0" by (metis add_eq_0_iff add.commute)
  then show ?thesis using assms(1) by (rule DelLogsFromIndex_empty [rotated])
qed

lemma extends_DelLogsFromIndex: "extends E s (RaftServer_DelLogsFromIndex E i s)"
proof -
  have "durable E (RaftServer_DelLogsFromIndex E i s)" if "srv_inv s" "storable (s_stEntries s)" "durable E s"
    using that DelLogsFromIndex_kept [of s E i] by (simp add: srv_inv_def durable_def)
  then show ?thesis by (simp add: extends_def DelLogsFromIndex_frame)
qed

lemma LogTermByIndex_empty:
  assumes "s_stLogs s = []"
  shows "RaftServer_LogTermByIndex dwIndex s = (if dwIndex + 1 = 0 then Inl OutOfRange else Inr (- 1))"
proof -
  have "0 < unat (dwIndex + 1)" if "dwIndex + 1 \<noteq> 0" using that by (simp add: unat_gt_0)
  with assms show ?thesis by (simp add: RaftServer_LogTermByIndex_def)
qed

lemma proxy_update_extends:
  assumes "\<And>p. p_dwID (f p) = p_dwID p" "\<And>p. p_stState (f p) = p_stState p"
    and "\<And>p. p_ulNextIndex p = p_ulMatchIndex p + 1 \<Longrightarrow> p_ulNextIndex (f p) = p_ulMatchIndex (f p) + 1"
  shows "extends E s (proxy_update k f s)"
proof -
  have "proxy_ok k (Some (f p))" if "srv_inv s" "om_find k (s_stProxys s) = Some (Some p)" for p
    using srv_inv_find [OF that] assms by (auto simp: proxy_ok_def)
  then show ?thesis
    by (auto simp: proxy_update_def intro!: extends_assign_proxy split: option.split)
qed

section \<open>Reading terms by index\<close>

lemma EntryTermByIndex_present:
  assumes "unat i < length (s_stEntries s)" and "length (s_stEntries s) < 2 ^ 32"
  shows "RaftServer_EntryTermByIndex i s = Inr (sint (en_term (s_stEntries s ! unat i)))"
proof -
  have "unat (i + 1) = unat i + 1"
    using assms by (simp add: unat_word_ariths)
  with assms show ?thesis by (simp add: RaftServer_EntryTermByIndex_def)
qed

text \<open>
  C32. \<open>EntryTermByIndex\<close> on every index: the term of an entry that is there, \<open>-1\<close>
  past the end; but at the largest index the 32-bit sum in its guard wraps to 0, the guard
  passes, and the deque is read out of range. The index comes from the wire
  (\<open>prelogindex\<close>).
\<close>

theorem EntryTermByIndex_cases:
  assumes "length (s_stEntries s) < 2 ^ 32 - 1"
  shows "RaftServer_EntryTermByIndex i s =
    (if unat i < length (s_stEntries s) then Inr (sint (en_term (s_stEntries s ! unat i)))
     else if i = - 1 then Inl OutOfRange
     else Inr (- 1))"
proof (cases "i = - 1")
  case True
  with assms show ?thesis by (simp add: RaftServer_EntryTermByIndex_def unsigned_minus_1_eq_mask mask_eq_exp_minus_1)
next
  case False
  then have "unat (i + 1) = unat i + 1"
    by (metis add.commute add_eq_0_iff2 unatSuc Suc_eq_plus1 minus_equation_iff add_eq_0_iff)
  with False show ?thesis by (simp add: RaftServer_EntryTermByIndex_def)
qed

theorem EntryTermByIndex_cases_witness:
  "RaftServer_EntryTermByIndex 7 calm_server = Inr (- 1)
   \<and> RaftServer_EntryTermByIndex (- 1) calm_server = Inl OutOfRange"
  using EntryTermByIndex_cases [of calm_server 7] EntryTermByIndex_cases [of calm_server "- 1"]
  by (simp add: calm_server_def RaftServer_new_def)

section \<open>The persistent log\<close>

lemma blit_replicate [simp]: "length b = n \<Longrightarrow> blit 0 b (replicate n 0) = b"
  by (simp add: blit_def)

context wire_format
begin

lemma entry_block_eq [simp]: "entry_block W e = ser W e"
  by (simp add: entry_block_def entry_size)

end

lemma cfg_entry_plain [simp]:
  "en_unknown (cfg_entry t h p n) = []" "en_host (cfg_entry t h p n) = h"
  "en_type (cfg_entry t h p n) = CFGADD" "en_nodeid (cfg_entry t h p n) = word_of_int n"
  "en_term (cfg_entry t h p n) = t" "en_port (cfg_entry t h p n) = word_of_int p"
  by (simp_all add: cfg_entry_def entry_SharedCtor_def)

text \<open>
  What \<open>AppendCfgLog\<close> puts into the database, for a host name without zero bytes: the
  entry's bytes followed by whatever lies behind its heap buffer up to the next zero byte,
  because the \<open>Slice\<close> is built from a pointer to a buffer that is not terminated.
\<close>

lemma AppendCfgLog_value:
  assumes "wire_nul_free (e_wire E)" and "ldb_engine (e_entries_db E) cmp"
    and "0 \<notin> set host" and "0 \<in> set (e_after E (s_nAllocs s))"
    and "RaftServer_AppendCfgLog E host port nodeid s = Inr s'"
    and "s_stEntries s' \<noteq> s_stEntries s"
  shows "s_stEntries s' = s_stEntries s @ [cfg_entry (s_dwCurrentTerm s) host port nodeid]
    \<and> ldb_Iter (e_entries_db E) (s_pstEntriesDB s') =
        ldb_ins cmp (to_string (unat (of_nat (length (s_stEntries s)) :: u32)))
          (ser (e_wire E) (cfg_entry (s_dwCurrentTerm s) host port nodeid)
            @ takeWhile (\<lambda>b. b \<noteq> 0) (e_after E (s_nAllocs s)))
          (ldb_Iter (e_entries_db E) (s_pstEntriesDB s))"
proof -
  let ?e = "cfg_entry (s_dwCurrentTerm s) host port nodeid"
  have wf: "wire_format (e_wire E)" using assms(1) by (rule wire_nul_free.axioms)
  have nf: "0 \<notin> set (ser (e_wire E) ?e)"
    using wire_nul_free.entry_nul_free [OF assms(1), of ?e] assms(3) by simp
  from assms(5) show ?thesis
  proof (cases rule: AppendCfgLog_cases)
    case (stored val db)
    have "val = ser (e_wire E) ?e @ takeWhile (\<lambda>b. b \<noteq> 0) (e_after E (s_nAllocs s))"
      using stored(1) nf assms(4) by (simp add: wire_format.entry_block_eq [OF wf] Slice_cstr_extends)
    then show ?thesis
      using stored(2,3) ldb_engine.put_iter [OF assms(2) stored(2)] by simp
  next
    case (failed val db)
    with assms(6) show ?thesis by simp
  qed
qed

lemma AppendCfgLog_calm:
  assumes wf: "wire_nul_free (e_wire E)" and h: "0 \<notin> set host" and aft: "e_after E (s_nAllocs s) = 0 # r"
    and put: "\<And>db k v. fst (ldb_Put (e_entries_db E) db k v)"
  shows "\<exists>s'. RaftServer_AppendCfgLog E host port nodeid s = Inr s'
    \<and> s_stEntries s' = s_stEntries s @ [cfg_entry (s_dwCurrentTerm s) host port nodeid]
    \<and> s_nAllocs s' = s_nAllocs s + 1 \<and> s_dwCurrentTerm s' = s_dwCurrentTerm s"
proof -
  let ?e = "cfg_entry (s_dwCurrentTerm s) host port nodeid"
  have nf: "0 \<notin> set (ser (e_wire E) ?e)"
    using wire_nul_free.entry_nul_free [OF wf, of ?e] h by simp
  have "entry_block (e_wire E) ?e = ser (e_wire E) ?e"
    by (rule wire_format.entry_block_eq) (rule wire_nul_free.axioms [OF wf])
  with put [of "s_pstEntriesDB s" "to_string (unat (of_nat (length (s_stEntries s)) :: u32))" "ser (e_wire E) ?e"]
  show ?thesis
    by (auto simp: RaftServer_AppendCfgLog_def Let_def aft Slice_cstr_terminated [OF nf]
        split: prod.split)
qed

text \<open>On storage that works, the entry that is appended is the entry that is stored.\<close>

lemma AppendCfgLog_stored:
  assumes "wire_nul_free (e_wire E)" and "ldb_engine (e_entries_db E) IndexComparator_Compare"
    and "\<And>db k v. fst (ldb_Put (e_entries_db E) db k v)"
    and "stored E s" and "0 \<notin> set host" and "e_after E (s_nAllocs s) = 0 # r"
    and "length (s_stEntries s) < 2 ^ 31"
  shows "\<exists>s'. RaftServer_AppendCfgLog E host port nodeid s = Inr s' \<and> stored E s'
    \<and> s_stEntries s' = s_stEntries s @ [cfg_entry (s_dwCurrentTerm s) host port nodeid]"
proof -
  let ?e = "cfg_entry (s_dwCurrentTerm s) host port nodeid"
  obtain s' where s': "RaftServer_AppendCfgLog E host port nodeid s = Inr s'"
      "s_stEntries s' = s_stEntries s @ [?e]"
    using AppendCfgLog_calm [OF assms(1,5,6,3)] by blast
  have "unat (of_nat (length (s_stEntries s)) :: u32) = length (s_stEntries s)"
    using assms(7) by (simp add: unat_of_nat)
  then have "stored E s'"
    using AppendCfgLog_value [OF assms(1,2,5) _ s'(1)] s'(2) assms(4,6,7)
      ldb_ins_indexed [of "map (ser (e_wire E)) (s_stEntries s)" "ser (e_wire E) ?e"]
    by (simp add: stored_def)
  with s' show ?thesis by blast
qed

text \<open>The entries that are added on storage that works are in the database, whatever lies behind their blocks.\<close>

lemma AppendCfgLog_durable:
  assumes "RaftServer_AppendCfgLog E h p n s = Inr s'" and "calm_db E" and "storable (s_stEntries s')" and "durable E s"
  shows "durable E s'"
proof -
  let ?e = "cfg_entry (s_dwCurrentTerm s) h p n" and ?a = "e_after E (s_nAllocs s)"
  have c: "wire_nul_free (e_wire E)" "ldb_engine (e_entries_db E) IndexComparator_Compare"
      "\<And>db k v. fst (ldb_Put (e_entries_db E) db k v)"
    using assms(2) by (auto simp: calm_db_def)
  from assms(1) show ?thesis
  proof (cases rule: AppendCfgLog_cases)
    case (stored val db)
    then have h: "0 \<notin> set h" and len: "length (s_stEntries s) < 2 ^ 31"
      using assms(3) by (auto simp: storable_def)
    have "0 \<notin> set (ser (e_wire E) ?e)" using wire_nul_free.entry_nul_free [OF c(1), of ?e] h by simp
    then have z: "0 \<in> set ?a"
      using stored(1) by (auto simp: wire_format.entry_block_eq [OF wire_nul_free.axioms(1) [OF c(1)]] Slice_cstr_def
          split: if_splits)
    obtain ns where ns: "length ns = length (s_stEntries s)" "ldb_Iter (e_entries_db E) (s_pstEntriesDB s) =
        indexed (map2 (\<lambda>e n. ser (e_wire E) e @ junk E n) (s_stEntries s) ns)"
      using assms(4) by (auto simp: durable_def kept_def)
    have u: "unat (of_nat (length (s_stEntries s)) :: u32) = length (s_stEntries s)"
      using len by (simp add: unat_of_nat)
    have "ldb_Iter (e_entries_db E) (s_pstEntriesDB s') =
        indexed (map2 (\<lambda>e n. ser (e_wire E) e @ junk E n) (s_stEntries s @ [?e]) (ns @ [s_nAllocs s]))"
      using AppendCfgLog_value [OF c(1,2) h z assms(1)] stored(3) ns len u
        ldb_ins_indexed [of "map2 (\<lambda>e n. ser (e_wire E) e @ junk E n) (s_stEntries s) ns" "ser (e_wire E) ?e @ junk E (s_nAllocs s)"]
      by (simp add: junk_def)
    then have "kept E s'"
      unfolding kept_def using ns(1) stored(3) by (intro exI [of _ "ns @ [s_nAllocs s]"]) simp
    moreover have "ldb_IterOk (e_entries_db E) (s_pstEntriesDB s')"
      using ldb_engine.put_iter_ok [OF c(2) stored(2)] assms(4) stored(3) by (simp add: durable_def)
    ultimately show ?thesis by (simp add: durable_def)
  next
    case (failed val db)
    with c(3) show ?thesis by (metis fst_conv)
  qed
qed

lemma extends_AppendCfgLog:
  assumes "RaftServer_AppendCfgLog E h p n s = Inr s'"
  shows "extends E s s'"
proof -
  have "s_stRole s' = s_stRole s" "srv_inv s \<longrightarrow> srv_inv s'" "s_stProxys s' = s_stProxys s"
      "\<exists>es. s_stEntries s' = s_stEntries s @ es \<and> list_all cfg_typed es"
    using assms by (elim AppendCfgLog_cases;
        auto simp: srv_inv_def cfg_typed_def entry_entrytype_IsValid_def CFGADD_def)+
  then show ?thesis
    using AppendCfgLog_durable [OF assms] by (auto simp: extends_def)
qed

text \<open>
  C11. \<open>AppendCfgLog\<close> keeps the database equal to the log. With a zero byte right behind
  the heap buffer and a database that accepts the write, it returns, appends one
  \<open>CFGADD\<close> entry of the server's own term to the log, and afterwards the database holds
  exactly the serialised log, in index order, although \<open>10\<close> sorts before \<open>9\<close> as a
  string.
\<close>

theorem AppendCfgLog_keeps_stored:
  assumes "wire_nul_free (e_wire E)" and "ldb_engine (e_entries_db E) IndexComparator_Compare"
    and "\<And>db k v. fst (ldb_Put (e_entries_db E) db k v)"
    and "stored E s" and "0 \<notin> set host" and "e_after E (s_nAllocs s) = 0 # r"
    and "length (s_stEntries s) < 2 ^ 31"
  shows "\<exists>s'. RaftServer_AppendCfgLog E host port nodeid s = Inr s' \<and> stored E s'
    \<and> s_stEntries s' = s_stEntries s @ [cfg_entry (s_dwCurrentTerm s) host port nodeid]"
  by (rule AppendCfgLog_stored [OF assms])

theorem AppendCfgLog_keeps_stored_witness:
  "\<exists>s'. RaftServer_AppendCfgLog calm_env (str ''h'') 80 5 calm_server = Inr s' \<and> stored calm_env s'
     \<and> s_stEntries s' = [cfg_entry 0 (str ''h'') 80 5]"
  using AppendCfgLog_keeps_stored [of calm_env calm_server "str ''h''" "[]" 80 5]
    leb.wire_nul_free_axioms idx.ldb_engine_axioms
  by (simp add: calm_server_simps stored_def str_def of_char_def)

text \<open>
  C39. Without that zero byte the stored log is wrong: when the byte behind the buffer is not
  zero, \<open>AppendCfgLog\<close> stores the entry's bytes followed by foreign memory, and the
  database no longer holds the log.
\<close>

theorem AppendCfgLog_unterminated:
  assumes "wire_nul_free (e_wire E)" and "ldb_engine (e_entries_db E) IndexComparator_Compare"
    and "stored E s" and "0 \<notin> set host"
    and "e_after E (s_nAllocs s) = x # r" and "x \<noteq> 0" and "0 \<in> set r"
    and "length (s_stEntries s) < 2 ^ 31"
    and "RaftServer_AppendCfgLog E host port nodeid s = Inr s'" and "s_stEntries s' \<noteq> s_stEntries s"
  shows "\<not> stored E s'
    \<and> map snd (ldb_Iter (e_entries_db E) (s_pstEntriesDB s')) =
      map (ser (e_wire E)) (s_stEntries s)
      @ [ser (e_wire E) (last (s_stEntries s')) @ x # takeWhile (\<lambda>b. b \<noteq> 0) r]"
proof -
  let ?e = "cfg_entry (s_dwCurrentTerm s) host port nodeid"
  have u: "unat (of_nat (length (s_stEntries s)) :: u32) = length (s_stEntries s)"
    using assms(8) by (simp add: unat_of_nat)
  have s': "s_stEntries s' = s_stEntries s @ [?e]"
      "ldb_Iter (e_entries_db E) (s_pstEntriesDB s') =
        indexed (map (ser (e_wire E)) (s_stEntries s) @ [ser (e_wire E) ?e @ x # takeWhile (\<lambda>b. b \<noteq> 0) r])"
    using AppendCfgLog_value [OF assms(1,2,4) _ assms(9,10)] assms(3,5-8) u
      ldb_ins_indexed [of "map (ser (e_wire E)) (s_stEntries s)"
        "ser (e_wire E) ?e @ x # takeWhile (\<lambda>b. b \<noteq> 0) r"]
    by (simp_all add: stored_def)
  moreover have "\<not> stored E s'"
  proof
    assume "stored E s'"
    then have "map snd (ldb_Iter (e_entries_db E) (s_pstEntriesDB s')) = map (ser (e_wire E)) (s_stEntries s')"
      by (simp add: stored_def)
    with s' show False by simp
  qed
  ultimately show ?thesis by simp
qed

theorem AppendCfgLog_unterminated_witness:
  "\<exists>s'. RaftServer_AppendCfgLog (calm_env\<lparr>e_after := \<lambda>n. [65, 66, 0]\<rparr>) (str ''h'') 80 5 calm_server = Inr s'
     \<and> \<not> stored calm_env s'"
proof -
  let ?E = "calm_env\<lparr>e_after := \<lambda>n. [65, 66, 0]\<rparr>"
  have nf: "0 \<notin> set (str ''h'')" by (simp add: str_def of_char_def)
  have "0 \<notin> set (ser leb_wire (cfg_entry 0 (str ''h'') 80 5))"
    using wire_nul_free.entry_nul_free [OF leb.wire_nul_free_axioms, of "cfg_entry 0 (str ''h'') 80 5"] nf
    by simp
  then obtain s' where s': "RaftServer_AppendCfgLog ?E (str ''h'') 80 5 calm_server = Inr s'"
      "s_stEntries s' \<noteq> []"
    by (auto simp: RaftServer_AppendCfgLog_def calm_server_simps Slice_cstr_extends Let_def)
  have "\<not> stored ?E s'"
    using AppendCfgLog_unterminated [of ?E calm_server "str ''h''" 65 "[66, 0]" 80 5 s'] s' nf
      leb.wire_nul_free_axioms idx.ldb_engine_axioms
    by (simp add: calm_server_simps stored_def)
  with s'(1) show ?thesis by (auto simp: stored_def)
qed

section \<open>Restart\<close>

text \<open>
  What \<open>LoadEntries\<close> reads at a stored entry: \<open>g e\<close>, when that is what 128 bytes from the start of
  the value parse to, whatever is behind the value.
\<close>

definition reads_as :: "'db env \<Rightarrow> nat \<Rightarrow> entry \<Rightarrow> entry \<Rightarrow> bool" where
  "reads_as E n e e' \<longleftrightarrow> 128 \<le> length (ser (e_wire E) e) + length (e_value_after E n)
     \<and> (\<exists>p. entry_MergePartialFromCodedStream (e_wire E) (take 128 (ser (e_wire E) e @ e_value_after E n)) entry_SharedCtor
          = Some p \<and> parsed_msg p = e')"

lemma load_one_value:
  assumes len: "128 \<le> length v + length (e_value_after E (length (s_stEntries s)))"
    and p: "entry_MergePartialFromCodedStream (e_wire E)
      (take 128 (v @ e_value_after E (length (s_stEntries s)))) entry_SharedCtor = Some p"
    and inv: "srv_inv s"
  defines "e \<equiv> parsed_msg p"
  shows "\<exists>s'. load_one E v s = Inr s' \<and> s_stEntries s' = s_stEntries s @ [e]
    \<and> srv_inv s' \<and> s_pstEntriesDB s' = s_pstEntriesDB s
    \<and> (en_type e = CFGADD \<longrightarrow> om_find (en_nodeid e) (s_stProxys s') \<noteq> None)
    \<and> (\<forall>k. om_find k (s_stProxys s) \<noteq> None \<longrightarrow> om_find k (s_stProxys s') \<noteq> None)"
proof -
  obtain s1 where s1: "(if en_type e = CFGADD then RaftServer_AddProxy (en_nodeid e) s else Inr s) = Inr s1"
    using AddProxy_returns [OF inv, of "en_nodeid e"] by fastforce
  have ext: "extends E s s1" and fr: "s_stEntries s1 = s_stEntries s" "s_pstEntriesDB s1 = s_pstEntriesDB s"
    using s1 by (auto simp: frame_simps extends_AddProxy split: if_splits)
  have new: "en_type e = CFGADD \<Longrightarrow> om_find (en_nodeid e) (s_stProxys s1) \<noteq> None"
    using s1 AddProxy_present [of "en_nodeid e" s s1] by auto
  have "load_one E v s = Inr (s1\<lparr>s_stEntries := s_stEntries s1 @ [e]\<rparr>)"
    using len p s1 by (simp add: load_one_def Let_def flip: e_def)
  with ext fr new inv show ?thesis by (auto simp: extends_def srv_inv_def)
qed

lemma load_all_entries:
  assumes rd: "\<And>n e. e \<in> set es \<Longrightarrow> reads_as E n e (g e)"
  shows "srv_inv s \<Longrightarrow> map snd kvs = map (ser (e_wire E)) es \<Longrightarrow>
    \<exists>s'. rfold (\<lambda>(k, v). load_one E v) kvs s = Inr s' \<and> s_stEntries s' = s_stEntries s @ map g es
      \<and> srv_inv s' \<and> s_pstEntriesDB s' = s_pstEntriesDB s
      \<and> (\<forall>e \<in> set es. en_type (g e) = CFGADD \<longrightarrow> om_find (en_nodeid (g e)) (s_stProxys s') \<noteq> None)
      \<and> (\<forall>k. om_find k (s_stProxys s) \<noteq> None \<longrightarrow> om_find k (s_stProxys s') \<noteq> None)"
  using rd
proof (induction es arbitrary: s kvs)
  case (Cons e es)
  from Cons.prems(2) obtain k kvs' where kvs: "kvs = (k, ser (e_wire E) e) # kvs'"
      "map snd kvs' = map (ser (e_wire E)) es" by (cases kvs) auto
  obtain s1 where s1: "load_one E (ser (e_wire E) e) s = Inr s1" "s_stEntries s1 = s_stEntries s @ [g e]"
      "srv_inv s1" "s_pstEntriesDB s1 = s_pstEntriesDB s"
      "en_type (g e) = CFGADD \<longrightarrow> om_find (en_nodeid (g e)) (s_stProxys s1) \<noteq> None"
      "\<forall>k. om_find k (s_stProxys s) \<noteq> None \<longrightarrow> om_find k (s_stProxys s1) \<noteq> None"
    using load_one_value [OF _ _ Cons.prems(1), of "ser (e_wire E) e" E] Cons.prems(3) [of e]
    unfolding reads_as_def by (metis list.set_intros(1))
  obtain s2 where "rfold (\<lambda>(k, v). load_one E v) kvs' s1 = Inr s2" "s_stEntries s2 = s_stEntries s1 @ map g es"
      "srv_inv s2" "s_pstEntriesDB s2 = s_pstEntriesDB s1"
      "\<forall>e \<in> set es. en_type (g e) = CFGADD \<longrightarrow> om_find (en_nodeid (g e)) (s_stProxys s2) \<noteq> None"
      "\<forall>k. om_find k (s_stProxys s1) \<noteq> None \<longrightarrow> om_find k (s_stProxys s2) \<noteq> None"
    using Cons.IH [OF s1(3) kvs(2)] Cons.prems(3) by auto
  with s1 show ?case by (auto simp: kvs(1))
qed simp

text \<open>Over a database that holds the serialised log, a restart gives the log of what is read.\<close>

lemma LoadEntries_reads:
  assumes "stored E s" and "\<And>n e. e \<in> set (s_stEntries s) \<Longrightarrow> reads_as E n e (g e)"
    and "ldb_IterOk (e_entries_db E) (s_pstEntriesDB s)"
    and "RaftServer_new iFd (Some sdb) (Some (s_pstEntriesDB s)) = Inr fresh"
  shows "\<exists>s'. RaftServer_LoadEntries E fresh = Inr s' \<and> s_stEntries s' = map g (s_stEntries s)
    \<and> (\<forall>e \<in> set (s_stEntries s). en_type (g e) = CFGADD \<longrightarrow>
         (\<exists>p. om_find (en_nodeid (g e)) (s_stProxys s') = Some (Some p)))"
proof -
  have fresh: "srv_inv (fresh\<lparr>s_stEntries := []\<rparr>)" "s_pstEntriesDB fresh = s_pstEntriesDB s"
    using assms(4) by (auto simp: RaftServer_new_def srv_inv_def)
  obtain s' where s': "rfold (\<lambda>(k, v). load_one E v)
        (ldb_Iter (e_entries_db E) (s_pstEntriesDB s)) (fresh\<lparr>s_stEntries := []\<rparr>) = Inr s'"
      "s_stEntries s' = map g (s_stEntries s)" "srv_inv s'" "s_pstEntriesDB s' = s_pstEntriesDB s"
      "\<forall>e \<in> set (s_stEntries s). en_type (g e) = CFGADD \<longrightarrow> om_find (en_nodeid (g e)) (s_stProxys s') \<noteq> None"
    using load_all_entries [OF assms(2) fresh(1), of "s_stEntries s" "ldb_Iter (e_entries_db E) (s_pstEntriesDB s)"]
      assms(1) by (auto simp: stored_def fresh(2))
  have "\<exists>p. om_find (en_nodeid (g e)) (s_stProxys s') = Some (Some p)"
    if "e \<in> set (s_stEntries s)" "en_type (g e) = CFGADD" for e
    using s'(5) that srv_inv_find [OF s'(3), of "en_nodeid (g e)"] by auto
  with s' assms(3) fresh(2) show ?thesis by (auto simp: RaftServer_LoadEntries_def)
qed

text \<open>
  A restart recovers the log when memory is kind: every entry plain and shorter than the
  128 bytes that \<open>LoadEntries\<close> parses, and behind every value a zero byte and 127 more bytes
  that can be read.
\<close>

lemma reads_before_zero:
  assumes "wire_format (e_wire E)" and "entry_plain (e_wire E) e" and "length (ser (e_wire E) e) < 128"
    and "e_value_after E n = 0 # r" and "127 \<le> length r"
  shows "reads_as E n e e"
proof -
  let ?v = "ser (e_wire E) e"
  have "take (128 - length ?v) (0 # r) = 0 # take (127 - length ?v) r"
    using assms(3) by (simp add: Suc_diff_le [symmetric] take_Cons')
  then have t: "take 128 (?v @ 0 # r) = ?v @ 0 # take (127 - length ?v) r" using assms(3) by simp
  show ?thesis
    unfolding reads_as_def assms(4) t using assms(2,5) wire_format.entry_then_zero [OF assms(1), of e]
    by (simp add: entry_plain_def)
qed

text \<open>
  It does not when the bytes behind a value go on like a field of the message. Here they encode
  \<open>write_it = v\<close>, which no entry of this program has: every entry comes back with it.
\<close>

lemma LoadEntries_misreads:
  assumes wf: "wire_format (e_wire E)" and "v \<noteq> 0"
    and mem: "\<And>n. \<exists>r. e_value_after E n = WriteUInt32 (e_wire E) 6 v @ 0 # r \<and> 127 \<le> length r"
    and log: "list_all (\<lambda>e. entry_plain (e_wire E) e \<and> en_write_it e = 0
      \<and> length (ser (e_wire E) e @ WriteUInt32 (e_wire E) 6 v) < 128) (s_stEntries s)"
    and "stored E s" and "ldb_IterOk (e_entries_db E) (s_pstEntriesDB s)"
    and "RaftServer_new iFd (Some sdb) (Some (s_pstEntriesDB s)) = Inr fresh"
  shows "\<exists>s'. RaftServer_LoadEntries E fresh = Inr s'
    \<and> s_stEntries s' = map (\<lambda>e. e\<lparr>en_write_it := v\<rparr>) (s_stEntries s)"
proof -
  have "reads_as E n e (e\<lparr>en_write_it := v\<rparr>)" if "e \<in> set (s_stEntries s)" for n e
  proof -
    let ?b = "ser (e_wire E) e @ WriteUInt32 (e_wire E) 6 v"
    obtain r where r: "e_value_after E n = WriteUInt32 (e_wire E) 6 v @ 0 # r" "127 \<le> length r" using mem by blast
    have e: "entry_plain (e_wire E) e" "en_write_it e = 0" "length ?b < 128" using log that by (auto simp: list_all_iff)
    have "take (128 - length ?b) (0 # r) = 0 # take (127 - length ?b) r"
      using e(3) by (simp add: Suc_diff_le [symmetric] take_Cons')
    then have "take 128 (?b @ 0 # r) = ?b @ 0 # take (127 - length ?b) r" using e(3) by (simp del: append_assoc)
    then show ?thesis
      unfolding reads_as_def r(1) using e r(2) wire_format.entry_then_field [OF wf, of e v] assms(2)
      by (simp add: entry_plain_def)
  qed
  then show ?thesis using LoadEntries_reads [OF assms(5) _ assms(6,7)] by blast
qed

text \<open>
  The other side: 128 bytes are parsed whatever the length of the value, so what is behind a value in memory
  decides. When fewer than 128 bytes can be read, the process reads over the end.
\<close>

lemma load_all_over_read:
  assumes "wire_reads (e_wire E)"
  shows "srv_inv s \<Longrightarrow> j < length kvs \<Longrightarrow>
    length (snd (kvs ! j)) + length (e_value_after E (length (s_stEntries s) + j)) < 128 \<Longrightarrow>
    rfold (\<lambda>(k, v). load_one E v) kvs s = Inl OverRead"
proof (induction kvs arbitrary: s j)
  case (Cons kv kvs)
  obtain k v where kv: "kv = (k, v)" by (cases kv)
  show ?case
  proof (cases "128 \<le> length v + length (e_value_after E (length (s_stEntries s)))")
    case True
    then obtain s' where s': "load_one E v s = Inr s'" "srv_inv s'" "length (s_stEntries s') = Suc (length (s_stEntries s))"
      using load_one_value [OF True _ Cons.prems(1)] wire_reads.entry_Merge_returns [OF assms] by fastforce
    with True Cons.prems(2,3) obtain j' where "j = Suc j'" by (cases j) (auto simp: kv)
    with Cons.IH [OF s'(2), of j'] Cons.prems(2,3) s' show ?thesis by (simp add: kv)
  next
    case False
    then show ?thesis by (simp add: kv load_one_def Let_def)
  qed
qed simp

lemma LoadEntries_over_read:
  assumes "wire_reads (e_wire E)" and "RaftServer_new iFd (Some sdb) (Some db) = Inr fresh"
    and "j < length (ldb_Iter (e_entries_db E) db)"
    and "length (snd (ldb_Iter (e_entries_db E) db ! j)) + length (e_value_after E j) < 128"
  shows "RaftServer_LoadEntries E fresh = Inl OverRead"
proof -
  have "srv_inv (fresh\<lparr>s_stEntries := []\<rparr>)" "s_pstEntriesDB fresh = db"
    using assms(2) by (auto simp: RaftServer_new_def srv_inv_def)
  with load_all_over_read [OF assms(1), of "fresh\<lparr>s_stEntries := []\<rparr>" j "ldb_Iter (e_entries_db E) db"] assms(3,4)
  show ?thesis by (simp add: RaftServer_LoadEntries_def)
qed

section \<open>Terms\<close>

text \<open>
  The term is changed only together with its persistent copy: \<open>SetAndPersistTerm\<close>
  either exits the process or leaves the server in the new term, with the decimal term under
  the key \<open>term\<close> of the state database, and everything else as it was.
\<close>

lemma SetAndPersistTerm_persists:
  assumes "ldb_engine (e_state_db E) cmp"
  shows "RaftServer_SetAndPersistTerm E t s = Inl ExitFailure
    \<or> (\<exists>db. RaftServer_SetAndPersistTerm E t s = Inr (s\<lparr>s_pstStateDB := db, s_dwCurrentTerm := t\<rparr>)
         \<and> ldb_Iter (e_state_db E) db = ldb_ins cmp (str ''term'') (to_string (unat t))
             (ldb_Iter (e_state_db E) (s_pstStateDB s)))"
proof -
  obtain ok db where put: "ldb_Put (e_state_db E) (s_pstStateDB s) (str ''term'') (to_string (unat t)) = (ok, db)"
    by fastforce
  show ?thesis
  proof (cases ok)
    case True
    with put have "ldb_Iter (e_state_db E) db = ldb_ins cmp (str ''term'') (to_string (unat t))
        (ldb_Iter (e_state_db E) (s_pstStateDB s))"
      by (intro ldb_engine.put_iter [OF assms]) simp
    with True put show ?thesis by (auto simp: RaftServer_SetAndPersistTerm_def)
  next
    case False
    with put show ?thesis by (simp add: RaftServer_SetAndPersistTerm_def)
  qed
qed

section \<open>The commit index\<close>

definition acks :: "u64 \<Rightarrow> (u32, RaftProxy option) omap \<Rightarrow> nat" where
  "acks bound ps = length (filter (\<lambda>(k, v).
     case v of None \<Rightarrow> False | Some p \<Rightarrow> bound \<le> p_ulMatchIndex p) ps)"

lemma count_proxies_rfold:
  "\<forall>(k, v) \<in> set ps. v \<noteq> None \<Longrightarrow>
   rfold (\<lambda>(k, p) n. case p of None \<Rightarrow> Inl NullDeref
         | Some p \<Rightarrow> Inr (if p_ulMatchIndex p \<ge> bound then n + 1 else n)) ps m = Inr (m + acks bound ps)"
  by (induction ps arbitrary: m) (auto simp: acks_def)

lemma count_proxies_acks:
  assumes "srv_inv s"
  shows "count_proxies bound (s_stProxys s) = Inr (acks bound (s_stProxys s))"
proof -
  have "v \<noteq> None" if "(k, v) \<in> set (s_stProxys s)" for k v
    using that assms srv_inv_find [OF assms, of k v] om.elements_find [of "s_stProxys s" k v]
    by (auto simp: srv_inv_def)
  then show ?thesis using count_proxies_rfold [of "s_stProxys s" bound 0] by (auto simp: count_proxies_def)
qed

lemma ChangeCommitIndex_eq:
  assumes "srv_inv s"
  defines "nxt \<equiv> s_dwCommitIndex s + 1"
  shows "RaftServer_ChangeCommitIndex s =
    (if length (s_stProxys s) < 2 * acks (ucast nxt) (s_stProxys s) then
       (if length (s_stEntries s) \<le> unat nxt then Inl OutOfRange
        else if en_term (s_stEntries s ! unat nxt) = s_dwCurrentTerm s
        then Inr (True, s\<lparr>s_dwCommitIndex := nxt\<rparr>)
        else Inr (False, s))
     else Inr (False, s))"
proof -
  have "(acks (ucast nxt) (s_stProxys s) \<ge> length (s_stProxys s) div 2 + 1) =
      (length (s_stProxys s) < 2 * acks (ucast nxt) (s_stProxys s))"
    by linarith
  then show ?thesis
    using count_proxies_acks [OF assms(1), of "ucast nxt"]
    by (simp add: RaftServer_ChangeCommitIndex_def RaftServer_ProxysNum_def Let_def nxt_def not_less)
qed

text \<open>
  C8. The commit rule, on every branch. On a server that satisfies its invariant,
  \<open>ChangeCommitIndex\<close> advances the commit index, by one, exactly when more than half of
  the proxies have acknowledged the next index and the entry there is of the current term;
  it reads outside the log (undefined behaviour) when that majority has acknowledged an index
  that the log does not have; otherwise it changes nothing.
\<close>

theorem ChangeCommitIndex_rule:
  assumes "srv_inv s"
  defines "nxt \<equiv> s_dwCommitIndex s + 1"
  shows "RaftServer_ChangeCommitIndex s =
    (if length (s_stProxys s) < 2 * acks (ucast nxt) (s_stProxys s) then
       (if length (s_stEntries s) \<le> unat nxt then Inl OutOfRange
        else if en_term (s_stEntries s ! unat nxt) = s_dwCurrentTerm s
        then Inr (True, s\<lparr>s_dwCommitIndex := nxt\<rparr>)
        else Inr (False, s))
     else Inr (False, s))"
  unfolding nxt_def by (rule ChangeCommitIndex_eq [OF assms(1)])

theorem ChangeCommitIndex_rule_witness:
  "let p = (RaftProxy_new 5)\<lparr>p_ulMatchIndex := 1, p_ulNextIndex := 2\<rparr>; e = cfg_entry 0 [] 80 5;
       s = calm_server\<lparr>s_stProxys := [(5, Some p)], s_stEntries := [e, e]\<rparr> in
   RaftServer_ChangeCommitIndex s = Inr (True, s\<lparr>s_dwCommitIndex := 1\<rparr>)"
proof -
  let ?p = "(RaftProxy_new 5)\<lparr>p_ulMatchIndex := 1, p_ulNextIndex := 2\<rparr>"
  let ?s = "calm_server\<lparr>s_stProxys := [(5, Some ?p)],
    s_stEntries := [cfg_entry 0 [] 80 5, cfg_entry 0 [] 80 5]\<rparr>"
  have "srv_inv ?s"
    by (auto simp: srv_inv_def calm_server_simps proxy_ok_def RaftProxy_new_def om_ok_def split: if_splits)
  from ChangeCommitIndex_rule [OF this] show ?thesis
    by (simp add: calm_server_simps acks_def)
qed

section \<open>Applying committed entries\<close>

text \<open>
  \<open>TryApplyLogToFSM\<close> never applies a committed entry: its test is
  \<open>m_dwLastApplied_ > m_dwCommitIndex_\<close>, so on a server that has applied no more than it
  has committed, it returns false and changes nothing, however far the commit index is
  ahead.
\<close>

lemma TryApply_never_applies:
  assumes "s_dwLastApplied s \<le> s_dwCommitIndex s"
  shows "RaftServer_TryApplyLogToFSM s = Inr (False, s)"
  using assms by (simp add: RaftServer_TryApplyLogToFSM_def)

end
