(* ===== verification/Net_Conn.thy ===== *)
theory Net_Conn
  imports Net_Buffer Raft_Log
begin

text \<open>
  \<open>net/Conn.cpp\<close> without the receive callback: life and death of connection objects,
  the outgoing messages, the forwarding calls into the server (\<open>Server_*\<close>) and to the
  proxy (\<open>Proxy_*\<close>), and the operations of \<open>RaftServer\<close> and \<open>RaftProxy\<close> that
  use connections.

  The state is a \<open>world\<close>: the server, the connection objects by address, the addresses
  that a local \<open>shared_ptr\<close> of a running function keeps alive, and the system calls made
  so far. A connection is owned by \<open>m_stConns_\<close> and by such locals; it is destroyed when
  the last owner lets go. Using a destroyed object is the stop \<open>UseAfterFree\<close>.
\<close>

section \<open>The world\<close>

record 'db world =
  w_server :: "'db RaftServer"
  w_alive :: bool                  \<comment> \<open>whether \<open>m_pstServer_.lock()\<close> succeeds\<close>
  w_conns :: "nat \<Rightarrow> Conn option"
  w_next :: nat                    \<comment> \<open>the next fresh address\<close>
  w_pins :: "nat list"
  w_trace :: "effect list"

text \<open>The world around a new server.\<close>

definition new_world :: "'db RaftServer \<Rightarrow> 'db world" where
  "new_world s = \<lparr>w_server = s, w_alive = True, w_conns = (\<lambda>c. None), w_next = 0, w_pins = [],
     w_trace = []\<rparr>"

definition with_conn :: "nat \<Rightarrow> 'db world \<Rightarrow> (Conn \<Rightarrow> 'a res) \<Rightarrow> 'a res" where
  "with_conn c w f = (case w_conns w c of None \<Rightarrow> Inl UseAfterFree | Some x \<Rightarrow> f x)"

definition set_conn :: "nat \<Rightarrow> Conn \<Rightarrow> 'db world \<Rightarrow> 'db world" where
  "set_conn c x w = w\<lparr>w_conns := (w_conns w)(c \<mapsto> x)\<rparr>"

definition emit :: "effect list \<Rightarrow> 'db world \<Rightarrow> 'db world" where
  "emit eff w = w\<lparr>w_trace := w_trace w @ eff\<rparr>"

definition upd_server :: "('db RaftServer \<Rightarrow> 'db RaftServer) \<Rightarrow> 'db world \<Rightarrow> 'db world" where
  "upd_server f w = w\<lparr>w_server := f (w_server w)\<rparr>"

text \<open>A forwarded call on the server: nothing happens when the server is gone.\<close>

definition on_server :: "('db RaftServer \<Rightarrow> 'db RaftServer res) \<Rightarrow> 'db world \<Rightarrow> 'db world res" where
  "on_server f w = (if w_alive w then rbind (f (w_server w)) (\<lambda>s. Inr (w\<lparr>w_server := s\<rparr>)) else Inr w)"

definition ask_server :: "'a \<Rightarrow> ('db RaftServer \<Rightarrow> 'a) \<Rightarrow> 'db world \<Rightarrow> 'a" where
  "ask_server d f w = (if w_alive w then f (w_server w) else d)"

text \<open>A call on the channel of a connection.\<close>

definition Conn_channel :: "nat \<Rightarrow> (Channel \<Rightarrow> Channel \<times> effect list) \<Rightarrow> 'db world \<Rightarrow> 'db world res" where
  "Conn_channel c f w = with_conn c w (\<lambda>x.
     let (ch, eff) = f (cn_pstChannel x) in Inr (emit eff (set_conn c (x\<lparr>cn_pstChannel := ch\<rparr>) w)))"

section \<open>Life and death\<close>

definition Conn_new :: "int \<Rightarrow> 'db world \<Rightarrow> nat \<times> 'db world" where
  "Conn_new iFd w =
     (let ch = (Channel_new iFd True False)\<lparr>ch_stReadCallback := Some Bind_RecvCallback,
                 ch_stWriteCallback := Some Bind_SendCallback,
                 ch_stCloseCallback := Some Bind_CloseCallback\<rparr>;
          (ch, eff1) = Channel_DisableWrite ch;
          (ch, eff2) = Channel_EnableRead ch;
          x = \<lparr>cn_iFd = iFd, cn_stInBuffer = replicate BUFSIZE 0, cn_stOutBuffer = replicate BUFSIZE 0,
               cn_pstChannel = ch, cn_pstMod = None, cn_iInBufferSize = 0, cn_iOutBufferSize = 0,
               cn_pstProxy = None, cn_iRaftPort = 0, cn_strAddr = [], cn_iJoinPort = 0,
               cn_strJoinAddr = [], cn_iNodeID = None\<rparr>
      in (w_next w, emit (eff1 @ eff2) (set_conn (w_next w) x w)\<lparr>w_next := w_next w + 1\<rparr>))"

definition Conn_destroy :: "nat \<Rightarrow> 'db world \<Rightarrow> 'db world" where
  "Conn_destroy c w =
     (case w_conns w c of None \<Rightarrow> w | Some x \<Rightarrow>
        let w = (if cn_iFd x > 0 then emit [CloseCall (cn_iFd x)] w else w) in
        w\<lparr>w_conns := (w_conns w)(c := None)\<rparr>)"

definition owned :: "'db world \<Rightarrow> nat \<Rightarrow> bool" where
  "owned w c \<longleftrightarrow> c \<in> set (w_pins w) \<or> c \<in> snd ` set (s_stConns (w_server w))"

text \<open>A \<open>shared_ptr\<close> to \<open>c\<close> goes away.\<close>

definition release :: "nat \<Rightarrow> 'db world \<Rightarrow> 'db world" where
  "release c w = (if owned w c then w else Conn_destroy c w)"

definition Conn_Init :: "nat \<Rightarrow> 'db world \<Rightarrow> 'db world res" where
  "Conn_Init c w = with_conn c w (\<lambda>x.
     if Channel_IsInit (cn_pstChannel x)
     then Inr (set_conn c (x\<lparr>cn_pstChannel := Channel_Tie (Tied_Conn c) (cn_pstChannel x),
                             cn_pstMod := Some c\<rparr>) w)
     else Inr w)"

definition Conn_EnableWrite :: "nat \<Rightarrow> 'db world \<Rightarrow> 'db world res" where
  "Conn_EnableWrite c w = Conn_channel c Channel_EnableWrite w"

definition Conn_DisableWrite :: "nat \<Rightarrow> 'db world \<Rightarrow> 'db world res" where
  "Conn_DisableWrite c w = Conn_channel c Channel_DisableWrite w"

text \<open>
  \<open>OfflineConn\<close> erases the map element, which drops its \<open>shared_ptr\<close>: unless the
  connection is pinned, its destructor runs here.
\<close>

definition OfflineConn :: "int \<Rightarrow> 'db world \<Rightarrow> 'db world res" where
  "OfflineConn iFd w =
     rbind (RaftServer_OfflineConn iFd (w_server w)) (\<lambda>s.
       case om_find iFd (s_stConns (w_server w)) of
         None \<Rightarrow> Inl InvalidErase
       | Some c \<Rightarrow> Inr (release c (w\<lparr>w_server := s\<rparr>)))"

definition Conn_CloseCallback :: "nat \<Rightarrow> 'db world \<Rightarrow> 'db world res" where
  "Conn_CloseCallback c w =
     (if \<not> w_alive w then Inr w
      else rbind (Conn_channel c Channel_DisableAll w) (\<lambda>w.
        with_conn c w (\<lambda>x. OfflineConn (cn_iFd x) (emit [CloseCall (cn_iFd x)] w))))"

definition Conn_Server_CloseConn :: "nat \<Rightarrow> int \<Rightarrow> 'db world \<Rightarrow> 'db world res" where
  "Conn_Server_CloseConn c iFd w =
     (if \<not> w_alive w then Inr w
      else rbind (Conn_channel c Channel_DisableAll w) (\<lambda>w.
        OfflineConn iFd (emit [CloseCall iFd] w)))"

section \<open>Outgoing frames\<close>

definition frame :: "wire \<Rightarrow> u16 \<Rightarrow> Message \<Rightarrow> bytes" where
  "frame W dwMsgID m = le16 dwMsgID @ le32 (of_nat (Message_ByteSize W m)) @ Message_Serialize W m"

text \<open>
  The statements that \<open>Conn::SendHandShakeQ\<close>, \<open>Conn::SendAppendEntries\<close> and
  \<open>Mod::HandlePreSendMsg\<close> share: two header fields and the message behind the bytes in
  the out buffer, the new size (computed in \<open>uint32_t\<close>), one \<open>send\<close> of the whole
  buffer, and the rest moved to the front.
\<close>

definition push_frame :: "wire \<Rightarrow> u16 \<Rightarrow> Message \<Rightarrow> Conn \<Rightarrow> Conn res" where
  "push_frame W dwMsgID m x =
     (let dwLen = of_nat (Message_ByteSize W m) :: u32; sz = cn_iOutBufferSize x in
      rbind (buf_write sz (le16 dwMsgID) (cn_stOutBuffer x)) (\<lambda>buf.
      rbind (buf_write (sz + 2) (le32 dwLen) buf) (\<lambda>buf.
      rbind (buf_write (sz + 6) (Message_Serialize W m) buf) (\<lambda>buf.
      Inr (x\<lparr>cn_stOutBuffer := buf,
             cn_iOutBufferSize := sint (word_of_int (sz + 6) + dwLen)\<rparr>)))))"

definition flush_out :: "'db env \<Rightarrow> nat \<Rightarrow> Conn \<Rightarrow> 'db world \<Rightarrow> 'db world res" where
  "flush_out E c x w =
     (let bs = take (nat (cn_iOutBufferSize x)) (cn_stOutBuffer x);
          iSended = e_send E (length (w_trace w)) (cn_iFd x) bs;
          w = emit [SendCall (cn_iFd x) bs iSended] w in
      if iSended > 0 then
        rbind (out_consume (e_memcpy_down E) iSended x) (\<lambda>x. Inr (set_conn c x w))
      else Inr (set_conn c x w))"

definition send_frame :: "'db env \<Rightarrow> nat \<Rightarrow> u16 \<Rightarrow> Message \<Rightarrow> 'db world \<Rightarrow> 'db world res" where
  "send_frame E c dwMsgID m w = with_conn c w (\<lambda>x.
     rbind (push_frame (e_wire E) dwMsgID m x) (\<lambda>x. flush_out E c x w))"

definition Conn_SendHandShakeQ :: "'db env \<Rightarrow> nat \<Rightarrow> 'db world \<Rightarrow> 'db world res" where
  "Conn_SendHandShakeQ E c w = with_conn c w (\<lambda>x.
     case cn_iNodeID x of
       None \<Rightarrow> Inl UninitRead
     | Some iNodeID \<Rightarrow>
         send_frame E c 257 (M_handshake_q (handshake_q_SharedCtor\<lparr>
           hq_raftport := word_of_int (cn_iRaftPort x), hq_nodeid := word_of_int iNodeID\<rparr>)) w)"

text \<open>The message that \<open>SendAppendEntries\<close> builds for a proxy.\<close>

definition build_appendentries :: "'db RaftServer \<Rightarrow> RaftProxy \<Rightarrow> appendentries_q res" where
  "build_appendentries s p =
     (let prev = ucast (p_ulNextIndex p - 1) :: u32 in
      rbind (RaftServer_EntryTermByIndex prev s) (\<lambda>iResult.
        let dwTerm = (if iResult \<noteq> - 1 then word_of_int iResult else 0);
            stMessage = appendentries_q_SharedCtor\<lparr>aq_term := s_dwCurrentTerm s, aq_prelogindex := prev,
              aq_prelogterm := dwTerm, aq_leadercommit := s_dwCommitIndex s\<rparr> in
        if RaftServer_LastEntryIndex s \<ge> p_ulNextIndex p then
          rbind (if p_ulNextIndex p - 1 = 0
                 then rbind (RaftServer_EntryByIndex 0 entry_SharedCtor s) (\<lambda>e. Inr [e]) else Inr [])
            (\<lambda>first.
          rbind (RaftServer_EntryByIndex (ucast (p_ulNextIndex p)) entry_SharedCtor s) (\<lambda>e.
            Inr (stMessage\<lparr>aq_entries := first @ [e]\<rparr>)))
        else Inr stMessage))"

definition Conn_SendAppendEntries ::
  "'db env \<Rightarrow> nat \<Rightarrow> bool \<Rightarrow> bool \<Rightarrow> 'db world \<Rightarrow> 'db world res" where
  "Conn_SendAppendEntries E c bIsHeart bIsCfg w =
     (if \<not> w_alive w then Inr w
      else with_conn c w (\<lambda>x.
        case proxy_lock (w_server w) (cn_pstProxy x) of
          None \<Rightarrow> Inr w
        | Some p \<Rightarrow>
            rbind (build_appendentries (w_server w) p) (\<lambda>m.
              send_frame E c 259 (M_appendentries_q m) w)))"

section \<open>Writable sockets\<close>

definition Conn_SendCallback :: "'db env \<Rightarrow> nat \<Rightarrow> 'db world \<Rightarrow> 'db world res" where
  "Conn_SendCallback E c w =
     (if \<not> w_alive w then Inr w
      else with_conn c w (\<lambda>x.
        if cn_iOutBufferSize x \<le> 0 then Inr w
        else
          let bs = take (nat (cn_iOutBufferSize x)) (cn_stOutBuffer x);
              iSended = e_send E (length (w_trace w)) (cn_iFd x) bs;
              w = emit [SendCall (cn_iFd x) bs iSended] w in
          if iSended > 0 then
            let iLeftSize = cn_iOutBufferSize x - iSended; x = x\<lparr>cn_iOutBufferSize := iLeftSize\<rparr> in
            if iLeftSize = 0 then Conn_DisableWrite c (set_conn c x w)
            else if iLeftSize > 0 then
              rbind (buf_down (e_memcpy_down E) iSended iLeftSize (cn_stOutBuffer x)) (\<lambda>buf.
                Inr (set_conn c (x\<lparr>cn_stOutBuffer := buf\<rparr>) w))
            else Inr (set_conn c x w)
          else Inr w))"

text \<open>
  Connecting to a peer. The result of \<open>connect\<close> is an argument: done, in progress, or
  failed. \<open>AcceptedCallback\<close> runs when the socket becomes writable.
\<close>

datatype connect_result = Connected | InProgress | ConnectFailed

definition Conn_TryConnect ::
  "connect_result \<Rightarrow> nat \<Rightarrow> bytes \<Rightarrow> int \<Rightarrow> int \<Rightarrow> int \<Rightarrow> 'db world \<Rightarrow> 'db world res" where
  "Conn_TryConnect r c szAddress iPort iNodeID iRaftPort w = with_conn c w (\<lambda>x.
     let w = emit [ConnectCall (cn_iFd x)] w in
     case r of
       InProgress \<Rightarrow>
         let x = x\<lparr>cn_iJoinPort := iPort, cn_strJoinAddr := szAddress, cn_iNodeID := Some iNodeID,
                   cn_iRaftPort := iRaftPort,
                   cn_pstChannel := (cn_pstChannel x)\<lparr>ch_stWriteCallback := Some Bind_AcceptedCallback\<rparr>\<rparr>
         in Conn_channel c Channel_EnableWrite (set_conn c x w)
     | _ \<Rightarrow> Inr w)"

definition Conn_AcceptedCallback :: "'db env \<Rightarrow> connect_result \<Rightarrow> nat \<Rightarrow> 'db world \<Rightarrow> 'db world res" where
  "Conn_AcceptedCallback E r c w =
     (if \<not> w_alive w then Inr w
      else rbind (Conn_channel c Channel_DisableWrite w) (\<lambda>w. with_conn c w (\<lambda>x.
        let w = emit [ConnectCall (cn_iFd x)] w in
        if r = Connected then
          let ch = (cn_pstChannel x)\<lparr>ch_stReadCallback := Some Bind_RecvCallback,
                     ch_stWriteCallback := Some Bind_SendCallback,
                     ch_stCloseCallback := Some Bind_CloseCallback\<rparr> in
          rbind (Conn_channel c Channel_EnableRead (set_conn c (x\<lparr>cn_pstChannel := ch\<rparr>) w)) (\<lambda>w.
            Conn_SendHandShakeQ E c w)
        else Inr w)))"

section \<open>Proxies and broadcasts\<close>

definition RaftProxy_Tie :: "nat \<Rightarrow> int \<Rightarrow> RaftProxy \<Rightarrow> RaftProxy" where
  "RaftProxy_Tie c iFd p = p\<lparr>p_pstConn := Some c, p_iConnFd := iFd\<rparr>"

text \<open>\<open>m_pstConn_.lock()\<close>: the address of a connection that still exists.\<close>

definition conn_lock :: "'db world \<Rightarrow> nat option \<Rightarrow> nat option" where
  "conn_lock w p = (case p of None \<Rightarrow> None | Some c \<Rightarrow> if w_conns w c = None then None else Some c)"

definition RaftProxy_SendAppendEntries :: "'db env \<Rightarrow> RaftProxy \<Rightarrow> bool \<Rightarrow> 'db world \<Rightarrow> 'db world res" where
  "RaftProxy_SendAppendEntries E p bIsHeart w =
     (case conn_lock w (p_pstConn p) of
        None \<Rightarrow> Inr w
      | Some c \<Rightarrow> Conn_SendAppendEntries E c bIsHeart False w)"

definition RaftProxy_ConnHost :: "RaftProxy \<Rightarrow> 'db world \<Rightarrow> bytes" where
  "RaftProxy_ConnHost p w =
     (case conn_lock w (p_pstConn p) of
        None \<Rightarrow> []
      | Some c \<Rightarrow> (case w_conns w c of None \<Rightarrow> [] | Some x \<Rightarrow> cn_strAddr x))"

definition RaftServer_LeaderHost :: "'db world \<Rightarrow> bytes" where
  "RaftServer_LeaderHost w =
     (case proxy_lock (w_server w) (s_pstLeader (w_server w)) of
        None \<Rightarrow> [] | Some p \<Rightarrow> RaftProxy_ConnHost p w)"

text \<open>A loop over the proxies: the keys are fixed, each proxy is looked at when its turn comes.\<close>

definition for_proxies ::
  "(u32 \<Rightarrow> RaftProxy \<Rightarrow> 'db world \<Rightarrow> 'db world res) \<Rightarrow> 'db world \<Rightarrow> 'db world res" where
  "for_proxies f w =
     rfold (\<lambda>k w. case om_find k (s_stProxys (w_server w)) of
         Some (Some p) \<Rightarrow> f k p w | _ \<Rightarrow> Inl NullDeref)
       (map fst (s_stProxys (w_server w))) w"

definition RaftServer_BroadCastAppendEntries :: "'db env \<Rightarrow> bool \<Rightarrow> 'db world \<Rightarrow> 'db world res" where
  "RaftServer_BroadCastAppendEntries E bIsHeart w =
     for_proxies (\<lambda>k p w. if p_stState p = InActive then Inr w
                          else RaftProxy_SendAppendEntries E p bIsHeart w) w"

text \<open>Asking for votes is not written yet: the function only prints a line.\<close>

definition RaftServer_BroadCastRequestVote :: "'db world \<Rightarrow> 'db world" where
  "RaftServer_BroadCastRequestVote w = w"

definition RaftServer_BecomeLeader :: "'db env \<Rightarrow> 'db world \<Rightarrow> 'db world res" where
  "RaftServer_BecomeLeader E w =
     for_proxies (\<lambda>k p w.
         if p_stState p \<noteq> InActive then Inr w
         else
           let next = RaftServer_LastLogIndex (w_server w) + 1;
               w = upd_server (proxy_update k (\<lambda>p. p\<lparr>p_ulNextIndex := next, p_ulMatchIndex := 0\<rparr>)) w in
           RaftProxy_SendAppendEntries E (p\<lparr>p_ulNextIndex := next, p_ulMatchIndex := 0\<rparr>) True w)
       (upd_server (\<lambda>s. s\<lparr>s_stRole := Leader\<rparr>) w)"

section \<open>Calls forwarded to the server and the proxy\<close>

definition Conn_Tie :: "nat \<Rightarrow> u32 \<Rightarrow> 'db world \<Rightarrow> 'db world res" where
  "Conn_Tie c dwID w =
     (if \<not> w_alive w then Inr w
      else with_conn c w (\<lambda>x.
        let (proxy, s) = RaftServer_GetProxyByID dwID (w_server w);
            w = set_conn c (x\<lparr>cn_pstProxy := Some proxy\<rparr>) (w\<lparr>w_server := s\<rparr>) in
        case proxy_lock (w_server w) (Some proxy) of
          None \<Rightarrow> Inr w
        | Some p \<Rightarrow> Inr (upd_server (proxy_update proxy (RaftProxy_Tie c (cn_iFd x))) w)))"

definition Conn_ProxyConnFd :: "u32 \<Rightarrow> 'db world \<Rightarrow> int res" where
  "Conn_ProxyConnFd dwID w = ask_server (Inr (- 1)) (RaftServer_ProxyConnFd dwID) w"

definition Conn_Server_AddProxy :: "u32 \<Rightarrow> 'db world \<Rightarrow> 'db world res" where
  "Conn_Server_AddProxy dwID w = on_server (RaftServer_AddProxy dwID) w"

definition Conn_Server_IsCandidate :: "'db world \<Rightarrow> bool" where
  "Conn_Server_IsCandidate w = ask_server False (\<lambda>s. s_stRole s = Candidate) w"

definition Conn_Server_IsLeader :: "'db world \<Rightarrow> bool" where
  "Conn_Server_IsLeader w = ask_server False (\<lambda>s. s_stRole s = Leader) w"

definition Conn_Server_BecomeFollower :: "'db world \<Rightarrow> 'db world res" where
  "Conn_Server_BecomeFollower w = on_server (\<lambda>s. Inr (RaftServer_BecomeFollower s)) w"

definition Conn_Server_CurrentTerm :: "'db world \<Rightarrow> u32" where
  "Conn_Server_CurrentTerm w = ask_server 0 s_dwCurrentTerm w"

definition Conn_Server_SetTerm :: "'db env \<Rightarrow> u32 \<Rightarrow> 'db world \<Rightarrow> 'db world res" where
  "Conn_Server_SetTerm E dwTerm w = on_server (RaftServer_SetAndPersistTerm E dwTerm) w"

definition Conn_Server_SetLeader :: "nat \<Rightarrow> 'db world \<Rightarrow> 'db world res" where
  "Conn_Server_SetLeader c w =
     (if \<not> w_alive w then Inr w
      else with_conn c w (\<lambda>x.
        case (cn_pstProxy x, proxy_lock (w_server w) (cn_pstProxy x)) of
          (Some k, Some p) \<Rightarrow> Inr (upd_server (RaftServer_SetLeader k) w)
        | _ \<Rightarrow> Inr w))"

definition Conn_Server_LogTermByIndex :: "u32 \<Rightarrow> 'db world \<Rightarrow> int res" where
  "Conn_Server_LogTermByIndex dwIndex w = ask_server (Inr (- 1)) (RaftServer_LogTermByIndex dwIndex) w"

definition Conn_Server_EntryTermByIndex :: "u32 \<Rightarrow> 'db world \<Rightarrow> int res" where
  "Conn_Server_EntryTermByIndex dwIndex w = ask_server (Inr (- 1)) (RaftServer_EntryTermByIndex dwIndex) w"

definition Conn_Server_CommitIndex :: "'db world \<Rightarrow> u32" where
  "Conn_Server_CommitIndex w = ask_server 0 s_dwCommitIndex w"

definition Conn_Server_DelLogsFromIndex :: "'db env \<Rightarrow> u32 \<Rightarrow> 'db world \<Rightarrow> 'db world res" where
  "Conn_Server_DelLogsFromIndex E dwIndex w =
     on_server (\<lambda>s. Inr (RaftServer_DelLogsFromIndex E dwIndex s)) w"

definition Conn_Server_AppendLog :: "u32 \<Rightarrow> u32 \<Rightarrow> u32 \<Rightarrow> 'db world \<Rightarrow> 'db world res" where
  "Conn_Server_AppendLog dwIndex dwTerm dwWriteIt w =
     on_server (\<lambda>s. Inr (RaftServer_AppendLog dwIndex dwTerm dwWriteIt s)) w"

definition Conn_Server_SetCommitIndex :: "u32 \<Rightarrow> 'db world \<Rightarrow> 'db world res" where
  "Conn_Server_SetCommitIndex dwIndex w = on_server (\<lambda>s. Inr (RaftServer_SetCommitIndex dwIndex s)) w"

definition Conn_Server_AppendCfgLog :: "'db env \<Rightarrow> bytes \<Rightarrow> int \<Rightarrow> int \<Rightarrow> 'db world \<Rightarrow> 'db world res" where
  "Conn_Server_AppendCfgLog E strHost iRaftPort iNodeId w =
     on_server (RaftServer_AppendCfgLog E strHost iRaftPort iNodeId) w"

definition Conn_Server_LeaderHost :: "'db world \<Rightarrow> bytes" where
  "Conn_Server_LeaderHost w = (if w_alive w then RaftServer_LeaderHost w else [])"

definition Conn_Server_BroadCastAppendEntries :: "'db env \<Rightarrow> 'db world \<Rightarrow> 'db world res" where
  "Conn_Server_BroadCastAppendEntries E w =
     (if w_alive w then RaftServer_BroadCastAppendEntries E False w else Inr w)"

definition Conn_Server_FreshTime :: "int \<Rightarrow> 'db world \<Rightarrow> 'db world res" where
  "Conn_Server_FreshTime iTimer w =
     (if w_alive w then
        let (s, eff) = RaftServer_FreshTime iTimer (w_server w) in Inr (emit eff (w\<lparr>w_server := s\<rparr>))
      else Inr w)"

definition Conn_Server_IncrCommitIndex :: "'db world \<Rightarrow> 'db world res" where
  "Conn_Server_IncrCommitIndex w =
     on_server (\<lambda>s. Inr (RaftServer_SetCommitIndex (s_dwCommitIndex s + 1) s)) w"

definition Conn_Server_ChangeCommitIndex :: "'db world \<Rightarrow> (bool \<times> 'db world) res" where
  "Conn_Server_ChangeCommitIndex w =
     (if w_alive w then
        rbind (RaftServer_ChangeCommitIndex (w_server w)) (\<lambda>(b, s). Inr (b, w\<lparr>w_server := s\<rparr>))
      else Inr (False, w))"

text \<open>The proxy a connection is tied to, changed in place.\<close>

definition Conn_Proxy :: "nat \<Rightarrow> (RaftProxy \<Rightarrow> RaftProxy) \<Rightarrow> 'db world \<Rightarrow> 'db world res" where
  "Conn_Proxy c f w =
     (if \<not> w_alive w then Inr w
      else with_conn c w (\<lambda>x.
        case cn_pstProxy x of None \<Rightarrow> Inr w | Some k \<Rightarrow> Inr (upd_server (proxy_update k f) w)))"

definition Conn_Proxy_SetMatchIndex :: "nat \<Rightarrow> u32 \<Rightarrow> 'db world \<Rightarrow> 'db world res" where
  "Conn_Proxy_SetMatchIndex c dwIndex w = Conn_Proxy c (\<lambda>p. p\<lparr>p_ulMatchIndex := ucast dwIndex\<rparr>) w"

definition Conn_Proxy_SetNextIndex :: "nat \<Rightarrow> u32 \<Rightarrow> 'db world \<Rightarrow> 'db world res" where
  "Conn_Proxy_SetNextIndex c dwIndex w = Conn_Proxy c (\<lambda>p. p\<lparr>p_ulNextIndex := ucast dwIndex\<rparr>) w"

definition Conn_Proxy_IncrMatchIndex :: "nat \<Rightarrow> 'db world \<Rightarrow> 'db world res" where
  "Conn_Proxy_IncrMatchIndex c w = Conn_Proxy c (\<lambda>p. p\<lparr>p_ulMatchIndex := p_ulMatchIndex p + 1\<rparr>) w"

definition Conn_Proxy_IncrNextIndex :: "nat \<Rightarrow> 'db world \<Rightarrow> 'db world res" where
  "Conn_Proxy_IncrNextIndex c w = Conn_Proxy c (\<lambda>p. p\<lparr>p_ulNextIndex := p_ulNextIndex p + 1\<rparr>) w"

end
