(* ===== verification/Mod_Api.thy ===== *)
theory Mod_Api
  imports Net_Conn
begin

text \<open>
  \<open>mod/ModApi.hpp\<close> and the sending half of \<open>mod/Mod.cpp\<close>: the handlers of the five
  message types, each on the connection \<open>c\<close> that the message came from. The
  \<open>shared_ptr\<close> a handler locks is to a connection that its caller
  \<open>Mod::HandleArrivedMsg\<close> keeps alive already.
\<close>

definition Mod_HandlePreSendMsg :: "'db env \<Rightarrow> nat \<Rightarrow> u16 \<Rightarrow> Message \<Rightarrow> 'db world \<Rightarrow> 'db world res" where
  "Mod_HandlePreSendMsg E c dwID m w =
     (case conn_lock w (Some c) of None \<Rightarrow> Inr w | Some c \<Rightarrow> send_frame E c dwID m w)"

definition handshake_reply :: "bool \<Rightarrow> Message" where
  "handshake_reply b = M_handshake_r (handshake_r_SharedCtor\<lparr>hr_result := b\<rparr>)"

text \<open>
  A node asks to join. On the leader: the old connection of a known node is closed and this
  one takes its place; an unknown node gets a proxy and is logged and announced.
\<close>

definition hsq_join :: "'db env \<Rightarrow> nat \<Rightarrow> handshake_q \<Rightarrow> Conn \<Rightarrow> int \<Rightarrow> 'db world \<Rightarrow> 'db world res" where
  "hsq_join E c p x iOldConnFd w =
     (if iOldConnFd \<noteq> - 1 then
        rbind (if iOldConnFd \<noteq> cn_iFd x then Conn_Server_CloseConn c iOldConnFd w else Inr w) (\<lambda>w.
          Conn_Tie c (hq_nodeid p) w)
      else
        rbind (Conn_Server_AddProxy (hq_nodeid p) w) (\<lambda>w.
        rbind (Conn_Tie c (hq_nodeid p) w) (\<lambda>w.
        rbind (Conn_Server_AppendCfgLog E (cn_strAddr x) (sint (hq_raftport p)) (sint (hq_nodeid p)) w) (\<lambda>w.
          Conn_Server_BroadCastAppendEntries E w))))"

definition ModApi_HandshakeQ :: "'db env \<Rightarrow> nat \<Rightarrow> handshake_q \<Rightarrow> 'db world \<Rightarrow> 'db world res" where
  "ModApi_HandshakeQ E c p w =
     (case conn_lock w (Some c) of None \<Rightarrow> Inr w | Some c \<Rightarrow>
      if \<not> Conn_Server_IsLeader w then Mod_HandlePreSendMsg E c 258 (handshake_reply False) w
      else with_conn c w (\<lambda>x.
        let x = x\<lparr>cn_iRaftPort := sint (hq_raftport p)\<rparr>; w = set_conn c x w in
        rbind (Conn_ProxyConnFd (hq_nodeid p) w) (\<lambda>iOldConnFd.
        rbind (hsq_join E c p x iOldConnFd w) (\<lambda>w.
          Mod_HandlePreSendMsg E c 258 (handshake_reply True) w))))"

definition ModApi_HandshakeR :: "nat \<Rightarrow> handshake_r \<Rightarrow> 'db world \<Rightarrow> 'db world res" where
  "ModApi_HandshakeR c p w = Inr w"

text \<open>
  \<open>AppendEntriesQ\<close>, step 1: the terms. The flag says that the code jumps to
  \<open>sendreponse\<close>.
\<close>

definition aeq_terms :: "'db env \<Rightarrow> appendentries_q \<Rightarrow> 'db world \<Rightarrow> (bool \<times> 'db world) res" where
  "aeq_terms E p w =
     (if Conn_Server_IsCandidate w \<and> Conn_Server_CurrentTerm w = aq_term p then
        rbind (Conn_Server_BecomeFollower w) (\<lambda>w. Inr (False, w))
      else if Conn_Server_CurrentTerm w < aq_term p then
        rbind (Conn_Server_SetTerm E (aq_term p) w) (\<lambda>w.
        rbind (Conn_Server_BecomeFollower w) (\<lambda>w. Inr (False, w)))
      else if Conn_Server_CurrentTerm w > aq_term p then Inr (True, w)
      else Inr (False, w))"

text \<open>The entry before the new ones: is it there, and of the term the leader names?\<close>

definition aeq_matches :: "appendentries_q \<Rightarrow> 'db world \<Rightarrow> bool res" where
  "aeq_matches p w =
     (if 0 < aq_prelogindex p then
        rbind (Conn_Server_EntryTermByIndex (aq_prelogindex p) w) (\<lambda>iPrevTerm.
          Inr (iPrevTerm \<noteq> - 1 \<and> word_of_int iPrevTerm = aq_prelogterm p))
      else Inr True)"

text \<open>
  Step 3, conflicting entries: the loop stops at the first one without a conflict and
  hands on the entries from there. What is passed to \<open>DelLogsFromIndex\<close> is the
  conflicting term, not the index.
\<close>

fun aeq_conflicts :: "'db env \<Rightarrow> u32 \<Rightarrow> entry list \<Rightarrow> 'db world \<Rightarrow> (entry list \<times> 'db world) res" where
  "aeq_conflicts E dwNewIndex [] w = Inr ([], w)"
| "aeq_conflicts E dwNewIndex (e # es) w =
     rbind (Conn_Server_LogTermByIndex dwNewIndex w) (\<lambda>iExistingTerm.
       if iExistingTerm \<noteq> - 1 \<and> iExistingTerm \<noteq> sint (en_term e) \<and> Conn_Server_CommitIndex w < dwNewIndex
       then rbind (Conn_Server_DelLogsFromIndex E (word_of_int iExistingTerm) w) (\<lambda>w.
              aeq_conflicts E (dwNewIndex + 1) es w)
       else Inr (e # es, w))"

text \<open>Step 4: configuration entries are appended, others are skipped.\<close>

definition aeq_append_one :: "'db env \<Rightarrow> entry \<Rightarrow> 'db world \<Rightarrow> 'db world res" where
  "aeq_append_one E e w =
     (if en_type e = CFGADD \<or> en_type e = CFGREM
      then Conn_Server_AppendCfgLog E (en_host e) (sint (en_port e)) (sint (en_nodeid e)) w
      else Inr w)"

definition aeq_append :: "'db env \<Rightarrow> entry list \<Rightarrow> 'db world \<Rightarrow> 'db world res" where
  "aeq_append E es w = rfold (aeq_append_one E) es w"

definition aeq_body :: "'db env \<Rightarrow> appendentries_q \<Rightarrow> 'db world \<Rightarrow> (appendentries_r \<times> 'db world) res" where
  "aeq_body E p w =
     (let stMsg = appendentries_r_SharedCtor\<lparr>ar_success := False\<rparr> in
      rbind (aeq_terms E p w) (\<lambda>(sendreponse, w).
        if sendreponse then Inr (stMsg, w)
        else rbind (aeq_matches p w) (\<lambda>matches.
          if \<not> matches then Inr (stMsg, w)
          else if aq_entries p = [] then
            rbind (Conn_Server_FreshTime FollowerHeartbeatTimer w) (\<lambda>w.
              Inr (stMsg\<lparr>ar_success := True, ar_isheartbeat := True\<rparr>, w))
          else
            rbind (aeq_conflicts E (aq_prelogindex p + 1) (aq_entries p) w) (\<lambda>(es, w).
            rbind (aeq_append E es w) (\<lambda>w.
              Inr (stMsg\<lparr>ar_success := True\<rparr>, w))))))"

text \<open>\<open>sendreponse\<close>: the commit index, and the answer with the current term.\<close>

definition aeq_commit :: "appendentries_q \<Rightarrow> 'db world \<Rightarrow> 'db world res" where
  "aeq_commit p w =
     (if Conn_Server_CommitIndex w < aq_leadercommit p then
        let dwLastNewIndex = aq_prelogindex p + of_nat (length (aq_entries p)) in
        Conn_Server_SetCommitIndex (min (aq_leadercommit p) dwLastNewIndex) w
      else Inr w)"

definition ModApi_AppendEntriesQ :: "'db env \<Rightarrow> nat \<Rightarrow> appendentries_q \<Rightarrow> 'db world \<Rightarrow> 'db world res" where
  "ModApi_AppendEntriesQ E c p w =
     (case conn_lock w (Some c) of None \<Rightarrow> Inr w | Some c \<Rightarrow>
        rbind (aeq_body E p w) (\<lambda>(stMsg, w).
        rbind (aeq_commit p w) (\<lambda>w.
          Mod_HandlePreSendMsg E c 260
            (M_appendentries_r (stMsg\<lparr>ar_term := Conn_Server_CurrentTerm w\<rparr>)) w)))"

definition ModApi_AppendEntriesR :: "'db env \<Rightarrow> nat \<Rightarrow> appendentries_r \<Rightarrow> 'db world \<Rightarrow> 'db world res" where
  "ModApi_AppendEntriesR E c p w =
     (case conn_lock w (Some c) of None \<Rightarrow> Inr w | Some c \<Rightarrow>
      if Conn_Server_CurrentTerm w < ar_term p then
        rbind (Conn_Server_SetTerm E (ar_term p) w) (\<lambda>w. Conn_Server_BecomeFollower w)
      else
        rbind (if ar_success p \<and> \<not> ar_isheartbeat p then
                 rbind (Conn_Proxy_IncrMatchIndex c w) (\<lambda>w. Conn_Proxy_IncrNextIndex c w)
               else Inr w) (\<lambda>w.
        rbind (Conn_Server_ChangeCommitIndex w) (\<lambda>(bResult, w). Inr w)))"

definition ModApi_RequestVoteQ :: "nat \<Rightarrow> requestvote_q \<Rightarrow> 'db world \<Rightarrow> 'db world res" where
  "ModApi_RequestVoteQ c p w = Inr w"

text \<open>
  The table \<open>m_stProcs_\<close> has five handlers; a message of another class than the handler
  expects makes \<open>dynamic_cast\<close> give a null pointer.
\<close>

definition ModApi_Proc :: "'db env \<Rightarrow> nat \<Rightarrow> int \<Rightarrow> Message \<Rightarrow> 'db world \<Rightarrow> 'db world res" where
  "ModApi_Proc E c iID m w =
     (if iID = 0 then (case m of M_handshake_q p \<Rightarrow> ModApi_HandshakeQ E c p w | _ \<Rightarrow> Inl NullDeref)
      else if iID = 1 then (case m of M_handshake_r p \<Rightarrow> ModApi_HandshakeR c p w | _ \<Rightarrow> Inl NullDeref)
      else if iID = 2 then (case m of M_appendentries_q p \<Rightarrow> ModApi_AppendEntriesQ E c p w | _ \<Rightarrow> Inl NullDeref)
      else if iID = 3 then (case m of M_appendentries_r p \<Rightarrow> ModApi_AppendEntriesR E c p w | _ \<Rightarrow> Inl NullDeref)
      else if iID = 4 then (case m of M_requestvote_q p \<Rightarrow> ModApi_RequestVoteQ c p w | _ \<Rightarrow> Inl NullDeref)
      else Inl OutOfRange)"

end
