(* ===== verification/Api_Access.thy ===== *)
theory Api_Access
  imports Mod_Api
begin

text \<open>
  The inline accessors of \<open>protocol/api.pb.h\<close>, through which the program reads and fills its messages. A string field is its
  value; a pointer that an accessor hands out is the change that is made through it, and a pointer that it is
  given is the readable memory behind it. The accessors of a field are an interface of their own, the locale \<open>message_field\<close>.
\<close>

section \<open>Interface of a field\<close>

locale message_field =
  fixes get :: "'m \<Rightarrow> 'v" and put :: "'v \<Rightarrow> 'm \<Rightarrow> 'm" and clear :: "'m \<Rightarrow> 'm" and dflt :: 'v
  assumes get_put: "get (put v m) = v"
    and put_get: "put (get m) m = m"
    and put_put: "put v (put u m) = put v m"
    and clear_put: "clear m = put dflt m"
begin

lemma get_clear: "get (clear m) = dflt"
  by (simp add: clear_put get_put)

lemma put_clear: "put v (clear m) = put v m" "clear (put v m) = clear m" "clear (clear m) = clear m"
  by (simp_all add: clear_put put_put)

lemma clear_idle: "clear m = m \<longleftrightarrow> get m = dflt"
  by (metis clear_put get_put put_get)

lemma put_inject: "put u m = put v m \<longleftrightarrow> u = v"
  by (metis get_put)

end

section \<open>\<open>handshake_q\<close>\<close>

definition handshake_q_clear_raftport :: "handshake_q \<Rightarrow> handshake_q" where
  "handshake_q_clear_raftport m = m\<lparr>hq_raftport := 0\<rparr>"

definition handshake_q_raftport :: "handshake_q \<Rightarrow> u32" where
  "handshake_q_raftport m = hq_raftport m"

definition handshake_q_set_raftport :: "u32 \<Rightarrow> handshake_q \<Rightarrow> handshake_q" where
  "handshake_q_set_raftport value m = m\<lparr>hq_raftport := value\<rparr>"

definition handshake_q_clear_httpport :: "handshake_q \<Rightarrow> handshake_q" where
  "handshake_q_clear_httpport m = m\<lparr>hq_httpport := 0\<rparr>"

definition handshake_q_httpport :: "handshake_q \<Rightarrow> u32" where
  "handshake_q_httpport m = hq_httpport m"

definition handshake_q_set_httpport :: "u32 \<Rightarrow> handshake_q \<Rightarrow> handshake_q" where
  "handshake_q_set_httpport value m = m\<lparr>hq_httpport := value\<rparr>"

definition handshake_q_clear_nodeid :: "handshake_q \<Rightarrow> handshake_q" where
  "handshake_q_clear_nodeid m = m\<lparr>hq_nodeid := 0\<rparr>"

definition handshake_q_nodeid :: "handshake_q \<Rightarrow> u32" where
  "handshake_q_nodeid m = hq_nodeid m"

definition handshake_q_set_nodeid :: "u32 \<Rightarrow> handshake_q \<Rightarrow> handshake_q" where
  "handshake_q_set_nodeid value m = m\<lparr>hq_nodeid := value\<rparr>"

section \<open>\<open>handshake_r\<close>\<close>

definition handshake_r_clear_result :: "handshake_r \<Rightarrow> handshake_r" where
  "handshake_r_clear_result m = m\<lparr>hr_result := False\<rparr>"

definition handshake_r_result :: "handshake_r \<Rightarrow> bool" where
  "handshake_r_result m = hr_result m"

definition handshake_r_set_result :: "bool \<Rightarrow> handshake_r \<Rightarrow> handshake_r" where
  "handshake_r_set_result value m = m\<lparr>hr_result := value\<rparr>"

definition handshake_r_clear_leaderhost :: "handshake_r \<Rightarrow> handshake_r" where
  "handshake_r_clear_leaderhost m = m\<lparr>hr_leaderhost := []\<rparr>"

definition handshake_r_leaderhost :: "handshake_r \<Rightarrow> bytes" where
  "handshake_r_leaderhost m = hr_leaderhost m"

definition handshake_r_set_leaderhost :: "bytes \<Rightarrow> handshake_r \<Rightarrow> handshake_r" where
  "handshake_r_set_leaderhost value m = m\<lparr>hr_leaderhost := value\<rparr>"

definition handshake_r_set_leaderhost_rvalue :: "bytes \<Rightarrow> handshake_r \<Rightarrow> handshake_r" where
  "handshake_r_set_leaderhost_rvalue value m = m\<lparr>hr_leaderhost := value\<rparr>"

definition handshake_r_set_leaderhost_char :: "bytes option \<Rightarrow> handshake_r \<Rightarrow> handshake_r res" where
  "handshake_r_set_leaderhost_char value m =
     (case value of
        None \<Rightarrow> Inl NullDeref
      | Some mem \<Rightarrow> if 0 \<in> set mem then Inr (m\<lparr>hr_leaderhost := takeWhile (\<lambda>b. b \<noteq> 0) mem\<rparr>) else Inl OverRead)"

definition handshake_r_set_leaderhost_pointer :: "bytes \<Rightarrow> nat \<Rightarrow> handshake_r \<Rightarrow> handshake_r res" where
  "handshake_r_set_leaderhost_pointer mem len m =
     (if len \<le> length mem then Inr (m\<lparr>hr_leaderhost := take len mem\<rparr>) else Inl OverRead)"

definition handshake_r_mutable_leaderhost :: "(bytes \<Rightarrow> bytes) \<Rightarrow> handshake_r \<Rightarrow> handshake_r" where
  "handshake_r_mutable_leaderhost f m = m\<lparr>hr_leaderhost := f (hr_leaderhost m)\<rparr>"

definition handshake_r_release_leaderhost :: "handshake_r \<Rightarrow> bytes \<times> handshake_r" where
  "handshake_r_release_leaderhost m = (hr_leaderhost m, m\<lparr>hr_leaderhost := []\<rparr>)"

definition handshake_r_set_allocated_leaderhost :: "bytes option \<Rightarrow> handshake_r \<Rightarrow> handshake_r" where
  "handshake_r_set_allocated_leaderhost value m =
     m\<lparr>hr_leaderhost := (case value of None \<Rightarrow> [] | Some s \<Rightarrow> s)\<rparr>"

definition handshake_r_clear_leaderraftport :: "handshake_r \<Rightarrow> handshake_r" where
  "handshake_r_clear_leaderraftport m = m\<lparr>hr_leaderraftport := 0\<rparr>"

definition handshake_r_leaderraftport :: "handshake_r \<Rightarrow> u32" where
  "handshake_r_leaderraftport m = hr_leaderraftport m"

definition handshake_r_set_leaderraftport :: "u32 \<Rightarrow> handshake_r \<Rightarrow> handshake_r" where
  "handshake_r_set_leaderraftport value m = m\<lparr>hr_leaderraftport := value\<rparr>"

section \<open>\<open>entry\<close>\<close>

definition entry_clear_type :: "entry \<Rightarrow> entry" where
  "entry_clear_type m = m\<lparr>en_type := 0\<rparr>"

definition entry_type :: "entry \<Rightarrow> u32" where
  "entry_type m = en_type m"

definition entry_set_type :: "u32 \<Rightarrow> entry \<Rightarrow> entry" where
  "entry_set_type value m = m\<lparr>en_type := value\<rparr>"

definition entry_clear_term :: "entry \<Rightarrow> entry" where
  "entry_clear_term m = m\<lparr>en_term := 0\<rparr>"

definition entry_term :: "entry \<Rightarrow> u32" where
  "entry_term m = en_term m"

definition entry_set_term :: "u32 \<Rightarrow> entry \<Rightarrow> entry" where
  "entry_set_term value m = m\<lparr>en_term := value\<rparr>"

definition entry_clear_nodeid :: "entry \<Rightarrow> entry" where
  "entry_clear_nodeid m = m\<lparr>en_nodeid := 0\<rparr>"

definition entry_nodeid :: "entry \<Rightarrow> u32" where
  "entry_nodeid m = en_nodeid m"

definition entry_set_nodeid :: "u32 \<Rightarrow> entry \<Rightarrow> entry" where
  "entry_set_nodeid value m = m\<lparr>en_nodeid := value\<rparr>"

definition entry_clear_port :: "entry \<Rightarrow> entry" where
  "entry_clear_port m = m\<lparr>en_port := 0\<rparr>"

definition entry_port :: "entry \<Rightarrow> u32" where
  "entry_port m = en_port m"

definition entry_set_port :: "u32 \<Rightarrow> entry \<Rightarrow> entry" where
  "entry_set_port value m = m\<lparr>en_port := value\<rparr>"

definition entry_clear_host :: "entry \<Rightarrow> entry" where
  "entry_clear_host m = m\<lparr>en_host := []\<rparr>"

definition entry_host :: "entry \<Rightarrow> bytes" where
  "entry_host m = en_host m"

definition entry_set_host :: "bytes \<Rightarrow> entry \<Rightarrow> entry" where
  "entry_set_host value m = m\<lparr>en_host := value\<rparr>"

definition entry_set_host_rvalue :: "bytes \<Rightarrow> entry \<Rightarrow> entry" where
  "entry_set_host_rvalue value m = m\<lparr>en_host := value\<rparr>"

definition entry_set_host_char :: "bytes option \<Rightarrow> entry \<Rightarrow> entry res" where
  "entry_set_host_char value m =
     (case value of
        None \<Rightarrow> Inl NullDeref
      | Some mem \<Rightarrow> if 0 \<in> set mem then Inr (m\<lparr>en_host := takeWhile (\<lambda>b. b \<noteq> 0) mem\<rparr>) else Inl OverRead)"

definition entry_set_host_pointer :: "bytes \<Rightarrow> nat \<Rightarrow> entry \<Rightarrow> entry res" where
  "entry_set_host_pointer mem len m =
     (if len \<le> length mem then Inr (m\<lparr>en_host := take len mem\<rparr>) else Inl OverRead)"

definition entry_mutable_host :: "(bytes \<Rightarrow> bytes) \<Rightarrow> entry \<Rightarrow> entry" where
  "entry_mutable_host f m = m\<lparr>en_host := f (en_host m)\<rparr>"

definition entry_release_host :: "entry \<Rightarrow> bytes \<times> entry" where
  "entry_release_host m = (en_host m, m\<lparr>en_host := []\<rparr>)"

definition entry_set_allocated_host :: "bytes option \<Rightarrow> entry \<Rightarrow> entry" where
  "entry_set_allocated_host value m =
     m\<lparr>en_host := (case value of None \<Rightarrow> [] | Some s \<Rightarrow> s)\<rparr>"

definition entry_clear_write_it :: "entry \<Rightarrow> entry" where
  "entry_clear_write_it m = m\<lparr>en_write_it := 0\<rparr>"

definition entry_write_it :: "entry \<Rightarrow> u32" where
  "entry_write_it m = en_write_it m"

definition entry_set_write_it :: "u32 \<Rightarrow> entry \<Rightarrow> entry" where
  "entry_set_write_it value m = m\<lparr>en_write_it := value\<rparr>"

section \<open>\<open>appendentries_q\<close>\<close>

definition appendentries_q_clear_term :: "appendentries_q \<Rightarrow> appendentries_q" where
  "appendentries_q_clear_term m = m\<lparr>aq_term := 0\<rparr>"

definition appendentries_q_term :: "appendentries_q \<Rightarrow> u32" where
  "appendentries_q_term m = aq_term m"

definition appendentries_q_set_term :: "u32 \<Rightarrow> appendentries_q \<Rightarrow> appendentries_q" where
  "appendentries_q_set_term value m = m\<lparr>aq_term := value\<rparr>"

definition appendentries_q_clear_prelogindex :: "appendentries_q \<Rightarrow> appendentries_q" where
  "appendentries_q_clear_prelogindex m = m\<lparr>aq_prelogindex := 0\<rparr>"

definition appendentries_q_prelogindex :: "appendentries_q \<Rightarrow> u32" where
  "appendentries_q_prelogindex m = aq_prelogindex m"

definition appendentries_q_set_prelogindex :: "u32 \<Rightarrow> appendentries_q \<Rightarrow> appendentries_q" where
  "appendentries_q_set_prelogindex value m = m\<lparr>aq_prelogindex := value\<rparr>"

definition appendentries_q_clear_prelogterm :: "appendentries_q \<Rightarrow> appendentries_q" where
  "appendentries_q_clear_prelogterm m = m\<lparr>aq_prelogterm := 0\<rparr>"

definition appendentries_q_prelogterm :: "appendentries_q \<Rightarrow> u32" where
  "appendentries_q_prelogterm m = aq_prelogterm m"

definition appendentries_q_set_prelogterm :: "u32 \<Rightarrow> appendentries_q \<Rightarrow> appendentries_q" where
  "appendentries_q_set_prelogterm value m = m\<lparr>aq_prelogterm := value\<rparr>"

definition appendentries_q_clear_leadercommit :: "appendentries_q \<Rightarrow> appendentries_q" where
  "appendentries_q_clear_leadercommit m = m\<lparr>aq_leadercommit := 0\<rparr>"

definition appendentries_q_leadercommit :: "appendentries_q \<Rightarrow> u32" where
  "appendentries_q_leadercommit m = aq_leadercommit m"

definition appendentries_q_set_leadercommit :: "u32 \<Rightarrow> appendentries_q \<Rightarrow> appendentries_q" where
  "appendentries_q_set_leadercommit value m = m\<lparr>aq_leadercommit := value\<rparr>"

definition appendentries_q_entries_size :: "appendentries_q \<Rightarrow> int" where
  "appendentries_q_entries_size m = int (length (aq_entries m))"

definition appendentries_q_clear_entries :: "appendentries_q \<Rightarrow> appendentries_q" where
  "appendentries_q_clear_entries m = m\<lparr>aq_entries := []\<rparr>"

definition appendentries_q_entries_at :: "int \<Rightarrow> appendentries_q \<Rightarrow> entry res" where
  "appendentries_q_entries_at index m =
     (if 0 \<le> index \<and> nat index < length (aq_entries m) then Inr (aq_entries m ! nat index) else Inl OutOfRange)"

definition appendentries_q_mutable_entries_at :: "int \<Rightarrow> (entry \<Rightarrow> entry) \<Rightarrow> appendentries_q \<Rightarrow> appendentries_q res" where
  "appendentries_q_mutable_entries_at index f m =
     (if 0 \<le> index \<and> nat index < length (aq_entries m)
      then Inr (m\<lparr>aq_entries := (aq_entries m)[nat index := f (aq_entries m ! nat index)]\<rparr>) else Inl OutOfRange)"

definition appendentries_q_add_entries :: "(entry \<Rightarrow> entry) \<Rightarrow> appendentries_q \<Rightarrow> appendentries_q" where
  "appendentries_q_add_entries f m = m\<lparr>aq_entries := aq_entries m @ [f entry_SharedCtor]\<rparr>"

definition appendentries_q_mutable_entries :: "(entry list \<Rightarrow> entry list) \<Rightarrow> appendentries_q \<Rightarrow> appendentries_q" where
  "appendentries_q_mutable_entries f m = m\<lparr>aq_entries := f (aq_entries m)\<rparr>"

definition appendentries_q_entries :: "appendentries_q \<Rightarrow> entry list" where
  "appendentries_q_entries m = aq_entries m"

section \<open>\<open>appendentries_r\<close>\<close>

definition appendentries_r_clear_term :: "appendentries_r \<Rightarrow> appendentries_r" where
  "appendentries_r_clear_term m = m\<lparr>ar_term := 0\<rparr>"

definition appendentries_r_term :: "appendentries_r \<Rightarrow> u32" where
  "appendentries_r_term m = ar_term m"

definition appendentries_r_set_term :: "u32 \<Rightarrow> appendentries_r \<Rightarrow> appendentries_r" where
  "appendentries_r_set_term value m = m\<lparr>ar_term := value\<rparr>"

definition appendentries_r_clear_success :: "appendentries_r \<Rightarrow> appendentries_r" where
  "appendentries_r_clear_success m = m\<lparr>ar_success := False\<rparr>"

definition appendentries_r_success :: "appendentries_r \<Rightarrow> bool" where
  "appendentries_r_success m = ar_success m"

definition appendentries_r_set_success :: "bool \<Rightarrow> appendentries_r \<Rightarrow> appendentries_r" where
  "appendentries_r_set_success value m = m\<lparr>ar_success := value\<rparr>"

definition appendentries_r_clear_isheartbeat :: "appendentries_r \<Rightarrow> appendentries_r" where
  "appendentries_r_clear_isheartbeat m = m\<lparr>ar_isheartbeat := False\<rparr>"

definition appendentries_r_isheartbeat :: "appendentries_r \<Rightarrow> bool" where
  "appendentries_r_isheartbeat m = ar_isheartbeat m"

definition appendentries_r_set_isheartbeat :: "bool \<Rightarrow> appendentries_r \<Rightarrow> appendentries_r" where
  "appendentries_r_set_isheartbeat value m = m\<lparr>ar_isheartbeat := value\<rparr>"

section \<open>\<open>requestvote_q\<close>\<close>

definition requestvote_q_clear_term :: "requestvote_q \<Rightarrow> requestvote_q" where
  "requestvote_q_clear_term m = m\<lparr>vq_term := 0\<rparr>"

definition requestvote_q_term :: "requestvote_q \<Rightarrow> u32" where
  "requestvote_q_term m = vq_term m"

definition requestvote_q_set_term :: "u32 \<Rightarrow> requestvote_q \<Rightarrow> requestvote_q" where
  "requestvote_q_set_term value m = m\<lparr>vq_term := value\<rparr>"

definition requestvote_q_clear_candidateid :: "requestvote_q \<Rightarrow> requestvote_q" where
  "requestvote_q_clear_candidateid m = m\<lparr>vq_candidateid := 0\<rparr>"

definition requestvote_q_candidateid :: "requestvote_q \<Rightarrow> u32" where
  "requestvote_q_candidateid m = vq_candidateid m"

definition requestvote_q_set_candidateid :: "u32 \<Rightarrow> requestvote_q \<Rightarrow> requestvote_q" where
  "requestvote_q_set_candidateid value m = m\<lparr>vq_candidateid := value\<rparr>"

definition requestvote_q_clear_lastlogindex :: "requestvote_q \<Rightarrow> requestvote_q" where
  "requestvote_q_clear_lastlogindex m = m\<lparr>vq_lastlogindex := 0\<rparr>"

definition requestvote_q_lastlogindex :: "requestvote_q \<Rightarrow> u32" where
  "requestvote_q_lastlogindex m = vq_lastlogindex m"

definition requestvote_q_set_lastlogindex :: "u32 \<Rightarrow> requestvote_q \<Rightarrow> requestvote_q" where
  "requestvote_q_set_lastlogindex value m = m\<lparr>vq_lastlogindex := value\<rparr>"

definition requestvote_q_clear_lastlogterm :: "requestvote_q \<Rightarrow> requestvote_q" where
  "requestvote_q_clear_lastlogterm m = m\<lparr>vq_lastlogterm := 0\<rparr>"

definition requestvote_q_lastlogterm :: "requestvote_q \<Rightarrow> u32" where
  "requestvote_q_lastlogterm m = vq_lastlogterm m"

definition requestvote_q_set_lastlogterm :: "u32 \<Rightarrow> requestvote_q \<Rightarrow> requestvote_q" where
  "requestvote_q_set_lastlogterm value m = m\<lparr>vq_lastlogterm := value\<rparr>"

section \<open>\<open>requestvote_r\<close>\<close>

definition requestvote_r_clear_term :: "requestvote_r \<Rightarrow> requestvote_r" where
  "requestvote_r_clear_term m = m\<lparr>vr_term := 0\<rparr>"

definition requestvote_r_term :: "requestvote_r \<Rightarrow> u32" where
  "requestvote_r_term m = vr_term m"

definition requestvote_r_set_term :: "u32 \<Rightarrow> requestvote_r \<Rightarrow> requestvote_r" where
  "requestvote_r_set_term value m = m\<lparr>vr_term := value\<rparr>"

definition requestvote_r_clear_votegranted :: "requestvote_r \<Rightarrow> requestvote_r" where
  "requestvote_r_clear_votegranted m = m\<lparr>vr_votegranted := False\<rparr>"

definition requestvote_r_votegranted :: "requestvote_r \<Rightarrow> bool" where
  "requestvote_r_votegranted m = vr_votegranted m"

definition requestvote_r_set_votegranted :: "bool \<Rightarrow> requestvote_r \<Rightarrow> requestvote_r" where
  "requestvote_r_set_votegranted value m = m\<lparr>vr_votegranted := value\<rparr>"

section \<open>The fields behind the interface\<close>

interpretation handshake_q_raftport_field: message_field handshake_q_raftport handshake_q_set_raftport handshake_q_clear_raftport "0"
  by unfold_locales (simp_all add: handshake_q_raftport_def handshake_q_set_raftport_def handshake_q_clear_raftport_def)

interpretation handshake_q_httpport_field: message_field handshake_q_httpport handshake_q_set_httpport handshake_q_clear_httpport "0"
  by unfold_locales (simp_all add: handshake_q_httpport_def handshake_q_set_httpport_def handshake_q_clear_httpport_def)

interpretation handshake_q_nodeid_field: message_field handshake_q_nodeid handshake_q_set_nodeid handshake_q_clear_nodeid "0"
  by unfold_locales (simp_all add: handshake_q_nodeid_def handshake_q_set_nodeid_def handshake_q_clear_nodeid_def)

interpretation handshake_r_result_field: message_field handshake_r_result handshake_r_set_result handshake_r_clear_result "False"
  by unfold_locales (simp_all add: handshake_r_result_def handshake_r_set_result_def handshake_r_clear_result_def)

interpretation handshake_r_leaderhost_field: message_field handshake_r_leaderhost handshake_r_set_leaderhost handshake_r_clear_leaderhost "[]"
  by unfold_locales (simp_all add: handshake_r_leaderhost_def handshake_r_set_leaderhost_def handshake_r_clear_leaderhost_def)

interpretation handshake_r_leaderraftport_field: message_field handshake_r_leaderraftport handshake_r_set_leaderraftport handshake_r_clear_leaderraftport "0"
  by unfold_locales (simp_all add: handshake_r_leaderraftport_def handshake_r_set_leaderraftport_def handshake_r_clear_leaderraftport_def)

interpretation entry_type_field: message_field entry_type entry_set_type entry_clear_type "0"
  by unfold_locales (simp_all add: entry_type_def entry_set_type_def entry_clear_type_def)

interpretation entry_term_field: message_field entry_term entry_set_term entry_clear_term "0"
  by unfold_locales (simp_all add: entry_term_def entry_set_term_def entry_clear_term_def)

interpretation entry_nodeid_field: message_field entry_nodeid entry_set_nodeid entry_clear_nodeid "0"
  by unfold_locales (simp_all add: entry_nodeid_def entry_set_nodeid_def entry_clear_nodeid_def)

interpretation entry_port_field: message_field entry_port entry_set_port entry_clear_port "0"
  by unfold_locales (simp_all add: entry_port_def entry_set_port_def entry_clear_port_def)

interpretation entry_host_field: message_field entry_host entry_set_host entry_clear_host "[]"
  by unfold_locales (simp_all add: entry_host_def entry_set_host_def entry_clear_host_def)

interpretation entry_write_it_field: message_field entry_write_it entry_set_write_it entry_clear_write_it "0"
  by unfold_locales (simp_all add: entry_write_it_def entry_set_write_it_def entry_clear_write_it_def)

interpretation appendentries_q_term_field: message_field appendentries_q_term appendentries_q_set_term appendentries_q_clear_term "0"
  by unfold_locales (simp_all add: appendentries_q_term_def appendentries_q_set_term_def appendentries_q_clear_term_def)

interpretation appendentries_q_prelogindex_field: message_field appendentries_q_prelogindex appendentries_q_set_prelogindex appendentries_q_clear_prelogindex "0"
  by unfold_locales (simp_all add: appendentries_q_prelogindex_def appendentries_q_set_prelogindex_def appendentries_q_clear_prelogindex_def)

interpretation appendentries_q_prelogterm_field: message_field appendentries_q_prelogterm appendentries_q_set_prelogterm appendentries_q_clear_prelogterm "0"
  by unfold_locales (simp_all add: appendentries_q_prelogterm_def appendentries_q_set_prelogterm_def appendentries_q_clear_prelogterm_def)

interpretation appendentries_q_leadercommit_field: message_field appendentries_q_leadercommit appendentries_q_set_leadercommit appendentries_q_clear_leadercommit "0"
  by unfold_locales (simp_all add: appendentries_q_leadercommit_def appendentries_q_set_leadercommit_def appendentries_q_clear_leadercommit_def)

interpretation appendentries_r_term_field: message_field appendentries_r_term appendentries_r_set_term appendentries_r_clear_term "0"
  by unfold_locales (simp_all add: appendentries_r_term_def appendentries_r_set_term_def appendentries_r_clear_term_def)

interpretation appendentries_r_success_field: message_field appendentries_r_success appendentries_r_set_success appendentries_r_clear_success "False"
  by unfold_locales (simp_all add: appendentries_r_success_def appendentries_r_set_success_def appendentries_r_clear_success_def)

interpretation appendentries_r_isheartbeat_field: message_field appendentries_r_isheartbeat appendentries_r_set_isheartbeat appendentries_r_clear_isheartbeat "False"
  by unfold_locales (simp_all add: appendentries_r_isheartbeat_def appendentries_r_set_isheartbeat_def appendentries_r_clear_isheartbeat_def)

interpretation requestvote_q_term_field: message_field requestvote_q_term requestvote_q_set_term requestvote_q_clear_term "0"
  by unfold_locales (simp_all add: requestvote_q_term_def requestvote_q_set_term_def requestvote_q_clear_term_def)

interpretation requestvote_q_candidateid_field: message_field requestvote_q_candidateid requestvote_q_set_candidateid requestvote_q_clear_candidateid "0"
  by unfold_locales (simp_all add: requestvote_q_candidateid_def requestvote_q_set_candidateid_def requestvote_q_clear_candidateid_def)

interpretation requestvote_q_lastlogindex_field: message_field requestvote_q_lastlogindex requestvote_q_set_lastlogindex requestvote_q_clear_lastlogindex "0"
  by unfold_locales (simp_all add: requestvote_q_lastlogindex_def requestvote_q_set_lastlogindex_def requestvote_q_clear_lastlogindex_def)

interpretation requestvote_q_lastlogterm_field: message_field requestvote_q_lastlogterm requestvote_q_set_lastlogterm requestvote_q_clear_lastlogterm "0"
  by unfold_locales (simp_all add: requestvote_q_lastlogterm_def requestvote_q_set_lastlogterm_def requestvote_q_clear_lastlogterm_def)

interpretation requestvote_r_term_field: message_field requestvote_r_term requestvote_r_set_term requestvote_r_clear_term "0"
  by unfold_locales (simp_all add: requestvote_r_term_def requestvote_r_set_term_def requestvote_r_clear_term_def)

interpretation requestvote_r_votegranted_field: message_field requestvote_r_votegranted requestvote_r_set_votegranted requestvote_r_clear_votegranted "False"
  by unfold_locales (simp_all add: requestvote_r_votegranted_def requestvote_r_set_votegranted_def requestvote_r_clear_votegranted_def)

section \<open>Accessors and the other operations\<close>

text \<open>\<open>Clear\<close> of a message clears every field, and the unknown ones.\<close>

lemma handshake_q_Clear_fields:
  "handshake_q_Clear m = handshake_q_clear_nodeid (handshake_q_clear_httpport (handshake_q_clear_raftport (m\<lparr>hq_unknown := []\<rparr>)))"
  by (simp add: handshake_q_Clear_def handshake_q_clear_raftport_def handshake_q_clear_httpport_def handshake_q_clear_nodeid_def)

lemma handshake_r_Clear_fields:
  "handshake_r_Clear m = handshake_r_clear_leaderraftport (handshake_r_clear_leaderhost (handshake_r_clear_result (m\<lparr>hr_unknown := []\<rparr>)))"
  by (simp add: handshake_r_Clear_def handshake_r_clear_result_def handshake_r_clear_leaderhost_def handshake_r_clear_leaderraftport_def)

lemma entry_Clear_fields:
  "entry_Clear m = entry_clear_write_it (entry_clear_host (entry_clear_port (entry_clear_nodeid (entry_clear_term (entry_clear_type (m\<lparr>en_unknown := []\<rparr>))))))"
  by (simp add: entry_Clear_def entry_clear_type_def entry_clear_term_def entry_clear_nodeid_def entry_clear_port_def entry_clear_host_def entry_clear_write_it_def)

lemma appendentries_q_Clear_fields:
  "appendentries_q_Clear m = appendentries_q_clear_entries (appendentries_q_clear_leadercommit (appendentries_q_clear_prelogterm (appendentries_q_clear_prelogindex (appendentries_q_clear_term (m\<lparr>aq_unknown := []\<rparr>)))))"
  by (simp add: appendentries_q_Clear_def appendentries_q_clear_term_def appendentries_q_clear_prelogindex_def appendentries_q_clear_prelogterm_def appendentries_q_clear_leadercommit_def appendentries_q_clear_entries_def)

lemma appendentries_r_Clear_fields:
  "appendentries_r_Clear m = appendentries_r_clear_isheartbeat (appendentries_r_clear_success (appendentries_r_clear_term (m\<lparr>ar_unknown := []\<rparr>)))"
  by (simp add: appendentries_r_Clear_def appendentries_r_clear_term_def appendentries_r_clear_success_def appendentries_r_clear_isheartbeat_def)

lemma requestvote_q_Clear_fields:
  "requestvote_q_Clear m = requestvote_q_clear_lastlogterm (requestvote_q_clear_lastlogindex (requestvote_q_clear_candidateid (requestvote_q_clear_term (m\<lparr>vq_unknown := []\<rparr>))))"
  by (simp add: requestvote_q_Clear_def requestvote_q_clear_term_def requestvote_q_clear_candidateid_def requestvote_q_clear_lastlogindex_def requestvote_q_clear_lastlogterm_def)

lemma requestvote_r_Clear_fields:
  "requestvote_r_Clear m = requestvote_r_clear_votegranted (requestvote_r_clear_term (m\<lparr>vr_unknown := []\<rparr>))"
  by (simp add: requestvote_r_Clear_def requestvote_r_clear_term_def requestvote_r_clear_votegranted_def)

text \<open>The messages of the program are what its calls of accessors make of a new message.\<close>

lemma cfg_entry_accessors:
  "cfg_entry dwTerm strHost iRaftPort iNodeID =
     entry_set_host strHost (entry_set_port (word_of_int iRaftPort) (entry_set_nodeid (word_of_int iNodeID)
       (entry_set_term dwTerm (entry_set_type CFGADD entry_SharedCtor))))"
  by (simp add: cfg_entry_def entry_set_host_def entry_set_port_def entry_set_nodeid_def entry_set_term_def entry_set_type_def)

lemma handshake_reply_accessors: "handshake_reply b = M_handshake_r (handshake_r_set_result b handshake_r_SharedCtor)"
  by (simp add: handshake_reply_def handshake_r_set_result_def)

text \<open>Filling the entries of a message one by one with \<open>add_entries\<close> makes a message with these entries.\<close>

lemma add_entries_fold:
  "fold (\<lambda>e. appendentries_q_add_entries (\<lambda>x. e)) es m = m\<lparr>aq_entries := aq_entries m @ es\<rparr>"
  by (induction es arbitrary: m) (simp_all add: appendentries_q_add_entries_def)

text \<open>A loop over \<open>entries(i)\<close> from 0 to \<open>entries_size()\<close> reads every entry and nothing else.\<close>

lemma entries_at_all:
  "map (\<lambda>i. appendentries_q_entries_at (int i) m) [0..<nat (appendentries_q_entries_size m)] =
     map Inr (appendentries_q_entries m)"
  by (rule nth_equalityI)
    (simp_all add: appendentries_q_entries_at_def appendentries_q_entries_size_def appendentries_q_entries_def)

text \<open>A C string sets the field to what is in front of its zero byte, also when it comes with its length.\<close>

lemma set_host_char_pointer:
  "0 \<notin> set h \<Longrightarrow> entry_set_host_char (Some (h @ 0 # r)) m = Inr (entry_set_host h m)
    \<and> entry_set_host_pointer (h @ 0 # r) (length h) m = Inr (entry_set_host h m)"
  by (auto simp: entry_set_host_char_def entry_set_host_pointer_def entry_set_host_def takeWhile_append)

end
