(* ===== verification/Raft_Msgs.thy ===== *)
theory Raft_Msgs
  imports Raft_Server
begin

text \<open>
  \<open>nanoraft/RaftMsgs.h\<close>: the message class that the generated \<open>appendentries_q\<close> has replaced. Nothing
  constructs it any more; it has setters for its numbers and none for its entries.
\<close>

record AppendEntries =
  ae_dwTerm :: u32
  ae_dwPrevLogIndex :: u32
  ae_dwPrevLogTerm :: u32
  ae_dwLeaderCommit :: u32
  ae_stEntries :: "RaftLogEntry option list"

definition AppendEntries_new :: "u32 \<Rightarrow> u32 \<Rightarrow> u32 \<Rightarrow> u32 \<Rightarrow> AppendEntries" where
  "AppendEntries_new dwTerm dwPrevLogIndex dwPrevLogTerm dwLeaderCommit =
     \<lparr>ae_dwTerm = dwTerm, ae_dwPrevLogIndex = dwPrevLogIndex, ae_dwPrevLogTerm = dwPrevLogTerm,
      ae_dwLeaderCommit = dwLeaderCommit, ae_stEntries = []\<rparr>"

definition AppendEntries_EntriesNum :: "AppendEntries \<Rightarrow> u64" where
  "AppendEntries_EntriesNum m = of_nat (length (ae_stEntries m))"

datatype ae_setter = SetTerm u32 | SetPrevLogIndex u32 | SetPrevLogTerm u32 | SetLeaderCommit u32

fun AppendEntries_Set :: "ae_setter \<Rightarrow> AppendEntries \<Rightarrow> AppendEntries" where
  "AppendEntries_Set (SetTerm dwTerm) m = m\<lparr>ae_dwTerm := dwTerm\<rparr>"
| "AppendEntries_Set (SetPrevLogIndex dwPrevLogIndex) m = m\<lparr>ae_dwPrevLogIndex := dwPrevLogIndex\<rparr>"
| "AppendEntries_Set (SetPrevLogTerm dwPrevLogTerm) m = m\<lparr>ae_dwPrevLogTerm := dwPrevLogTerm\<rparr>"
| "AppendEntries_Set (SetLeaderCommit dwLeaderCommit) m = m\<lparr>ae_dwLeaderCommit := dwLeaderCommit\<rparr>"

lemma entries_Set [simp]: "ae_stEntries (AppendEntries_Set x m) = ae_stEntries m"
  by (cases x) simp_all

lemma entries_Sets [simp]: "ae_stEntries (fold AppendEntries_Set xs m) = ae_stEntries m"
  by (induction xs arbitrary: m) simp_all

text \<open>Whatever is set, in whatever order, the message stays a heartbeat; and its numbers are those set last.\<close>

lemma AppendEntries_empty: "AppendEntries_EntriesNum (fold AppendEntries_Set xs (AppendEntries_new t i u c)) = 0"
  by (simp add: AppendEntries_EntriesNum_def AppendEntries_new_def)

lemma AppendEntries_last:
  "fold AppendEntries_Set (xs @ [SetTerm t, SetPrevLogIndex i, SetPrevLogTerm u, SetLeaderCommit c]) (AppendEntries_new t0 i0 u0 c0) =
     AppendEntries_new t i u c"
  by (simp add: AppendEntries_new_def)

end
