(* ===== verification/Mod_Dispatch.thy ===== *)
theory Mod_Dispatch
  imports Mod_Api
begin

text \<open>
  \<open>mod/MessageWrapper\<close> and the receiving half of \<open>mod/Mod.cpp\<close>: the table of message
  types, and the loop that takes complete frames out of a connection's in buffer, parses
  them and calls the handler, until less than a frame is left. The loop has no bound in the
  code; it is a partial function here, and that it returns is a theorem.
\<close>

section \<open>The table of messages\<close>

record MessageWrapper =
  mw_iID :: int
  mw_szName :: string
  mw_pstMessage :: Message         \<comment> \<open>the prototype that the generated factory registers\<close>

definition MessageWrapper_new :: "int \<Rightarrow> string \<Rightarrow> Message \<Rightarrow> MessageWrapper" where
  "MessageWrapper_new iID szName proto = \<lparr>mw_iID = iID, mw_szName = szName, mw_pstMessage = proto\<rparr>"

definition MessageWrapper_NewMessage :: "MessageWrapper \<Rightarrow> Message" where
  "MessageWrapper_NewMessage mw = Message_New (mw_pstMessage mw)"

definition Mod_LoadMsg :: "MessageWrapper list list \<Rightarrow> MessageWrapper list list" where
  "Mod_LoadMsg tbl = tbl @ [[
     MessageWrapper_new 257 ''api.handshake_q'' (M_handshake_q handshake_q_SharedCtor),
     MessageWrapper_new 258 ''api.handshake_r'' (M_handshake_r handshake_r_SharedCtor),
     MessageWrapper_new 259 ''api.appendentries_q'' (M_appendentries_q appendentries_q_SharedCtor),
     MessageWrapper_new 260 ''api.appendentries_r'' (M_appendentries_r appendentries_r_SharedCtor),
     MessageWrapper_new 261 ''api.requestvote_q'' (M_requestvote_q requestvote_q_SharedCtor),
     MessageWrapper_new 262 ''api.requestvote_r'' (M_requestvote_r requestvote_r_SharedCtor)]]"

text \<open>The server's constructor calls \<open>LoadMsg\<close> once.\<close>

definition s_stMessages :: "MessageWrapper list list" where
  "s_stMessages = Mod_LoadMsg []"

section \<open>One frame\<close>

text \<open>\<open>v[i]\<close> for an \<open>int\<close> index.\<close>

definition vec_at :: "'a list \<Rightarrow> int \<Rightarrow> 'a res" where
  "vec_at xs i = (if 0 \<le> i \<and> i < int (length xs) then Inr (xs ! nat i) else Inl OutOfRange)"

definition lookup_wrapper :: "u16 \<Rightarrow> MessageWrapper res" where
  "lookup_wrapper dwID =
     rbind (vec_at s_stMessages (int (unat dwID div 256) - 1)) (\<lambda>sub.
       vec_at sub (int (unat dwID mod 256) - 1))"

text \<open>The end of a round: listen for writability while something is left to send.\<close>

definition arrived_finish :: "nat \<Rightarrow> 'db world \<Rightarrow> (bool \<times> 'db world) res" where
  "arrived_finish c w = with_conn c w (\<lambda>x.
     rbind (if cn_iOutBufferSize x > 0 then Conn_EnableWrite c w
            else if cn_iOutBufferSize x = 0 then Conn_DisableWrite c w
            else Inr w) (\<lambda>w. Inr (True, w)))"

text \<open>
  One round of the loop in \<open>HandleArrivedMsg\<close>. The flag says whether the loop goes on:
  it returns when no complete frame is in the buffer. The length field is compared as an
  \<open>int\<close> and then handed on as it is. The code does not stop by itself when the length is
  negative: \<open>NegativeLength\<close> is the label for the call of \<open>ParseFromArray\<close> with a negative
  size and of \<open>memcpy\<close> with one beyond the buffer, whose outcome is undefined; likewise
  \<open>OverlappingCopy\<close> in \<open>in_consume\<close> for the overlapping \<open>memcpy\<close>.
\<close>

definition arrived_step :: "'db env \<Rightarrow> nat \<Rightarrow> 'db world \<Rightarrow> (bool \<times> 'db world) res option" where
  "arrived_step E c w =
     (case w_conns w c of None \<Rightarrow> Some (Inl UseAfterFree) | Some x \<Rightarrow>
      if cn_iInBufferSize x < 6 then Some (Inr (False, w))
      else
        let dwID = rd16 (cn_stInBuffer x); dwLen = rd32 (drop 2 (cn_stInBuffer x));
            dwSubID = int (unat dwID mod 256) - 1 in
        if sint dwLen + 6 \<ge> 2 ^ 31 then Some (Inl SignedOverflow)
        else if cn_iInBufferSize x < sint dwLen + 6 then Some (Inr (False, w))
        else case lookup_wrapper dwID of Inl e \<Rightarrow> Some (Inl e) | Inr mw \<Rightarrow>
        if sint dwLen < 0 then Some (Inl NegativeLength)
        else if 6 + unat dwLen > length (cn_stInBuffer x) then Some (Inl BufferOverflow)
        else case Message_ParseFromArray (e_wire E) (take (unat dwLen) (drop 6 (cn_stInBuffer x)))
               (MessageWrapper_NewMessage mw) of
          None \<Rightarrow> None
        | Some pstMessage \<Rightarrow> Some (
            rbind (in_consume (e_memcpy_down E) (int (unat dwLen) + 6) x) (\<lambda>x.
            rbind (ModApi_Proc E c dwSubID pstMessage (set_conn c x w)) (\<lambda>w.
              arrived_finish c w))))"

section \<open>The loop\<close>

partial_function (option) arrived_loop :: "'db env \<Rightarrow> nat \<Rightarrow> 'db world \<Rightarrow> 'db world res option" where
  "arrived_loop E c w =
     Option.bind (arrived_step E c w) (\<lambda>r.
       case r of
         Inl e \<Rightarrow> Some (Inl e)
       | Inr gw \<Rightarrow> if fst gw then arrived_loop E c (snd gw) else Some (Inr (snd gw)))"

definition unpin :: "nat \<Rightarrow> 'db world \<Rightarrow> 'db world" where
  "unpin c w = release c (w\<lparr>w_pins := remove1 c (w_pins w)\<rparr>)"

definition Mod_HandleArrivedMsg :: "'db env \<Rightarrow> nat option \<Rightarrow> 'db world \<Rightarrow> 'db world res option" where
  "Mod_HandleArrivedMsg E m w =
     (case conn_lock w m of
        None \<Rightarrow> Some (Inr w)
      | Some c \<Rightarrow>
          map_option (\<lambda>r. rbind r (\<lambda>w. Inr (unpin c w)))
            (arrived_loop E c (w\<lparr>w_pins := c # w_pins w\<rparr>)))"

text \<open>
  \<open>Conn::RecvCallback\<close>, with what \<open>recv(fd, InBufferPtr(size), dwLength)\<close> finds at the
  socket: bytes that have arrived, an orderly shutdown of the peer, or an error. Of the bytes
  that have arrived \<open>recv\<close> writes at most the requested length; what is left stays at the
  socket, which epoll reports again. The length requested is 1440, wherever the write starts.
\<close>

datatype recv_result = RecvData bytes | RecvShutdown | RecvError

definition dwLength :: nat where "dwLength = 1440"

definition Conn_RecvCallback :: "'db env \<Rightarrow> recv_result \<Rightarrow> nat \<Rightarrow> 'db world \<Rightarrow> 'db world res option" where
  "Conn_RecvCallback E r c w =
     (if \<not> w_alive w then Some (Inr w)
      else case w_conns w c of None \<Rightarrow> Some (Inl UseAfterFree) | Some x \<Rightarrow>
        (case r of
           RecvShutdown \<Rightarrow> Some (Conn_CloseCallback c w)
         | RecvError \<Rightarrow> Some (Inr w)
         | RecvData bs \<Rightarrow>
             (case in_put (take dwLength bs) x of
                Inl e \<Rightarrow> Some (Inl e)
              | Inr x \<Rightarrow> Mod_HandleArrivedMsg E (cn_pstMod x) (set_conn c x w))))"

end
