(* ===== verification/Net_World.thy ===== *)
theory Net_World
  imports Net_Conn
begin

text \<open>
  What every operation on connections keeps: the invariant of the world (the connections in
  \<open>m_stConns_\<close> exist and sit under their own descriptor, every connection object has an
  owner and well-formed buffers), the log of the server as a prefix, and the in buffer of
  the connection whose message is being handled.

  Operations are combined with \<open>rbind\<close>; \<open>steps\<close> says that a computation, if it
  returns, is such a step, and its rules follow the structure of the code.
\<close>

section \<open>The network\<close>

text \<open>
  The encoding is protobuf's, and \<open>send\<close> never reports more bytes than it was given.
\<close>

locale network =
  fixes E :: "'db env"
  assumes wire: "wire_format (e_wire E)"
    and send_bound: "e_send E n fd bs \<le> int (length bs)"

interpretation calm: network calm_env
  using leb.wire_format_axioms by (intro network.intro) simp_all

section \<open>Steps\<close>

definition world_ok :: "'db world \<Rightarrow> bool" where
  "world_ok w \<longleftrightarrow> srv_inv (w_server w)
     \<and> (\<forall>fd c. om_find fd (s_stConns (w_server w)) = Some c \<longrightarrow>
          (\<exists>x. w_conns w c = Some x \<and> cn_iFd x = fd))
     \<and> (\<forall>c x. w_conns w c = Some x \<longrightarrow> c < w_next w \<and> owned w c \<and> in_ok x \<and> out_ok x)"

definition same_in :: "Conn \<Rightarrow> Conn \<Rightarrow> bool" where
  "same_in x x' \<longleftrightarrow> cn_iFd x' = cn_iFd x \<and> cn_pstMod x' = cn_pstMod x
     \<and> cn_stInBuffer x' = cn_stInBuffer x \<and> cn_iInBufferSize x' = cn_iInBufferSize x"

definition wstep :: "'db env \<Rightarrow> 'db world \<Rightarrow> 'db world \<Rightarrow> bool" where
  "wstep E w w' \<longleftrightarrow> w_alive w' = w_alive w \<and> w_pins w' = w_pins w
     \<and> extends E (w_server w) (w_server w') \<and> prefix (w_trace w) (w_trace w')
     \<and> (\<forall>c \<in> set (w_pins w). \<forall>x. w_conns w c = Some x \<longrightarrow>
          (\<exists>x'. w_conns w' c = Some x' \<and> same_in x x'))
     \<and> (world_ok w \<longrightarrow> world_ok w')"

lemma same_in_refl [simp]: "same_in x x"
  by (simp add: same_in_def)

lemma same_in_trans: "same_in x y \<Longrightarrow> same_in y z \<Longrightarrow> same_in x z"
  by (simp add: same_in_def)

lemma wstep_refl [simp, intro]: "wstep E w w"
  by (auto simp: wstep_def)

lemma wstep_pinned:
  "wstep E w w' \<Longrightarrow> c \<in> set (w_pins w) \<Longrightarrow> w_conns w c = Some x \<Longrightarrow>
   \<exists>x'. w_conns w' c = Some x' \<and> same_in x x'"
  unfolding wstep_def by blast

lemma wstep_pins: "wstep E w w' \<Longrightarrow> w_pins w' = w_pins w"
  by (simp add: wstep_def)

lemma world_ok_fd:
  "world_ok w \<Longrightarrow> om_find fd (s_stConns (w_server w)) = Some c \<Longrightarrow> w_conns w c = Some x \<Longrightarrow> cn_iFd x = fd"
  unfolding world_ok_def by (metis option.inject)

lemma world_ok_heap:
  "world_ok w \<Longrightarrow> w_conns w c = Some x \<Longrightarrow> c < w_next w \<and> owned w c \<and> in_ok x \<and> out_ok x"
  unfolding world_ok_def by blast

lemma wstep_trans [trans]: "wstep E u v \<Longrightarrow> wstep E v w \<Longrightarrow> wstep E u w"
proof -
  assume uv: "wstep E u v" and vw: "wstep E v w"
  have "\<exists>x'. w_conns w c = Some x' \<and> same_in x x'"
    if c: "c \<in> set (w_pins u)" "w_conns u c = Some x" for c x
  proof -
    obtain y where y: "w_conns v c = Some y" "same_in x y" using wstep_pinned [OF uv c] by blast
    obtain z where "w_conns w c = Some z" "same_in y z"
      using wstep_pinned [OF vw _ y(1)] c(1) wstep_pins [OF uv] by auto
    with y(2) show ?thesis by (auto intro: same_in_trans)
  qed
  with uv vw show ?thesis by (auto simp: wstep_def intro: extends_trans prefix_order.trans)
qed

definition steps :: "'db env \<Rightarrow> 'db world \<Rightarrow> 'db world res \<Rightarrow> bool" where
  "steps E w m \<longleftrightarrow> (\<forall>w'. m = Inr w' \<longrightarrow> wstep E w w')"

definition steps_val :: "'db env \<Rightarrow> 'db world \<Rightarrow> ('a \<times> 'db world) res \<Rightarrow> bool" where
  "steps_val E w m \<longleftrightarrow> (\<forall>a w'. m = Inr (a, w') \<longrightarrow> wstep E w w')"

lemma stepsD: "steps E w m \<Longrightarrow> m = Inr w' \<Longrightarrow> wstep E w w'"
  by (simp add: steps_def)

lemma steps_Inr [simp]: "steps E w (Inr w') \<longleftrightarrow> wstep E w w'"
  by (simp add: steps_def)

lemma steps_Inl [simp]: "steps E w (Inl e)"
  by (simp add: steps_def)

lemma steps_val_Inr [simp]: "steps_val E w (Inr (a, w')) \<longleftrightarrow> wstep E w w'"
  by (simp add: steps_val_def)

lemma steps_val_Inl [simp]: "steps_val E w (Inl e)"
  by (simp add: steps_val_def)

lemma steps_after: "wstep E w w' \<Longrightarrow> steps E w' m \<Longrightarrow> steps E w m"
  by (auto simp: steps_def intro: wstep_trans)

lemma steps_bind:
  assumes "steps E w m" and "\<And>w'. steps E w' (f w')"
  shows "steps E w (rbind m f)"
  using assms by (simp add: steps_def rbind_Inr_iff) (blast intro: wstep_trans)

lemma steps_val_bind:
  assumes "steps E w m" and "\<And>w'. steps_val E w' (f w')"
  shows "steps_val E w (rbind m f)"
  using assms by (simp add: steps_def steps_val_def rbind_Inr_iff) (blast intro: wstep_trans)

lemma steps_bind_val:
  assumes "steps_val E w m" and "\<And>a w'. steps E w' (f (a, w'))"
  shows "steps E w (rbind m f)"
  using assms by (simp add: steps_def steps_val_def rbind_Inr_iff) (blast intro: wstep_trans)

lemma steps_val_bind_val:
  assumes "steps_val E w m" and "\<And>a w'. steps_val E w' (f (a, w'))"
  shows "steps_val E w (rbind m f)"
  using assms by (simp add: steps_val_def rbind_Inr_iff) (blast intro: wstep_trans)

text \<open>A computation that only reads, such as a lookup of a term, in front of a step.\<close>

lemma steps_bind_pure: "(\<And>a. steps E w (f a)) \<Longrightarrow> steps E w (rbind m f)"
  by (auto simp: steps_def rbind_Inr_iff)

lemma steps_val_bind_pure: "(\<And>a. steps_val E w (f a)) \<Longrightarrow> steps_val E w (rbind m f)"
  by (auto simp: steps_val_def rbind_Inr_iff)

lemma steps_with_conn: "(\<And>x. w_conns w c = Some x \<Longrightarrow> steps E w (f x)) \<Longrightarrow> steps E w (with_conn c w f)"
  by (simp add: with_conn_def split: option.split)

lemma steps_rfold: "(\<And>x w. steps E w (f x w)) \<Longrightarrow> steps E w (rfold f xs w)"
  by (induction xs arbitrary: w) (auto intro: steps_bind)

section \<open>Elementary steps\<close>

lemma wstep_emit [simp, intro]: "wstep E w (emit eff w)"
  by (auto simp: wstep_def emit_def world_ok_def owned_def)

lemma wstep_server:
  assumes "extends E (w_server w) s" and "s_stConns s = s_stConns (w_server w)"
  shows "wstep E w (w\<lparr>w_server := s\<rparr>)"
  using assms by (auto simp: wstep_def world_ok_def owned_def extends_def)

lemma wstep_set_conn:
  assumes "w_conns w c = Some x" and "same_in x x'" and "out_ok x \<Longrightarrow> out_ok x'"
  shows "wstep E w (set_conn c x' w)"
proof -
  have "cn_iFd x' = cn_iFd x" "in_ok x' = in_ok x" using assms(2) by (simp_all add: same_in_def in_ok_def)
  moreover have "cn_iFd x = fd" if "world_ok w" "om_find fd (s_stConns (w_server w)) = Some c" for fd
    using that assms(1) by (rule world_ok_fd)
  ultimately have "world_ok (set_conn c x' w)" if "world_ok w"
    using that assms(1,3) by (auto simp: world_ok_def set_conn_def owned_def)
  with assms show ?thesis by (auto simp: wstep_def set_conn_def)
qed

lemma steps_Conn_channel: "steps E w (Conn_channel c f w)"
  unfolding Conn_channel_def
proof (rule steps_with_conn)
  fix x assume x: "w_conns w c = Some x"
  obtain ch eff where f: "f (cn_pstChannel x) = (ch, eff)" by fastforce
  have "wstep E w (set_conn c (x\<lparr>cn_pstChannel := ch\<rparr>) w)"
    by (rule wstep_set_conn [OF x]) (simp_all add: same_in_def out_ok_def)
  then show "steps E w (let (ch, eff) = f (cn_pstChannel x) in
      Inr (emit eff (set_conn c (x\<lparr>cn_pstChannel := ch\<rparr>) w)))"
    using wstep_trans [OF _ wstep_emit] by (simp add: f)
qed

lemma steps_on_server:
  assumes "\<And>s s'. f s = Inr s' \<Longrightarrow> extends E s s' \<and> s_stConns s' = s_stConns s"
  shows "steps E w (on_server f w)"
  using assms by (auto simp: on_server_def steps_def rbind_Inr_iff intro!: wstep_server)

text \<open>Closing: a pinned connection survives the erasure of its map element.\<close>

lemma wstep_release:
  assumes "\<And>c'. w_conns w c' \<noteq> None \<Longrightarrow> c' \<noteq> c \<Longrightarrow> owned w c'"
    and "srv_inv (w_server w)"
    and "\<And>fd c'. om_find fd (s_stConns (w_server w)) = Some c' \<Longrightarrow> \<exists>x. w_conns w c' = Some x \<and> cn_iFd x = fd"
    and "\<And>c' x. w_conns w c' = Some x \<Longrightarrow> c' < w_next w \<and> in_ok x \<and> out_ok x"
  shows "world_ok (release c w)"
proof (cases "owned w c")
  case True
  with assms show ?thesis by (auto simp: release_def world_ok_def)
next
  case False
  have "c' \<noteq> c" if "om_find fd (s_stConns (w_server w)) = Some c'" for fd c'
  proof -
    have "(fd, c') \<in> set (s_stConns (w_server w))"
      using that assms(2) om.elements_find [of "s_stConns (w_server w)" fd c'] by (simp add: srv_inv_def)
    with False show ?thesis by (force simp: owned_def)
  qed
  note keep = this
  define w' where "w' = release c w"
  have w': "w_conns w' = (w_conns w)(c := None)" "w_server w' = w_server w" "w_pins w' = w_pins w"
      "w_next w' = w_next w"
    using False by (auto simp: w'_def release_def Conn_destroy_def emit_def Let_def split: option.split)
  have "owned w' c'" if "w_conns w' c' \<noteq> None" for c'
    using that assms(1) [of c'] by (auto simp: w' owned_def split: if_splits)
  moreover have "\<exists>x. w_conns w' c' = Some x \<and> cn_iFd x = fd"
    if "om_find fd (s_stConns (w_server w')) = Some c'" for fd c'
    using that assms(3) [of fd c'] keep [of fd c'] by (simp add: w')
  ultimately have "world_ok w'"
    using assms(2,4) by (auto simp: world_ok_def w' split: if_splits)
  then show ?thesis by (simp add: w'_def)
qed

lemma release_pinned: "c' \<in> set (w_pins w) \<Longrightarrow> w_conns (release c w) c' = w_conns w c'"
  by (auto simp: release_def owned_def Conn_destroy_def emit_def Let_def split: option.split)

lemma release_frame [simp]:
  "w_server (release c w) = w_server w" "w_pins (release c w) = w_pins w"
  "w_alive (release c w) = w_alive w" "w_next (release c w) = w_next w"
  "prefix (w_trace w) (w_trace (release c w))"
  by (auto simp: release_def Conn_destroy_def emit_def Let_def split: option.split)

lemma steps_OfflineConn: "steps E w (OfflineConn iFd w)"
proof (cases "om_find iFd (s_stConns (w_server w))")
  case None
  then show ?thesis by (simp add: OfflineConn_def RaftServer_OfflineConn_def)
next
  case (Some c)
  let ?s = "w_server w\<lparr>s_stConns := om_erase iFd (s_stConns (w_server w))\<rparr>"
  let ?w = "w\<lparr>w_server := ?s\<rparr>"
  have off: "OfflineConn iFd w = Inr (release c ?w)"
    by (simp add: OfflineConn_def RaftServer_OfflineConn_def Some)
  have ext: "extends E (w_server w) ?s"
    by (rule extends_OfflineConn [of iFd]) (simp add: RaftServer_OfflineConn_def Some)
  have "world_ok (release c ?w)" if ok: "world_ok w"
  proof (rule wstep_release)
    have om: "om_ok (s_stConns (w_server w))" using ok by (simp add: world_ok_def srv_inv_def)
    show "srv_inv (w_server ?w)" using ok ext by (simp add: world_ok_def extends_def)
    fix c' assume c': "w_conns ?w c' \<noteq> None" "c' \<noteq> c"
    have "owned w c'" using c'(1) ok by (auto simp: world_ok_def)
    then consider "c' \<in> set (w_pins w)" | fd where "om_find fd (s_stConns (w_server w)) = Some c'"
      using om.elements_find [OF om] by (force simp: owned_def)
    then show "owned ?w c'"
    proof cases
      case (2 fd)
      with c'(2) Some have "om_find fd (om_erase iFd (s_stConns (w_server w))) = Some c'"
        by (auto simp: om.find_erase [OF om])
      then have "(fd, c') \<in> set (om_erase iFd (s_stConns (w_server w)))"
        using om.elements_find [OF om.ok_erase [OF om]] by blast
      then show ?thesis by (force simp: owned_def)
    qed (simp add: owned_def)
  qed (use ok in \<open>auto simp: world_ok_def om_find_erase srv_inv_def split: if_splits\<close>)
  then show ?thesis
    using ext release_frame(5) [of ?w c] release_pinned [of _ ?w c] by (auto simp: off wstep_def)
qed

section \<open>Frames\<close>

lemma sint_of_small: "0 \<le> k \<Longrightarrow> k < 2 ^ 31 \<Longrightarrow> sint (word_of_int k :: u32) = k"
  by (simp add: sint_sbintrunc' signed_take_bit_int_eq_self)

lemma length_frame [simp]: "length (frame W i m) = 6 + length (Message_Serialize W m)"
  by (simp add: frame_def)

text \<open>
  The three writes put one frame behind the out buffer's content, when it fits; when it does
  not, they run past the end of the buffer.
\<close>

lemma push_frame_eq:
  assumes wf: "wire_format W" and ok: "out_ok x"
  shows "push_frame W i m x =
    (if length (out_queue x) + length (frame W i m) \<le> BUFSIZE then out_put (frame W i m) x
     else Inl BufferOverflow)"
proof -
  define sz where "sz = cn_iOutBufferSize x"
  define L where "L = length (Message_Serialize W m)"
  have len: "Message_ByteSize W m = L" by (simp add: L_def wire_format.Message_size [OF wf])
  have b: "length (cn_stOutBuffer x) = BUFSIZE" "0 \<le> sz" "sz \<le> int BUFSIZE" "length (out_queue x) = nat sz"
    using ok by (auto simp: out_ok_def buf_ok_def out_queue_def content_def sz_def)
  have n: "nat (sz + 2) = nat sz + 2" "nat (sz + 6) = nat sz + 6" using b(2) by auto
  show ?thesis
  proof (cases "nat sz + 6 + L \<le> BUFSIZE")
    case True
    have sum: "word_of_int (sz + 6) + of_nat L = (word_of_int (sz + 6 + int L) :: u32)" by simp
    have size: "sint (word_of_int (sz + 6) + of_nat L :: u32) = sz + int (length (frame W i m))"
      using True b(2) unfolding sum by (subst sint_of_small) (simp_all add: BUFSIZE_def L_def)
    have "blit (nat sz + 6) (Message_Serialize W m)
        (blit (nat sz + 2) (le32 (of_nat L)) (blit (nat sz) (le16 i) (cn_stOutBuffer x))) =
      blit (nat sz) (frame W i m) (cn_stOutBuffer x)"
      using True b(1) blit_blit_adjacent [of "nat sz" "le16 i" "le32 (of_nat L)" "cn_stOutBuffer x"]
        blit_blit_adjacent [of "nat sz" "le16 i @ le32 (of_nat L)" "Message_Serialize W m" "cn_stOutBuffer x"]
      by (simp add: frame_def len L_def)
    with True b n size show ?thesis
      by (simp add: push_frame_def out_put_def buf_write_def len Let_def flip: sz_def L_def)
  next
    case False
    with b n show ?thesis
      by (auto simp: push_frame_def buf_write_def len Let_def rbind_Inl_iff simp flip: sz_def L_def)
  qed
qed

lemma same_in_out_put: "out_put bs x = Inr x' \<Longrightarrow> same_in x x'"
  by (auto simp: out_put_def rbind_Inr_iff same_in_def)

lemma same_in_out_consume: "out_consume b k x = Inr x' \<Longrightarrow> same_in x x'"
  by (auto simp: out_consume_def Let_def rbind_Inr_iff same_in_def split: if_splits)

lemma out_consume_ok:
  assumes "out_consume b k x = Inr x'" and "out_ok x" and "0 < k" and "k \<le> cn_iOutBufferSize x"
  shows "out_ok x'"
  using assms
  by (auto simp: out_consume_def out_ok_def buf_ok_def buf_down_def Let_def rbind_Inr_iff split: if_splits)

lemma push_frame_same_in: "push_frame W i m x = Inr x' \<Longrightarrow> same_in x x'"
  by (auto simp: push_frame_def Let_def rbind_Inr_iff same_in_def)

context network
begin

lemma steps_flush_out:
  assumes x: "w_conns w c = Some x0" and s: "same_in x0 x" and ok: "out_ok x0 \<Longrightarrow> out_ok x"
  shows "steps E w (flush_out E c x w)"
proof -
  define bs where "bs = take (nat (cn_iOutBufferSize x)) (cn_stOutBuffer x)"
  define k where "k = e_send E (length (w_trace w)) (cn_iFd x) bs"
  have k: "k \<le> cn_iOutBufferSize x" if "out_ok x"
    using send_bound [of "length (w_trace w)" "cn_iFd x" bs] that
    by (auto simp: k_def bs_def out_ok_def buf_ok_def)
  have e: "wstep E w (emit [SendCall (cn_iFd x) bs k] w)" by simp
  have set: "wstep E (emit [SendCall (cn_iFd x) bs k] w) (set_conn c x' (emit [SendCall (cn_iFd x) bs k] w))"
    if "same_in x x'" "out_ok x \<Longrightarrow> out_ok x'" for x'
    using x s ok that by (intro wstep_set_conn [of _ _ x0]) (auto simp: emit_def intro: same_in_trans)
  have "wstep E w (set_conn c x' (emit [SendCall (cn_iFd x) bs k] w))"
    if "0 < k" "out_consume (e_memcpy_down E) k x = Inr x'" for x'
    using that k by (intro wstep_trans [OF e] set)
      (auto intro: same_in_out_consume out_consume_ok)
  moreover have "wstep E w (set_conn c x (emit [SendCall (cn_iFd x) bs k] w))"
    by (rule wstep_trans [OF e set]) simp_all
  ultimately show ?thesis
    by (auto simp: flush_out_def Let_def steps_def rbind_Inr_iff simp flip: bs_def k_def split: if_splits)
qed

lemma push_frame_out_ok: "push_frame (e_wire E) i m x = Inr x' \<Longrightarrow> out_ok x \<Longrightarrow> out_ok x'"
  using push_frame_eq [OF wire, of x i m] outq.put_fits [of x "frame (e_wire E) i m"]
  by (auto split: if_splits)

lemma steps_send_frame: "steps E w (send_frame E c i m w)"
  unfolding send_frame_def
proof (rule steps_with_conn)
  fix x assume x: "w_conns w c = Some x"
  show "steps E w (rbind (push_frame (e_wire E) i m x) (\<lambda>x. flush_out E c x w))"
    using steps_flush_out [OF x] push_frame_same_in [of "e_wire E" i m x] push_frame_out_ok [of i m x]
    by (auto simp: steps_def rbind_Inr_iff)
qed

text \<open>
  When the frame fits, the whole queue \<open>q\<close> is offered to \<open>send\<close>, which takes \<open>k\<close> bytes. The rest is moved to the
  front: no byte is lost, unless the moved regions overlap and \<open>memcpy\<close> does not cope with it.
\<close>

lemma send_frame_copies:
  assumes "w_conns w c = Some x" and "out_ok x"
    and "length (out_queue x) + length (frame (e_wire E) i m) \<le> BUFSIZE"
    and q: "q = out_queue x @ frame (e_wire E) i m" and k: "k = e_send E (length (w_trace w)) (cn_iFd x) q"
  shows "if e_memcpy_down E \<or> k \<le> 0 \<or> int (length q) \<le> 2 * k
    then \<exists>w' x'. send_frame E c i m w = Inr w' \<and> w_conns w' = (w_conns w)(c \<mapsto> x') \<and> out_ok x'
      \<and> w_trace w' = w_trace w @ [SendCall (cn_iFd x) q k] \<and> take (nat k) q @ out_queue x' = q
      \<and> w_server w' = w_server w
    else send_frame E c i m w = Inl OverlappingCopy"
proof -
  obtain x1 where put: "out_put (frame (e_wire E) i m) x = Inr x1" and ok: "out_ok x1" "out_queue x1 = q"
    using out_put_fits [OF assms(2,3)] unfolding q by blast
  then have x1: "push_frame (e_wire E) i m x = Inr x1" "cn_iFd x1 = cn_iFd x"
    using push_frame_eq [OF wire assms(2), of i m] same_in_out_put [OF put] assms(3)
    by (simp_all add: same_in_def)
  have kq: "k \<le> int (length q)" unfolding k by (rule send_bound)
  have bs: "take (nat (cn_iOutBufferSize x1)) (cn_stOutBuffer x1) = q"
    using ok(2) by (simp add: out_queue_def content_def)
  have run: "send_frame E c i m w =
      (if 0 < k then rbind (out_consume (e_memcpy_down E) k x1) (\<lambda>x. Inr (set_conn c x (emit [SendCall (cn_iFd x1) q k] w)))
       else Inr (set_conn c x1 (emit [SendCall (cn_iFd x1) q k] w)))"
    using x1 assms(1) by (simp add: send_frame_def with_conn_def flush_out_def bs Let_def flip: k)
  consider "k \<le> 0" | "0 < k" "e_memcpy_down E \<or> length q \<le> 2 * nat k"
    | "0 < k" "\<not> e_memcpy_down E" "2 * nat k < length q" by linarith
  then show ?thesis
  proof cases
    case 1
    with x1 ok show ?thesis by (auto simp: run set_conn_def emit_def)
  next
    case 2
    have "nat k \<le> length (out_queue x1)" unfolding ok(2) using kq by linarith
    then obtain x2 where "out_consume (e_memcpy_down E) (int (nat k)) x1 = Inr x2" "out_ok x2" "out_queue x2 = drop (nat k) q"
      using out_consume_front [OF ok(1)] 2(2) unfolding ok(2) by blast
    with 2 x1 show ?thesis by (auto simp: run set_conn_def emit_def)
  next
    case 3
    then show ?thesis using out_consume_overlap [OF ok(1), of "nat k"] by (auto simp: run ok(2))
  qed
qed

lemma send_frame_fits:
  assumes "e_memcpy_down E" and "w_conns w c = Some x" and "out_ok x"
    and "length (out_queue x) + length (frame (e_wire E) i m) \<le> BUFSIZE"
  shows "\<exists>w' x'. send_frame E c i m w = Inr w' \<and> w_conns w' = (w_conns w)(c \<mapsto> x') \<and> out_ok x'
    \<and> w_trace w' = w_trace w @ [SendCall (cn_iFd x) (out_queue x @ frame (e_wire E) i m)
        (e_send E (length (w_trace w)) (cn_iFd x) (out_queue x @ frame (e_wire E) i m))]
    \<and> take (nat (e_send E (length (w_trace w)) (cn_iFd x) (out_queue x @ frame (e_wire E) i m)))
        (out_queue x @ frame (e_wire E) i m) @ out_queue x' = out_queue x @ frame (e_wire E) i m
    \<and> w_server w' = w_server w"
  using send_frame_copies [OF assms(2-4) refl refl] assms(1) by simp

lemma steps_SendHandShakeQ: "steps E w (Conn_SendHandShakeQ E c w)"
  unfolding Conn_SendHandShakeQ_def
  by (auto intro!: steps_with_conn steps_send_frame split: option.split)

lemma steps_SendAppendEntries: "steps E w (Conn_SendAppendEntries E c b1 b2 w)"
  unfolding Conn_SendAppendEntries_def
  by (auto intro!: steps_with_conn steps_send_frame steps_bind_pure split: option.split)

lemma steps_Proxy_SendAppendEntries: "steps E w (RaftProxy_SendAppendEntries E p b w)"
  unfolding RaftProxy_SendAppendEntries_def
  by (auto intro!: steps_SendAppendEntries split: option.split)

lemma steps_BroadCastAppendEntries: "steps E w (RaftServer_BroadCastAppendEntries E b w)"
  unfolding RaftServer_BroadCastAppendEntries_def for_proxies_def
  by (auto intro!: steps_rfold steps_Proxy_SendAppendEntries split: option.split)

end

section \<open>Closing and the forwarded calls\<close>

lemma steps_close: "steps E w (OfflineConn fd (emit eff w))"
  by (rule steps_after [OF wstep_emit steps_OfflineConn])

lemma steps_CloseCallback: "steps E w (Conn_CloseCallback c w)"
  unfolding Conn_CloseCallback_def
  by (auto intro!: steps_bind steps_Conn_channel steps_with_conn steps_close)

lemma steps_Server_CloseConn: "steps E w (Conn_Server_CloseConn c fd w)"
  unfolding Conn_Server_CloseConn_def
  by (auto intro!: steps_bind steps_Conn_channel steps_close)

lemma conns_frame:
  "RaftServer_AddProxy k s = Inr s' \<Longrightarrow> s_stConns s' = s_stConns s"
  "RaftServer_SetAndPersistTerm E t s = Inr s' \<Longrightarrow> s_stConns s' = s_stConns s"
  "RaftServer_AppendCfgLog E h p n s = Inr s' \<Longrightarrow> s_stConns s' = s_stConns s"
  "RaftServer_ChangeCommitIndex s = Inr (b, s') \<Longrightarrow> s_stConns s' = s_stConns s"
  "s_stConns (proxy_update k f s) = s_stConns s"
  by (auto simp: RaftServer_AddProxy_def RaftServer_SetAndPersistTerm_def RaftServer_ChangeCommitIndex_def
      proxy_update_def Let_def rbind_Inr_iff elim!: AppendCfgLog_cases split: option.splits prod.splits if_splits)

lemma steps_Server_AddProxy: "steps E w (Conn_Server_AddProxy k w)"
  unfolding Conn_Server_AddProxy_def
  by (rule steps_on_server) (simp add: extends_AddProxy conns_frame)

lemma steps_Server_SetTerm: "steps E w (Conn_Server_SetTerm E t w)"
  unfolding Conn_Server_SetTerm_def
  by (rule steps_on_server) (simp add: extends_SetAndPersistTerm conns_frame)

lemma steps_Server_AppendCfgLog: "steps E w (Conn_Server_AppendCfgLog E h p n w)"
  unfolding Conn_Server_AppendCfgLog_def
  by (rule steps_on_server) (simp add: extends_AppendCfgLog conns_frame)

lemma steps_Server_BecomeFollower: "steps E w (Conn_Server_BecomeFollower w)"
  unfolding Conn_Server_BecomeFollower_def
  by (rule steps_on_server) (auto simp: RaftServer_BecomeFollower_def intro!: extends_fields)

lemma steps_Server_SetCommitIndex: "steps E w (Conn_Server_SetCommitIndex i w)"
  unfolding Conn_Server_SetCommitIndex_def
  by (rule steps_on_server) (auto simp: RaftServer_SetCommitIndex_def intro!: extends_fields)

lemma steps_Server_FreshTime: "steps E w (Conn_Server_FreshTime t w)"
proof -
  obtain s eff where f: "RaftServer_FreshTime t (w_server w) = (s, eff)" by fastforce
  have "extends E (w_server w) s" using extends_simple(5) [of E "w_server w" t] by (simp add: f)
  moreover have "s_stConns s = s_stConns (w_server w)"
    using f by (auto simp: RaftServer_FreshTime_def Let_def split: prod.splits option.splits if_splits)
  ultimately have "wstep E w (emit eff (w\<lparr>w_server := s\<rparr>))" by (rule wstep_trans [OF wstep_server wstep_emit])
  then show ?thesis by (simp add: Conn_Server_FreshTime_def f)
qed

lemma steps_Server_ChangeCommitIndex: "steps_val E w (Conn_Server_ChangeCommitIndex w)"
  by (auto simp: Conn_Server_ChangeCommitIndex_def steps_val_def rbind_Inr_iff
      intro!: wstep_server extends_ChangeCommitIndex conns_frame)

section \<open>A concrete world\<close>

text \<open>A new server with one accepted connection: descriptor 7, address 0.\<close>

definition calm_conn :: Conn where
  "calm_conn = \<lparr>cn_iFd = 7, cn_stInBuffer = replicate BUFSIZE 0, cn_stOutBuffer = replicate BUFSIZE 0,
     cn_pstChannel = (Channel_new 7 True False)\<lparr>ch_stReadCallback := Some Bind_RecvCallback,
       ch_stWriteCallback := Some Bind_SendCallback, ch_stCloseCallback := Some Bind_CloseCallback,
       ch_iStatus := iIsAdded, ch_iEvents := s_iReadEvent, ch_pstConn := Some (Tied_Conn 0)\<rparr>,
     cn_pstMod = Some 0, cn_iInBufferSize = 0, cn_iOutBufferSize = 0, cn_pstProxy = None,
     cn_iRaftPort = 0, cn_strAddr = str ''10.0.0.7'', cn_iJoinPort = 0, cn_strJoinAddr = [],
     cn_iNodeID = None\<rparr>"

definition calm_world :: "(bytes \<times> bytes) list world" where
  "calm_world = (new_world (calm_server\<lparr>s_stConns := [(7, 0)]\<rparr>))\<lparr>w_conns := [0 \<mapsto> calm_conn], w_next := 1\<rparr>"

lemma calm_conn_queues [simp]:
  "out_ok calm_conn" "in_ok calm_conn" "out_queue calm_conn = []" "in_queue calm_conn = []"
  "cn_iFd calm_conn = 7" "cn_pstMod calm_conn = Some 0" "cn_iOutBufferSize calm_conn = 0"
  "cn_pstProxy calm_conn = None"
  by (simp_all add: calm_conn_def out_ok_def in_ok_def out_queue_def in_queue_def buf_ok_def content_def)

lemma calm_world_simps [simp]:
  "w_conns calm_world 0 = Some calm_conn" "w_alive calm_world" "w_pins calm_world = []"
  "w_trace calm_world = []" "w_server calm_world = calm_server\<lparr>s_stConns := [(7, 0)]\<rparr>"
  by (simp_all add: calm_world_def new_world_def)

lemma calm_world_ok: "world_ok calm_world"
  by (auto simp: world_ok_def calm_world_def new_world_def srv_inv_def calm_server_simps om_ok_def
      owned_def split: if_splits)

text \<open>On the concrete network everything is taken at once.\<close>

lemma calm_send:
  assumes "w_conns w c = Some x" and "out_ok x" and "out_queue x = []"
    and "length (frame leb_wire i m) \<le> BUFSIZE"
  shows "\<exists>w' x'. send_frame calm_env c i m w = Inr w' \<and> w_conns w' = (w_conns w)(c \<mapsto> x') \<and> out_ok x'
    \<and> out_queue x' = [] \<and> w_server w' = w_server w"
  using calm.send_frame_fits [of w c x i m] assms by (auto simp: nat_add_distrib)

end
