(* ===== verification/Mod_World.thy ===== *)
theory Mod_World
  imports Mod_Dispatch Net_World
begin

text \<open>
  Every message handler is a step of the world, and the loop that takes messages out of an
  in buffer ends.
\<close>

section \<open>Tying and acknowledging\<close>

lemma om_assign_assign [simp]: "om_assign k v' (om_assign k v m) = om_assign k v' m"
  by (induction k v m rule: om_assign.induct) auto

lemma proxy_update_comp: "proxy_update k g (proxy_update k f s) = proxy_update k (\<lambda>p. g (f p)) s"
  by (auto simp: proxy_update_def split: option.splits)

text \<open>The two increments of an acknowledgement, as one change of the proxy.\<close>

definition ack_proxy :: "RaftProxy \<Rightarrow> RaftProxy" where
  "ack_proxy p = p\<lparr>p_ulMatchIndex := p_ulMatchIndex p + 1, p_ulNextIndex := p_ulNextIndex p + 1\<rparr>"

lemma IncrMatch_IncrNext:
  "rbind (Conn_Proxy_IncrMatchIndex c w) (Conn_Proxy_IncrNextIndex c) = Conn_Proxy c ack_proxy w"
  by (auto simp: Conn_Proxy_IncrMatchIndex_def Conn_Proxy_IncrNextIndex_def Conn_Proxy_def with_conn_def
      upd_server_def proxy_update_comp ack_proxy_def [abs_def] split: option.split)

lemma wstep_proxy_update:
  "extends E (w_server w) (proxy_update k f (w_server w)) \<Longrightarrow> wstep E w (upd_server (proxy_update k f) w)"
  by (auto simp: upd_server_def conns_frame intro!: wstep_server)

lemma wstep_proxy_Tie: "wstep E w (upd_server (proxy_update k (RaftProxy_Tie c fd)) w)"
  by (rule wstep_proxy_update) (rule proxy_update_extends, simp_all add: RaftProxy_Tie_def)

lemma steps_ack: "steps E w (Conn_Proxy c ack_proxy w)"
  by (auto simp: Conn_Proxy_def ack_proxy_def intro!: steps_with_conn wstep_proxy_update proxy_update_extends
      split: option.split)

lemma steps_Tie:
  assumes "om_find k (s_stProxys (w_server w)) \<noteq> None"
  shows "steps E w (Conn_Tie c k w)"
proof -
  obtain q s where g: "RaftServer_GetProxyByID k (w_server w) = (q, s)" by fastforce
  have s: "s = w_server w"
    using g assms by (auto simp: RaftServer_GetProxyByID_def om_index_def)
  have "wstep E w (set_conn c (x\<lparr>cn_pstProxy := Some q\<rparr>) w)" if "w_conns w c = Some x" for x
    by (rule wstep_set_conn [OF that]) (simp_all add: same_in_def out_ok_def)
  then show ?thesis
    by (auto simp: Conn_Tie_def g s Let_def intro!: steps_with_conn split: option.split
        intro: wstep_trans [OF _ wstep_proxy_Tie])
qed

section \<open>The handlers\<close>

lemma steps_Server_DelLogsFromIndex: "steps E w (Conn_Server_DelLogsFromIndex E i w)"
  unfolding Conn_Server_DelLogsFromIndex_def
  by (rule steps_on_server) (auto simp: extends_DelLogsFromIndex DelLogsFromIndex_frame)

lemma steps_aeq_terms: "steps_val E w (aeq_terms E p w)"
  unfolding aeq_terms_def
  by (auto intro!: steps_val_bind steps_Server_BecomeFollower steps_Server_SetTerm)

lemma steps_aeq_conflicts: "steps_val E w (aeq_conflicts E i es w)"
proof (induction es arbitrary: i w)
  case (Cons e es)
  have "steps_val E w (rbind (Conn_Server_DelLogsFromIndex E j w) (aeq_conflicts E (i + 1) es))" for j
    by (intro steps_val_bind steps_Server_DelLogsFromIndex Cons.IH)
  then show ?case by (auto intro!: steps_val_bind_pure)
qed simp

lemma steps_aeq_append: "steps E w (aeq_append E es w)"
  unfolding aeq_append_def
  by (rule steps_rfold) (auto simp: aeq_append_one_def intro!: steps_Server_AppendCfgLog)

lemma steps_aeq_body: "steps_val E w (aeq_body E p w)"
proof -
  have heartbeat: "steps_val E w (rbind (Conn_Server_FreshTime t w) (\<lambda>w. Inr (m, w)))"
    for t and m :: appendentries_r and w :: "'a world"
    by (rule steps_val_bind [OF steps_Server_FreshTime]) simp
  have entries: "steps_val E w (rbind (aeq_conflicts E i es w) (\<lambda>(es, w).
      rbind (aeq_append E es w) (\<lambda>w. Inr (m, w))))"
    for i es and m :: appendentries_r and w :: "'a world"
    by (rule steps_val_bind_val [OF steps_aeq_conflicts]) (simp add: steps_val_bind [OF steps_aeq_append])
  show ?thesis
    unfolding aeq_body_def Let_def
    by (rule steps_val_bind_val [OF steps_aeq_terms])
      (simp add: steps_val_bind_pure heartbeat entries)
qed

lemma steps_aeq_commit: "steps E w (aeq_commit p w)"
  by (auto simp: aeq_commit_def Let_def intro: steps_Server_SetCommitIndex)

context network
begin

lemma steps_HandlePreSendMsg: "steps E w (Mod_HandlePreSendMsg E c i m w)"
  by (auto simp: Mod_HandlePreSendMsg_def intro!: steps_send_frame split: option.split)

lemma steps_AppendEntriesQ: "steps E w (ModApi_AppendEntriesQ E c p w)"
  unfolding ModApi_AppendEntriesQ_def
  by (auto intro!: steps_bind_val steps_aeq_body steps_bind steps_aeq_commit steps_HandlePreSendMsg
      split: option.split)

lemma steps_AppendEntriesR: "steps E w (ModApi_AppendEntriesR E c p w)"
  unfolding ModApi_AppendEntriesR_def IncrMatch_IncrNext
  by (auto intro!: steps_bind_val steps_bind steps_Server_SetTerm steps_Server_BecomeFollower steps_ack
      steps_Server_ChangeCommitIndex split: option.split)

lemma steps_BroadCast: "steps E w (Conn_Server_BroadCastAppendEntries E w)"
  by (auto simp: Conn_Server_BroadCastAppendEntries_def intro: steps_BroadCastAppendEntries)

text \<open>A known node: its old connection goes, this one is tied to the proxy.\<close>

lemma steps_rejoin:
  assumes "om_find k (s_stProxys (w_server w)) \<noteq> None"
  shows "steps E w (rbind (if b then Conn_Server_CloseConn c fd w else Inr w) (Conn_Tie c k))"
proof -
  have "steps E w (if b then Conn_Server_CloseConn c fd w else Inr w)" (is "steps E w ?m")
    by (simp add: steps_Server_CloseConn)
  moreover have "steps E w1 (Conn_Tie c k w1)" if "wstep E w w1" for w1
    using that assms by (intro steps_Tie) (auto simp: wstep_def extends_def)
  ultimately show ?thesis
    unfolding steps_def rbind_Inr_iff by (blast intro: wstep_trans)
qed

lemma steps_join:
  "steps E w (rbind (Conn_Server_AddProxy k w) (Conn_Tie c k))"
proof (cases "w_alive w")
  case True
  have "steps E w1 (Conn_Tie c k w1)" if "Conn_Server_AddProxy k w = Inr w1" for w1
  proof (rule steps_Tie)
    from that True obtain s where "RaftServer_AddProxy k (w_server w) = Inr s" "w1 = w\<lparr>w_server := s\<rparr>"
      by (auto simp: Conn_Server_AddProxy_def on_server_def rbind_Inr_iff)
    then show "om_find k (s_stProxys (w_server w1)) \<noteq> None" using AddProxy_present by force
  qed
  then show ?thesis
    using stepsD [OF steps_Server_AddProxy] unfolding steps_def rbind_Inr_iff by (blast intro: wstep_trans)
next
  case False
  then show ?thesis by (simp add: Conn_Server_AddProxy_def on_server_def Conn_Tie_def)
qed

lemma steps_hsq_join:
  assumes "Conn_ProxyConnFd (hq_nodeid p) w = Inr fd"
  shows "steps E w (hsq_join E c p x fd w)"
proof (cases "fd = - 1")
  case True
  have "steps E w (rbind (rbind (Conn_Server_AddProxy (hq_nodeid p) w) (Conn_Tie c (hq_nodeid p))) (\<lambda>w.
      rbind (Conn_Server_AppendCfgLog E (cn_strAddr x) (sint (hq_raftport p)) (sint (hq_nodeid p)) w)
        (Conn_Server_BroadCastAppendEntries E)))"
    by (intro steps_bind steps_join steps_Server_AppendCfgLog steps_BroadCast)
  with True show ?thesis by (simp add: hsq_join_def rbind_assoc)
next
  case False
  with assms have "om_find (hq_nodeid p) (s_stProxys (w_server w)) \<noteq> None"
    by (auto simp: Conn_ProxyConnFd_def ask_server_def RaftServer_ProxyConnFd_def
        split: if_splits option.splits)
  from steps_rejoin [OF this, of "fd \<noteq> cn_iFd x" c fd] False show ?thesis by (simp add: hsq_join_def)
qed

lemma steps_HandshakeQ: "steps E w (ModApi_HandshakeQ E c p w)"
proof (cases "w_conns w c")
  case (Some x)
  let ?x = "x\<lparr>cn_iRaftPort := sint (hq_raftport p)\<rparr>"
  let ?w = "set_conn c ?x w"
  have w: "wstep E w ?w" by (rule wstep_set_conn [OF Some]) (simp_all add: same_in_def out_ok_def)
  have "steps E ?w (rbind (Conn_ProxyConnFd (hq_nodeid p) ?w) (\<lambda>fd.
      rbind (hsq_join E c p ?x fd ?w) (Mod_HandlePreSendMsg E c 258 (handshake_reply True))))"
    by (cases "Conn_ProxyConnFd (hq_nodeid p) ?w")
      (simp_all add: steps_bind steps_hsq_join steps_HandlePreSendMsg)
  from steps_after [OF w this] show ?thesis
    by (simp add: ModApi_HandshakeQ_def conn_lock_def Some with_conn_def Let_def steps_HandlePreSendMsg)
qed (simp add: ModApi_HandshakeQ_def conn_lock_def)

lemma steps_Proc: "steps E w (ModApi_Proc E c i m w)"
  unfolding ModApi_Proc_def ModApi_HandshakeR_def ModApi_RequestVoteQ_def
  by (auto intro: steps_HandshakeQ steps_AppendEntriesQ steps_AppendEntriesR split: Message.split)

end

section \<open>The dispatch loop\<close>

lemma int_unat_sint: "0 \<le> sint (x :: u32) \<Longrightarrow> int (unat x) = sint x"
proof -
  assume nn: "0 \<le> sint x"
  have s: "sint x = (uint x + 2 ^ 31) mod 2 ^ 32 - 2 ^ 31"
    using int_word_sint [where 'a = 32, of "uint x"] by simp
  have b: "0 \<le> uint x" "uint x < 2 ^ 32" using uint_lt2p [of x] by simp_all
  have "uint x < 2 ^ 31"
  proof (rule ccontr)
    assume "\<not> uint x < 2 ^ 31"
    then have "(uint x + 2 ^ 31) mod 2 ^ 32 = uint x + 2 ^ 31 - 2 ^ 32"
      using b(2) by (subst minus_mod_self2 [symmetric]) (simp add: mod_pos_pos_trivial)
    with s nn b show False by simp
  qed
  with s b show ?thesis by (simp add: mod_pos_pos_trivial)
qed

text \<open>
  One or more rounds of the loop: like a step, except that the in buffer is consumed.
\<close>

definition lstep :: "'db env \<Rightarrow> 'db world \<Rightarrow> 'db world \<Rightarrow> bool" where
  "lstep E w w' \<longleftrightarrow> w_alive w' = w_alive w \<and> w_pins w' = w_pins w
     \<and> extends E (w_server w) (w_server w') \<and> prefix (w_trace w) (w_trace w')
     \<and> (\<forall>c \<in> set (w_pins w). w_conns w c \<noteq> None \<longrightarrow> w_conns w' c \<noteq> None)
     \<and> (world_ok w \<longrightarrow> world_ok w')"

lemma lstep_refl [simp, intro]: "lstep E w w"
  by (simp add: lstep_def)

lemma lstep_trans [trans]: "lstep E u v \<Longrightarrow> lstep E v w \<Longrightarrow> lstep E u w"
  by (auto simp: lstep_def intro: extends_trans prefix_order.trans)

lemma wstep_lstep: "wstep E w w' \<Longrightarrow> lstep E w w'"
  unfolding wstep_def lstep_def by (metis not_None_eq)

lemma lstep_set_conn:
  assumes "w_conns w c = Some x" and "cn_iFd x' = cn_iFd x"
    and "in_ok x \<Longrightarrow> out_ok x \<Longrightarrow> in_ok x' \<and> out_ok x'"
  shows "lstep E w (set_conn c x' w)"
proof -
  have "cn_iFd x = fd" if "world_ok w" "om_find fd (s_stConns (w_server w)) = Some c" for fd
    using that assms(1) by (rule world_ok_fd)
  then have "world_ok (set_conn c x' w)" if "world_ok w"
    using that assms by (auto simp: world_ok_def set_conn_def owned_def)
  then show ?thesis by (auto simp: lstep_def set_conn_def)
qed

lemma in_consume_frame:
  assumes "in_consume b k x = Inr x'"
  shows "cn_iFd x' = cn_iFd x" "out_ok x' = out_ok x" "cn_iInBufferSize x' = cn_iInBufferSize x - k"
    "in_ok x \<Longrightarrow> 0 \<le> k \<Longrightarrow> in_ok x'"
  using assms
  by (auto simp: in_consume_def Let_def rbind_Inr_iff out_ok_def in_ok_def buf_ok_def buf_down_def
      split: if_splits)

context network
begin

lemma arrived_step_returns: "\<exists>r. arrived_step E c w = Some r"
proof -
  have "\<exists>m'. Message_ParseFromArray (e_wire E) bs m = Some m'" for bs m
    using wire_reads.Message_ParseFromArray_returns wire_format.axioms(1) [OF wire] by blast
  then show ?thesis
    by (simp add: arrived_step_def Let_def split: option.split sum.split) (metis option.distinct(1))
qed

lemma arrived_step_progress:
  assumes pin: "c \<in> set (w_pins w)" and x: "w_conns w c = Some x"
    and step: "arrived_step E c w = Some (Inr (True, w'))"
  shows "lstep E w w' \<and> (\<exists>x'. w_conns w' c = Some x' \<and> cn_iInBufferSize x' + 6 \<le> cn_iInBufferSize x)"
proof -
  let ?id = "rd16 (cn_stInBuffer x)" and ?len = "rd32 (drop 2 (cn_stInBuffer x))"
  from step x obtain m x1 w1 x2 where
    nn: "0 \<le> sint ?len" and x1: "in_consume (e_memcpy_down E) (int (unat ?len) + 6) x = Inr x1" and
    w1: "ModApi_Proc E c (int (unat ?id mod 256) - 1) m (set_conn c x1 w) = Inr w1" and
    x2: "w_conns w1 c = Some x2" and
    fin: "(if cn_iOutBufferSize x2 > 0 then Conn_EnableWrite c w1
           else if cn_iOutBufferSize x2 = 0 then Conn_DisableWrite c w1 else Inr w1) = Inr w'"
    by (auto simp: arrived_step_def arrived_finish_def Let_def rbind_Inr_iff with_conn_def not_less
        split: option.splits sum.splits if_splits)
  note fr = in_consume_frame [OF x1]
  have l0: "lstep E w (set_conn c x1 w)"
    using fr by (intro lstep_set_conn [OF x]) auto
  have s1: "wstep E (set_conn c x1 w) w1" by (rule stepsD [OF steps_Proc w1])
  have s2: "wstep E w1 w'"
    using fin steps_Conn_channel [of E w1 c]
    by (auto simp: Conn_EnableWrite_def Conn_DisableWrite_def steps_def split: if_splits)
  have s: "wstep E (set_conn c x1 w) w'" using s1 s2 by (rule wstep_trans)
  obtain x' where "w_conns w' c = Some x'" "same_in x1 x'"
    using wstep_pinned [OF s, of c x1] pin by (auto simp: set_conn_def)
  with fr(3) have "w_conns w' c = Some x' \<and> cn_iInBufferSize x' + 6 \<le> cn_iInBufferSize x"
    by (simp add: same_in_def)
  with lstep_trans [OF l0 wstep_lstep [OF s]] show ?thesis by blast
qed

lemma arrived_step_stop:
  assumes "arrived_step E c w = Some (Inr (False, w'))"
  shows "w' = w"
  using assms
  by (auto simp: arrived_step_def arrived_finish_def Let_def rbind_Inr_iff with_conn_def split: option.splits sum.splits if_splits)

text \<open>The loop ends: every round takes at least a header of six bytes out of the buffer.\<close>

lemma arrived_loop_returns:
  assumes "c \<in> set (w_pins w)" and "w_conns w c = Some x"
  shows "\<exists>r. arrived_loop E c w = Some r \<and> (\<forall>w'. r = Inr w' \<longrightarrow> lstep E w w')"
  using assms
proof (induction "nat (cn_iInBufferSize x)" arbitrary: w x rule: less_induct)
  case less
  obtain r where r: "arrived_step E c w = Some r" using arrived_step_returns by blast
  show ?case
  proof (cases r)
    case (Inl e)
    then show ?thesis by (subst arrived_loop.simps) (simp add: r)
  next
    case (Inr gw)
    obtain go w1 where gw: "gw = (go, w1)" by (cases gw)
    show ?thesis
    proof (cases go)
      case False
      with r Inr gw have "w1 = w" by (intro arrived_step_stop [of c w w1]) simp
      then show ?thesis by (subst arrived_loop.simps) (simp add: r Inr gw False)
    next
      case True
      obtain x1 where l: "lstep E w w1" and x1: "w_conns w1 c = Some x1" "cn_iInBufferSize x1 + 6 \<le> cn_iInBufferSize x"
        using arrived_step_progress [OF less.prems, of w1] r Inr gw True by auto
      have big: "\<not> cn_iInBufferSize x < 6"
        using r Inr gw True less.prems(2) by (auto simp: arrived_step_def)
      have "\<exists>r. arrived_loop E c w1 = Some r \<and> (\<forall>w'. r = Inr w' \<longrightarrow> lstep E w1 w')"
        using less.hyps [OF _ _ x1(1)] x1(2) big l less.prems(1) by (auto simp: lstep_def)
      then show ?thesis
        using l by (subst arrived_loop.simps) (auto simp: r Inr gw True intro: lstep_trans)
    qed
  qed
qed

end

end
