(* ===== verification/Event_Loop.thy ===== *)
theory Event_Loop
  imports Mod_Dispatch
begin

text \<open>
  \<open>eventloop/Channel::HandleEvent\<close>, \<open>EPoller::FillActiveChannels\<close>, \<open>EventLoop::Loop\<close>,
  the callbacks of the timers and of the listening socket, the two set-up functions of the
  server (\<open>Run\<close>, \<open>ConnectToPeer\<close>) and \<open>main\<close>.

  A round of the event loop is given the ready channels that \<open>epoll_wait\<close> returned and, for
  each, what the system calls in its callbacks yield. The executions of the program are the
  sequences of such rounds from a state that \<open>main\<close> sets up (\<open>reachable\<close>).
\<close>

section \<open>Channels in the world\<close>

datatype channel_id = Ch_Server | Ch_Conn nat | Ch_Timer int

definition find_timer :: "int \<Rightarrow> 'db world \<Rightarrow> Timer option" where
  "find_timer k w = (case om_find k (s_stTimers (w_server w)) of Some t \<Rightarrow> t | None \<Rightarrow> None)"

definition put_timer :: "int \<Rightarrow> Timer \<Rightarrow> 'db world \<Rightarrow> 'db world" where
  "put_timer k t w = upd_server (\<lambda>s. s\<lparr>s_stTimers := om_assign k (Some t) (s_stTimers s)\<rparr>) w"

fun get_channel :: "'db world \<Rightarrow> channel_id \<Rightarrow> Channel option" where
  "get_channel w Ch_Server = Some (s_pstServerChannel (w_server w))"
| "get_channel w (Ch_Conn c) = map_option cn_pstChannel (w_conns w c)"
| "get_channel w (Ch_Timer k) = map_option t_pstChannel (find_timer k w)"

fun put_channel :: "channel_id \<Rightarrow> Channel \<Rightarrow> 'db world \<Rightarrow> 'db world" where
  "put_channel Ch_Server ch w = upd_server (\<lambda>s. s\<lparr>s_pstServerChannel := ch\<rparr>) w"
| "put_channel (Ch_Conn c) ch w =
     (case w_conns w c of None \<Rightarrow> w | Some x \<Rightarrow> set_conn c (x\<lparr>cn_pstChannel := ch\<rparr>) w)"
| "put_channel (Ch_Timer k) ch w =
     (case find_timer k w of None \<Rightarrow> w | Some t \<Rightarrow> put_timer k (t\<lparr>t_pstChannel := ch\<rparr>) w)"

fun tied_alive :: "'db world \<Rightarrow> tied_object option \<Rightarrow> bool" where
  "tied_alive w None = False"
| "tied_alive w (Some (Tied_Conn c)) = (w_conns w c \<noteq> None)"
| "tied_alive w (Some (Tied_Timer k)) = (find_timer k w \<noteq> None)"

section \<open>Callbacks\<close>

definition Timer_SendAppendEntriesCallback :: "'db env \<Rightarrow> int \<Rightarrow> 'db world \<Rightarrow> 'db world res" where
  "Timer_SendAppendEntriesCallback E k w =
     (if \<not> w_alive w then Inr w
      else case find_timer k w of None \<Rightarrow> Inl UseAfterFree | Some t \<Rightarrow>
        RaftServer_BroadCastAppendEntries E True
          (emit [ReadTimerCall (t_iFd t)] (put_timer k (t\<lparr>t_bIsRun := True\<rparr>) w)))"

definition Timer_HeartBeatTimeoutCallback :: "int \<Rightarrow> 'db world \<Rightarrow> 'db world res" where
  "Timer_HeartBeatTimeoutCallback k w =
     (if \<not> w_alive w then Inr w
      else case find_timer k w of None \<Rightarrow> Inl UseAfterFree | Some t \<Rightarrow>
        Inr (RaftServer_BroadCastRequestVote
          (upd_server RaftServer_BecomeCandidate (emit [ReadTimerCall (t_iFd t)] w))))"

definition Timer_ApplyLogCallback :: "int \<Rightarrow> 'db world \<Rightarrow> 'db world res" where
  "Timer_ApplyLogCallback k w =
     (if \<not> w_alive w then Inr w
      else case find_timer k w of None \<Rightarrow> Inl UseAfterFree | Some t \<Rightarrow>
        Inr (emit [ReadTimerCall (t_iFd t)] w))"

text \<open>
  \<open>TcpAcceptCallback\<close>, given the descriptor and peer address that \<open>accept4\<close> finally
  returns (it is repeated while interrupted), or \<open>None\<close> for an error. Assigning to
  \<open>m_stConns_[iFd]\<close> drops what was there.
\<close>

definition register_conn :: "int \<Rightarrow> nat \<Rightarrow> 'db world \<Rightarrow> 'db world" where
  "register_conn iFd c w =
     (let old = om_find iFd (s_stConns (w_server w));
          w = upd_server (\<lambda>s. s\<lparr>s_stConns := om_assign iFd c (s_stConns s)\<rparr>) w in
      case old of None \<Rightarrow> w | Some c' \<Rightarrow> release c' w)"

definition RaftServer_TcpAcceptCallback :: "(int \<times> bytes) option \<Rightarrow> 'db world \<Rightarrow> 'db world res" where
  "RaftServer_TcpAcceptCallback r w =
     (case r of None \<Rightarrow> Inr w | Some (iFd, addr) \<Rightarrow>
        let (c, w) = Conn_new iFd w; w = w\<lparr>w_pins := c # w_pins w\<rparr> in
        with_conn c w (\<lambda>x.
          rbind (Conn_Init c (set_conn c (x\<lparr>cn_strAddr := addr\<rparr>) w)) (\<lambda>w.
            Inr (unpin c (register_conn iFd c w)))))"

record input =
  i_recv :: recv_result
  i_connect :: connect_result
  i_accept :: "(int \<times> bytes) option"

text \<open>A bound callback is a member function of the object that the channel belongs to.\<close>

fun invoke :: "'db env \<Rightarrow> input \<Rightarrow> channel_id \<Rightarrow> callback \<Rightarrow> 'db world \<Rightarrow> 'db world res option" where
  "invoke E inp (Ch_Conn c) Bind_RecvCallback w = Conn_RecvCallback E (i_recv inp) c w"
| "invoke E inp (Ch_Conn c) Bind_SendCallback w = Some (Conn_SendCallback E c w)"
| "invoke E inp (Ch_Conn c) Bind_CloseCallback w = Some (Conn_CloseCallback c w)"
| "invoke E inp (Ch_Conn c) Bind_AcceptedCallback w = Some (Conn_AcceptedCallback E (i_connect inp) c w)"
| "invoke E inp (Ch_Timer k) Bind_SendAppendEntriesCallback w = Some (Timer_SendAppendEntriesCallback E k w)"
| "invoke E inp (Ch_Timer k) Bind_HeartBeatTimeoutCallback w = Some (Timer_HeartBeatTimeoutCallback k w)"
| "invoke E inp (Ch_Timer k) Bind_ApplyLogCallback w = Some (Timer_ApplyLogCallback k w)"
| "invoke E inp Ch_Server Bind_TcpAcceptCallback w = Some (RaftServer_TcpAcceptCallback (i_accept inp) w)"
| "invoke E inp ch cb w = Some (Inl NullDeref)"

section \<open>Handling the events of a channel\<close>

definition obind :: "'a res option \<Rightarrow> ('a \<Rightarrow> 'b res option) \<Rightarrow> 'b res option" where
  "obind m f = Option.bind m (\<lambda>r. case r of Inl e \<Rightarrow> Some (Inl e) | Inr x \<Rightarrow> f x)"

lemma obind_simps [simp]: "obind (Some (Inr x)) f = f x" "obind (Some (Inl e)) f = Some (Inl e)" "obind None f = None"
  by (simp_all add: obind_def)

lemma obind_Inr_iff: "obind m f = Some (Inr y) \<longleftrightarrow> (\<exists>x. m = Some (Inr x) \<and> f x = Some (Inr y))"
  by (cases m; cases "the m") (auto simp: obind_def)

text \<open>
  One line of \<open>HandleEvent\<close>: it reads members of the channel, which must still exist; its
  owner may have been destroyed by the callback of the line before.
\<close>

definition fire ::
  "'db env \<Rightarrow> input \<Rightarrow> channel_id \<Rightarrow> u32 \<Rightarrow> (Channel \<Rightarrow> callback option) \<Rightarrow> 'db world \<Rightarrow> 'db world res option" where
  "fire E inp ch evmask getcb w =
     (case get_channel w ch of
        None \<Rightarrow> Some (Inl UseAfterFree)
      | Some x \<Rightarrow>
          if ch_iRevents x AND evmask \<noteq> 0 then
            (case getcb x of None \<Rightarrow> Some (Inr w) | Some cb \<Rightarrow> invoke E inp ch cb w)
          else Some (Inr w))"

definition Channel_HandleEvent :: "'db env \<Rightarrow> input \<Rightarrow> channel_id \<Rightarrow> 'db world \<Rightarrow> 'db world res option" where
  "Channel_HandleEvent E inp ch w =
     (case get_channel w ch of
        None \<Rightarrow> Some (Inl UseAfterFree)
      | Some x \<Rightarrow>
          if ch_bIsServerChannel x \<or> tied_alive w (ch_pstConn x) then
            obind (fire E inp ch EPOLLHUP ch_stCloseCallback w) (\<lambda>w.
            obind (fire E inp ch EPOLLERR ch_stErrorCallback w) (\<lambda>w.
            obind (fire E inp ch (EPOLLIN OR EPOLLPRI) ch_stReadCallback w) (\<lambda>w.
              fire E inp ch EPOLLOUT ch_stWriteCallback w)))
          else Some (Inr w))"

section \<open>The loop\<close>

type_synonym event = "channel_id \<times> u32 \<times> input"

definition EPoller_FillActiveChannels :: "event list \<Rightarrow> 'db world \<Rightarrow> 'db world res" where
  "EPoller_FillActiveChannels evs w =
     rfold (\<lambda>(ch, ev, inp) w. case get_channel w ch of
         None \<Rightarrow> Inl UseAfterFree
       | Some x \<Rightarrow> Inr (put_channel ch (x\<lparr>ch_iRevents := ev\<rparr>) w)) evs w"

fun handle_all :: "'db env \<Rightarrow> event list \<Rightarrow> 'db world \<Rightarrow> 'db world res option" where
  "handle_all E [] w = Some (Inr w)"
| "handle_all E ((ch, ev, inp) # evs) w =
     obind (Channel_HandleEvent E inp ch w) (handle_all E evs)"

definition EventLoop_round :: "'db env \<Rightarrow> event list \<Rightarrow> 'db world \<Rightarrow> 'db world res option" where
  "EventLoop_round E evs w = obind (Some (EPoller_FillActiveChannels evs w)) (handle_all E evs)"

section \<open>Set-up\<close>

definition assign_timer :: "int \<Rightarrow> Timer \<times> effect list \<Rightarrow> 'db world \<Rightarrow> 'db world" where
  "assign_timer k te w =
     (let w = emit (snd te) w; old = find_timer k w; w = put_timer k (Timer_Init k (fst te)) w in
      case old of None \<Rightarrow> w | Some t \<Rightarrow> emit (Timer_destroy t) w)"

text \<open>\<open>Run\<close> and \<open>ConnectToPeer\<close> up to the call of \<open>Loop\<close>.\<close>

definition RaftServer_Run :: "int \<Rightarrow> bool \<Rightarrow> 'db world \<Rightarrow> 'db world" where
  "RaftServer_Run iTimerFd settime_ok w =
     (let w = assign_timer LeaderHeartbeatTimer (Timer_new iTimerFd settime_ok 10 LeaderHeartbeatTimer) w;
          (ch, eff) = Channel_EnableRead
            ((s_pstServerChannel (w_server w))\<lparr>ch_stReadCallback := Some Bind_TcpAcceptCallback\<rparr>) in
      emit eff (upd_server (\<lambda>s. s\<lparr>s_pstServerChannel := ch\<rparr>) w))"

text \<open>
  The \<open>shared_ptr\<close> in \<open>ConnectToPeer\<close> lives as long as the loop runs: the connection
  stays pinned.
\<close>

definition RaftServer_ConnectToPeer ::
  "int \<Rightarrow> connect_result \<Rightarrow> int \<Rightarrow> bool \<Rightarrow> bytes \<Rightarrow> int \<Rightarrow> int \<Rightarrow> int \<Rightarrow> 'db world \<Rightarrow> 'db world res" where
  "RaftServer_ConnectToPeer iFd r iTimerFd settime_ok szAddress iPort iNodeID iRaftPort w =
     (let (c, w) = Conn_new iFd w; w = w\<lparr>w_pins := c # w_pins w\<rparr> in
      rbind (Conn_Init c w) (\<lambda>w.
      rbind (Conn_TryConnect r c szAddress iPort iNodeID iRaftPort w) (\<lambda>w.
      with_conn c w (\<lambda>x.
        let w = set_conn c (x\<lparr>cn_strAddr := szAddress\<rparr>) w;
            w = assign_timer FollowerHeartbeatTimer
                  (Timer_new iTimerFd settime_ok 21 FollowerHeartbeatTimer) w in
        Inr (register_conn (cn_iFd x) c w)))))"

text \<open>What the operating system and the databases give to \<open>main\<close>.\<close>

record 'db boot =
  b_iServerFd :: int
  b_iClientFd :: int
  b_iTimerFd :: int
  b_settime_ok :: bool
  b_connect :: connect_result
  b_pstStateDB :: "'db option"
  b_pstEntriesDB :: "'db option"

definition argv_at :: "bytes list \<Rightarrow> nat \<Rightarrow> bytes res" where
  "argv_at argv i = (if i < length argv then Inr (argv ! i) else Inl NullDeref)"

definition main_start :: "'db env \<Rightarrow> 'db boot \<Rightarrow> int \<Rightarrow> int \<Rightarrow> 'db world res" where
  "main_start E b iNodeID iRaftPort =
     rbind (RaftServer_new (b_iServerFd b) (b_pstStateDB b) (b_pstEntriesDB b)) (\<lambda>s.
     rbind (RaftServer_BecomeLeader E (new_world s)) (\<lambda>w.
     rbind (RaftServer_AppendCfgLog E (str ''192.168.1.46'') iRaftPort iNodeID (w_server w)) (\<lambda>s.
       Inr (RaftServer_Run (b_iTimerFd b) (b_settime_ok b) (w\<lparr>w_server := s\<rparr>)))))"

definition main_join :: "'db boot \<Rightarrow> bytes \<Rightarrow> int \<Rightarrow> int \<Rightarrow> int \<Rightarrow> 'db world res" where
  "main_join b szAddress iJoinPort iNodeID iRaftPort =
     rbind (RaftServer_new (b_iServerFd b) (b_pstStateDB b) (b_pstEntriesDB b)) (\<lambda>s.
       RaftServer_ConnectToPeer (b_iClientFd b) (b_connect b) (b_iTimerFd b) (b_settime_ok b)
         szAddress iJoinPort iNodeID iRaftPort (new_world s))"

definition main_restart :: "'db env \<Rightarrow> 'db boot \<Rightarrow> 'db world res" where
  "main_restart E b =
     rbind (RaftServer_new (b_iServerFd b) (b_pstStateDB b) (b_pstEntriesDB b)) (\<lambda>s.
     rbind (RaftServer_LoadEntries E s) (\<lambda>s. Inr (new_world s)))"

text \<open>
  \<open>main\<close>: \<open>Some w\<close> when the event loop is entered in \<open>w\<close>, \<open>None\<close> when the process
  ends without it. The command \<open>restart\<close> ends after loading.
\<close>

definition main :: "'db env \<Rightarrow> 'db boot \<Rightarrow> bytes list \<Rightarrow> 'db world option res" where
  "main E b argv =
     rbind (argv_at argv 1) (\<lambda>cmd.
     if cmd = str ''start'' \<or> cmd = str ''join'' then
       rbind (argv_at argv 2) (\<lambda>a2.
       rbind (atoi a2) (\<lambda>iNodeID.
       if cmd = str ''start'' then
         rbind (argv_at argv 3) (\<lambda>a3.
         rbind (atoi a3) (\<lambda>iRaftPort.
         if iRaftPort \<noteq> - 1 then rbind (main_start E b iNodeID iRaftPort) (\<lambda>w. Inr (Some w)) else Inr None))
       else
         rbind (argv_at argv 4) (\<lambda>a4. rbind (atoi a4) (\<lambda>iJoinPort.
         rbind (argv_at argv 3) (\<lambda>szAddress.
         rbind (argv_at argv 5) (\<lambda>a5. rbind (atoi a5) (\<lambda>iRaftPort.
         if iJoinPort \<noteq> - 1 \<and> iRaftPort \<noteq> - 1
         then rbind (main_join b szAddress iJoinPort iNodeID iRaftPort) (\<lambda>w. Inr (Some w))
         else Inr None)))))))
     else if cmd = str ''restart'' then rbind (main_restart E b) (\<lambda>w. Inr None)
     else Inr None)"

text \<open>The states between two rounds of the loop, for any boot and any events.\<close>

inductive reachable :: "'db env \<Rightarrow> 'db world \<Rightarrow> bool" for E where
  boot: "main E b argv = Inr (Some w) \<Longrightarrow> reachable E w"
| round: "reachable E w \<Longrightarrow> EventLoop_round E evs w = Some (Inr w') \<Longrightarrow> reachable E w'"

text \<open>The rounds from a given state on.\<close>

inductive runs :: "'db env \<Rightarrow> 'db world \<Rightarrow> 'db world \<Rightarrow> bool" for E where
  idle: "runs E w w"
| round: "runs E w w' \<Longrightarrow> EventLoop_round E evs w' = Some (Inr w'') \<Longrightarrow> runs E w w''"

lemma runs_reachable: "runs E w w' \<Longrightarrow> reachable E w \<Longrightarrow> reachable E w'"
  by (induction rule: runs.induct) (auto intro: reachable.round)

lemma reachable_runs: "reachable E w \<Longrightarrow> \<exists>b argv w0. main E b argv = Inr (Some w0) \<and> runs E w0 w"
  by (induction rule: reachable.induct) (blast intro: runs.intros)+

end
