(* ===== verification/Raft_System.thy ===== *)
theory Raft_System
  imports Mod_World Event_Loop
begin

text \<open>
  Whole executions: every callback, every round of the event loop and therefore every
  reachable state keeps the invariant of the world, and the log only grows.
\<close>

section \<open>Rounds\<close>

definition rstep :: "'db env \<Rightarrow> 'db world \<Rightarrow> 'db world \<Rightarrow> bool" where
  "rstep E w w' \<longleftrightarrow> w_alive w' = w_alive w \<and> w_pins w' = w_pins w
     \<and> extends E (w_server w) (w_server w') \<and> prefix (w_trace w) (w_trace w')
     \<and> (world_ok w \<longrightarrow> world_ok w')"

lemma rstep_refl [simp, intro]: "rstep E w w"
  by (simp add: rstep_def)

lemma rstep_trans [trans]: "rstep E u v \<Longrightarrow> rstep E v w \<Longrightarrow> rstep E u w"
  by (auto simp: rstep_def intro: extends_trans prefix_order.trans)

lemma lstep_rstep: "lstep E w w' \<Longrightarrow> rstep E w w'"
  by (simp add: lstep_def rstep_def)

lemma wstep_rstep: "wstep E w w' \<Longrightarrow> rstep E w w'"
  by (simp add: wstep_def rstep_def)

text \<open>A computation that returns, and whose result (if it is not a crash) is a round's.\<close>

definition rsteps :: "'db env \<Rightarrow> 'db world \<Rightarrow> 'db world res option \<Rightarrow> bool" where
  "rsteps E w m \<longleftrightarrow> (\<exists>r. m = Some r \<and> (\<forall>w'. r = Inr w' \<longrightarrow> rstep E w w'))"

lemma rsteps_simps [simp]:
  "rsteps E w (Some (Inl e))" "rsteps E w (Some (Inr w')) = rstep E w w'"
  by (simp_all add: rsteps_def)

lemma rstepsD: "rsteps E w m \<Longrightarrow> m = Some (Inr w') \<Longrightarrow> rstep E w w'"
  by (simp add: rsteps_def)

lemma steps_rsteps: "steps E w m \<Longrightarrow> rsteps E w (Some m)"
  by (auto simp: steps_def rsteps_def intro: wstep_rstep)

lemma rsteps_after: "rstep E w w' \<Longrightarrow> rsteps E w' m \<Longrightarrow> rsteps E w m"
  by (auto simp: rsteps_def intro: rstep_trans)

lemma rsteps_obind:
  assumes "rsteps E w m" and "\<And>w'. rsteps E w' (f w')"
  shows "rsteps E w (obind m f)"
proof -
  obtain r where r: "m = Some r" "\<forall>w'. r = Inr w' \<longrightarrow> rstep E w w'" using assms(1) by (auto simp: rsteps_def)
  show ?thesis using r assms(2) by (cases r) (auto intro: rsteps_after)
qed

section \<open>Pins\<close>

lemma world_ok_pin: "world_ok w \<Longrightarrow> world_ok (w\<lparr>w_pins := c # w_pins w\<rparr>)"
  by (auto simp: world_ok_def owned_def)

lemma world_ok_unpin:
  assumes "world_ok w"
  shows "world_ok (unpin c w)"
  unfolding unpin_def
proof (rule wstep_release)
  fix c' assume "w_conns (w\<lparr>w_pins := remove1 c (w_pins w)\<rparr>) c' \<noteq> None" "c' \<noteq> c"
  then show "owned (w\<lparr>w_pins := remove1 c (w_pins w)\<rparr>) c'"
    using assms by (auto simp: world_ok_def owned_def)
qed (use assms in \<open>auto simp: world_ok_def\<close>)

lemma unpin_frame [simp]:
  "w_server (unpin c w) = w_server w" "w_alive (unpin c w) = w_alive w"
  "w_pins (unpin c w) = remove1 c (w_pins w)" "prefix (w_trace w) (w_trace (unpin c w))"
  using release_frame [where w = "w\<lparr>w_pins := remove1 c (w_pins w)\<rparr>" and c = c]
  by (simp_all add: unpin_def)

section \<open>Receiving\<close>

context network
begin

lemma HandleArrivedMsg_returns:
  "\<exists>r. Mod_HandleArrivedMsg E m w = Some r \<and> (\<forall>w'. r = Inr w' \<longrightarrow> rstep E w w')"
proof (cases "conn_lock w m")
  case None
  then show ?thesis by (simp add: Mod_HandleArrivedMsg_def)
next
  case (Some c)
  then obtain x where x: "w_conns w c = Some x" by (auto simp: conn_lock_def split: option.splits if_splits)
  let ?w = "w\<lparr>w_pins := c # w_pins w\<rparr>"
  obtain r where r: "arrived_loop E c ?w = Some r" "\<forall>w'. r = Inr w' \<longrightarrow> lstep E ?w w'"
    using arrived_loop_returns [of c ?w x] x by auto
  have "rstep E w (unpin c w')" if "lstep E ?w w'" for w'
    using that world_ok_pin [of w c] world_ok_unpin [of w' c] prefix_order.trans [OF _ unpin_frame(4)]
    by (auto simp: lstep_def rstep_def)
  with r Some show ?thesis by (auto simp: Mod_HandleArrivedMsg_def rbind_Inr_iff)
qed

lemma RecvCallback_returns:
  "\<exists>r. Conn_RecvCallback E i c w = Some r \<and> (\<forall>w'. r = Inr w' \<longrightarrow> rstep E w w')"
proof (cases "w_alive w")
  case alive: True
  show ?thesis
  proof (cases "w_conns w c")
    case x: (Some x)
    show ?thesis
    proof (cases i)
      case (RecvData bs)
      show ?thesis
      proof (cases "in_put (take dwLength bs) x")
        case (Inr x')
        have fr: "cn_iFd x' = cn_iFd x" "out_ok x' = out_ok x" "in_ok x \<Longrightarrow> in_ok x'"
          using Inr by (auto simp: in_put_def rbind_Inr_iff out_ok_def in_ok_def buf_write_def buf_ok_def
              split: if_splits)
        have "rstep E w (set_conn c x' w)"
          using fr by (intro lstep_rstep lstep_set_conn [OF x]) auto
        then show ?thesis
          using HandleArrivedMsg_returns [of "cn_pstMod x'" "set_conn c x' w"]
          by (auto simp: Conn_RecvCallback_def alive x RecvData Inr intro: rstep_trans)
      qed (simp add: Conn_RecvCallback_def alive x RecvData)
    next
      case RecvShutdown
      then show ?thesis
        using steps_CloseCallback [of E w c]
        by (auto simp: Conn_RecvCallback_def alive x steps_def intro: wstep_rstep)
    qed (simp add: Conn_RecvCallback_def alive x)
  qed (simp add: Conn_RecvCallback_def alive)
qed (simp add: Conn_RecvCallback_def)

lemma rsteps_RecvCallback: "rsteps E w (Conn_RecvCallback E i c w)"
  using RecvCallback_returns [of i c w] by (simp add: rsteps_def)

section \<open>Sending and connecting\<close>

lemma steps_SendCallback: "steps E w (Conn_SendCallback E c w)"
proof -
  have "steps E w (let bs = take (nat (cn_iOutBufferSize x)) (cn_stOutBuffer x);
      iSended = e_send E (length (w_trace w)) (cn_iFd x) bs;
      w = emit [SendCall (cn_iFd x) bs iSended] w in
      if iSended > 0 then
        let iLeftSize = cn_iOutBufferSize x - iSended; x = x\<lparr>cn_iOutBufferSize := iLeftSize\<rparr> in
        if iLeftSize = 0 then Conn_DisableWrite c (set_conn c x w)
        else if iLeftSize > 0 then
          rbind (buf_down (e_memcpy_down E) iSended iLeftSize (cn_stOutBuffer x)) (\<lambda>buf.
            Inr (set_conn c (x\<lparr>cn_stOutBuffer := buf\<rparr>) w))
        else Inr (set_conn c x w)
      else Inr w)" if x: "w_conns w c = Some x" for x
  proof -
    define bs where "bs = take (nat (cn_iOutBufferSize x)) (cn_stOutBuffer x)"
    define k where "k = e_send E (length (w_trace w)) (cn_iFd x) bs"
    let ?w = "emit [SendCall (cn_iFd x) bs k] w"
    have kb: "k \<le> cn_iOutBufferSize x" if "out_ok x"
      using send_bound [of "length (w_trace w)" "cn_iFd x" bs] that
      by (auto simp: k_def bs_def out_ok_def buf_ok_def)
    have st: "wstep E w (set_conn c x' ?w)" if "same_in x x'" "out_ok x \<Longrightarrow> out_ok x'" for x'
      by (rule wstep_trans [OF wstep_emit wstep_set_conn [of _ _ x]]) (use x that in \<open>simp_all add: emit_def\<close>)
    have sized: "wstep E w (set_conn c (x\<lparr>cn_iOutBufferSize := cn_iOutBufferSize x - k\<rparr>) ?w)" if "0 < k"
      using that kb by (intro st) (auto simp: same_in_def out_ok_def buf_ok_def)
    have moved: "wstep E w (set_conn c (x\<lparr>cn_iOutBufferSize := cn_iOutBufferSize x - k, cn_stOutBuffer := buf\<rparr>) ?w)"
      if "0 < k" "buf_down (e_memcpy_down E) k (cn_iOutBufferSize x - k) (cn_stOutBuffer x) = Inr buf" for buf
      using that kb
      by (intro st) (auto simp: same_in_def out_ok_def buf_ok_def buf_down_def split: if_splits)
    have "steps E w (Conn_DisableWrite c (set_conn c (x\<lparr>cn_iOutBufferSize := 0\<rparr>) ?w))"
      if "0 < k" "cn_iOutBufferSize x = k"
      using sized [OF that(1)] that(2) unfolding Conn_DisableWrite_def
      by (intro steps_after [OF _ steps_Conn_channel]) simp
    note zero = this
    have left: "steps E w (rbind (buf_down (e_memcpy_down E) k (cn_iOutBufferSize x - k) (cn_stOutBuffer x)) (\<lambda>buf.
        Inr (set_conn c (x\<lparr>cn_iOutBufferSize := cn_iOutBufferSize x - k, cn_stOutBuffer := buf\<rparr>) ?w)))"
      if "0 < k"
      using moved [OF that] by (simp add: steps_def rbind_Inr_iff) blast
    show ?thesis
      unfolding Let_def bs_def [symmetric] k_def [symmetric]
      using zero sized left by simp
  qed
  then show ?thesis
    unfolding Conn_SendCallback_def by (auto intro!: steps_with_conn)
qed

lemma steps_AcceptedCallback: "steps E w (Conn_AcceptedCallback E r c w)"
proof -
  have conn: "wstep E w (set_conn c (x\<lparr>cn_pstChannel := ch\<rparr>) (emit eff w))" if "w_conns w c = Some x"
    for w x ch eff
    by (rule wstep_trans [OF wstep_emit wstep_set_conn [of _ _ x]])
      (use that in \<open>simp_all add: emit_def same_in_def out_ok_def\<close>)
  have "steps E w (rbind (Conn_channel c Channel_EnableRead (set_conn c (x\<lparr>cn_pstChannel := ch\<rparr>) (emit eff w)))
      (Conn_SendHandShakeQ E c))" if "w_conns w c = Some x" for w x ch eff
    by (rule steps_after [OF conn [OF that, of ch eff]]) (intro steps_bind steps_Conn_channel steps_SendHandShakeQ)
  then show ?thesis
    unfolding Conn_AcceptedCallback_def Let_def
    by (auto intro!: steps_bind [OF steps_Conn_channel] steps_with_conn)
qed

section \<open>Timers\<close>

lemma wstep_put_timer: "wstep E w (put_timer k t w)"
  by (auto simp: put_timer_def upd_server_def intro!: wstep_server extends_fields)

lemma steps_Timer_SendAppendEntries: "steps E w (Timer_SendAppendEntriesCallback E k w)"
  using steps_after [OF wstep_trans [OF wstep_put_timer wstep_emit] steps_BroadCastAppendEntries]
  by (simp add: Timer_SendAppendEntriesCallback_def split: option.split)

end

lemma steps_Timer_HeartBeatTimeout: "steps E w (Timer_HeartBeatTimeoutCallback k w)"
proof -
  have "wstep E w (upd_server RaftServer_BecomeCandidate (emit eff w))" for eff
    unfolding upd_server_def
    by (rule wstep_trans [OF wstep_emit wstep_server]) (auto simp: RaftServer_BecomeCandidate_def emit_def intro!: extends_fields)
  then show ?thesis by (simp add: Timer_HeartBeatTimeoutCallback_def RaftServer_BroadCastRequestVote_def split: option.split)
qed

lemma steps_Timer_ApplyLog: "steps E w (Timer_ApplyLogCallback k w)"
  by (simp add: Timer_ApplyLogCallback_def split: option.split)

section \<open>Accepting\<close>

lemma Conn_new_ok:
  assumes "Conn_new fd w = (c, w1)"
  shows "c = w_next w \<and> w_server w1 = w_server w \<and> w_alive w1 = w_alive w \<and> w_pins w1 = w_pins w
    \<and> prefix (w_trace w) (w_trace w1) \<and> w_next w1 = w_next w + 1
    \<and> (\<exists>x. w_conns w1 = (w_conns w)(c \<mapsto> x) \<and> cn_iFd x = fd \<and> in_ok x \<and> out_ok x)"
  using assms
  by (auto simp: Conn_new_def Let_def emit_def set_conn_def in_ok_def out_ok_def buf_ok_def split: prod.splits)

lemma world_ok_new_conn:
  assumes "world_ok w" and "Conn_new fd w = (c, w1)"
  shows "world_ok (w1\<lparr>w_pins := c # w_pins w1\<rparr>)"
proof -
  note n = Conn_new_ok [OF assms(2)]
  have old: "c' < w_next w" if "w_conns w c' = Some x" for c' x
    using that assms(1) by (auto simp: world_ok_def)
  have "\<exists>x. w_conns w1 c' = Some x \<and> cn_iFd x = fd'"
    if "om_find fd' (s_stConns (w_server w)) = Some c'" for fd' c'
  proof -
    from that assms(1) obtain x where x: "w_conns w c' = Some x" "cn_iFd x = fd'" by (auto simp: world_ok_def)
    with old [OF x(1)] n show ?thesis by auto
  qed
  moreover have "c' < w_next w1 \<and> (c' \<in> set (c # w_pins w1) \<or> c' \<in> snd ` set (s_stConns (w_server w1)))
      \<and> in_ok x \<and> out_ok x" if "w_conns w1 c' = Some x" for c' x
    using that n world_ok_heap [OF assms(1), of c' x]
    by (cases "c' = c") (auto simp: owned_def)
  ultimately show ?thesis using n assms(1) by (auto simp: world_ok_def owned_def)
qed

lemma register_conn_frame:
  "w_alive (register_conn fd c w) = w_alive w" "w_pins (register_conn fd c w) = w_pins w"
  "prefix (w_trace w) (w_trace (register_conn fd c w))" "extends E (w_server w) (w_server (register_conn fd c w))"
  using release_frame(5) [of "upd_server (\<lambda>s. s\<lparr>s_stConns := om_assign fd c (s_stConns s)\<rparr>) w"]
  by (auto simp: register_conn_def Let_def upd_server_def extends_def srv_inv_def durable_def kept_def split: option.split)

lemma world_ok_register:
  assumes ok: "world_ok w" and c: "w_conns w c = Some x" "cn_iFd x = fd"
  shows "world_ok (register_conn fd c w)"
proof -
  let ?w = "upd_server (\<lambda>s. s\<lparr>s_stConns := om_assign fd c (s_stConns s)\<rparr>) w"
  have om: "om_ok (s_stConns (w_server w))" using ok by (simp add: world_ok_def srv_inv_def)
  have el: "c' \<in> snd ` set m \<longleftrightarrow> (\<exists>fd. om_find fd m = Some c')" if "om_ok m" for c' and m :: "(int, nat) omap"
    using om.elements_find [OF that] by force
  have inv: "srv_inv (w_server ?w)" using ok by (simp add: world_ok_def srv_inv_def upd_server_def)
  have fds: "\<exists>x. w_conns ?w c' = Some x \<and> cn_iFd x = fd'"
    if "om_find fd' (s_stConns (w_server ?w)) = Some c'" for fd' c'
    using that ok c by (auto simp: upd_server_def world_ok_def split: if_splits)
  have heap: "c' < w_next ?w \<and> in_ok y \<and> out_ok y" if "w_conns ?w c' = Some y" for c' y
    using that ok by (auto simp: upd_server_def world_ok_def)
  have own: "owned ?w c'" if "w_conns ?w c' \<noteq> None" "om_find fd (s_stConns (w_server w)) \<noteq> Some c'" for c'
  proof -
    have "owned w c'" using that(1) ok by (auto simp: upd_server_def world_ok_def)
    then consider "c' \<in> set (w_pins w)" | fd' where "om_find fd' (s_stConns (w_server w)) = Some c'"
      using el [OF om] by (auto simp: owned_def)
    then show ?thesis
    proof cases
      case (2 fd')
      with that(2) have "om_find fd' (om_assign fd c (s_stConns (w_server w))) = Some c'" by auto
      then have "(fd', c') \<in> set (om_assign fd c (s_stConns (w_server w)))"
        using om.elements_find [OF om.ok_assign [OF om]] by blast
      then show ?thesis by (force simp: owned_def upd_server_def)
    qed (simp add: owned_def upd_server_def)
  qed
  show ?thesis
  proof (cases "om_find fd (s_stConns (w_server w))")
    case None
    with own inv fds heap have "world_ok ?w" by (auto simp: world_ok_def)
    with None show ?thesis by (simp add: register_conn_def)
  next
    case (Some c0)
    with own inv fds heap have "world_ok (release c0 ?w)" by (intro wstep_release) auto
    with Some show ?thesis by (simp add: register_conn_def)
  qed
qed

lemma rsteps_TcpAccept: "rsteps E w (Some (RaftServer_TcpAcceptCallback r w))"
proof (cases r)
  case (Some fa)
  obtain fd addr where fa: "fa = (fd, addr)" by (cases fa)
  obtain c w1 where n: "Conn_new fd w = (c, w1)" by fastforce
  note nf = Conn_new_ok [OF n]
  let ?w1 = "w1\<lparr>w_pins := c # w_pins w1\<rparr>"
  obtain x where x: "w_conns ?w1 c = Some x" "cn_iFd x = fd" using nf by auto
  let ?w2 = "set_conn c (x\<lparr>cn_strAddr := addr\<rparr>) ?w1"
  have l12: "lstep E ?w1 ?w2" by (rule lstep_set_conn [OF x(1)]) (auto simp: in_ok_def out_ok_def)
  obtain w3 x3 where i: "Conn_Init c ?w2 = Inr w3" and l23: "lstep E ?w2 w3"
      and x3: "w_conns w3 c = Some x3" "cn_iFd x3 = fd"
  proof (cases "Channel_IsInit (cn_pstChannel x)")
    case True
    let ?x3 = "x\<lparr>cn_strAddr := addr, cn_pstChannel := Channel_Tie (Tied_Conn c) (cn_pstChannel x), cn_pstMod := Some c\<rparr>"
    have "lstep E ?w2 (set_conn c ?x3 ?w2)"
      by (rule lstep_set_conn [of _ _ "x\<lparr>cn_strAddr := addr\<rparr>"]) (auto simp: set_conn_def in_ok_def out_ok_def)
    with True show ?thesis using x(2)
      by (intro that [of "set_conn c ?x3 ?w2" ?x3]) (simp_all add: Conn_Init_def with_conn_def set_conn_def)
  next
    case False
    then show ?thesis using x(2)
      by (intro that [of ?w2 "x\<lparr>cn_strAddr := addr\<rparr>"]) (simp_all add: Conn_Init_def with_conn_def set_conn_def)
  qed
  have l13: "lstep E ?w1 w3" using l12 l23 by (rule lstep_trans)
  let ?w4 = "register_conn fd c w3"
  have "world_ok (unpin c ?w4)" if "world_ok w"
    using world_ok_new_conn [OF that n] l13 x3 by (intro world_ok_unpin world_ok_register) (auto simp: lstep_def)
  moreover have "extends E (w_server w) (w_server ?w4)"
    using nf l13 register_conn_frame(4) [of E w3 fd c] by (auto simp: lstep_def intro: extends_trans)
  moreover have "prefix (w_trace w) (w_trace (unpin c ?w4))"
  proof -
    have "prefix (w_trace w) (w_trace w1)" using nf by simp
    also have "prefix (w_trace w1) (w_trace w3)" using l13 by (simp add: lstep_def)
    also have "prefix (w_trace w3) (w_trace ?w4)" by (rule register_conn_frame)
    also have "prefix (w_trace ?w4) (w_trace (unpin c ?w4))" by (rule unpin_frame)
    finally show ?thesis .
  qed
  moreover have "w_pins (unpin c ?w4) = w_pins w" "w_alive (unpin c ?w4) = w_alive w"
    using nf l13 by (auto simp: lstep_def register_conn_frame)
  ultimately have "rstep E w (unpin c ?w4)" by (simp add: rstep_def)
  moreover have "RaftServer_TcpAcceptCallback r w = Inr (unpin c ?w4)"
    using i x(1) by (simp add: RaftServer_TcpAcceptCallback_def Some fa n with_conn_def)
  ultimately show ?thesis by simp
qed (simp add: RaftServer_TcpAcceptCallback_def)

section \<open>Rounds of the loop\<close>

context network
begin

lemma rsteps_invoke: "rsteps E w (invoke E inp ch cb w)"
  by (cases "(E, inp, ch, cb, w)" rule: invoke.cases)
    (simp_all add: rsteps_RecvCallback steps_rsteps steps_SendCallback steps_CloseCallback
      steps_AcceptedCallback steps_Timer_SendAppendEntries steps_Timer_HeartBeatTimeout
      steps_Timer_ApplyLog rsteps_TcpAccept)

lemma rsteps_fire: "rsteps E w (fire E inp ch m f w)"
  by (simp add: fire_def rsteps_invoke split: option.split)

lemma rsteps_HandleEvent: "rsteps E w (Channel_HandleEvent E inp ch w)"
  by (simp add: Channel_HandleEvent_def rsteps_obind rsteps_fire split: option.split)

lemma rsteps_handle_all: "rsteps E w (handle_all E evs w)"
proof (induction evs arbitrary: w)
  case (Cons e evs)
  obtain ch ev inp where "e = (ch, ev, inp)" by (cases e)
  with Cons.IH show ?case by (simp add: rsteps_obind rsteps_HandleEvent)
qed simp

lemma wstep_put_channel: "wstep E w (put_channel ch x w)"
proof (cases ch)
  case Ch_Server
  then show ?thesis by (auto simp: upd_server_def intro!: wstep_server extends_fields)
next
  case (Ch_Conn c)
  then show ?thesis
    by (auto simp: same_in_def out_ok_def split: option.split intro!: wstep_set_conn)
next
  case (Ch_Timer k)
  then show ?thesis by (auto simp: wstep_put_timer split: option.split)
qed

lemma steps_FillActiveChannels: "steps E w (EPoller_FillActiveChannels evs w)"
  unfolding EPoller_FillActiveChannels_def
  by (rule steps_rfold) (auto simp: wstep_put_channel split: option.split)

lemma rsteps_round: "rsteps E w (EventLoop_round E evs w)"
  unfolding EventLoop_round_def
  by (intro rsteps_obind steps_rsteps steps_FillActiveChannels rsteps_handle_all)

section \<open>Start-up\<close>

lemma world_ok_new: "srv_inv s \<Longrightarrow> s_stConns s = [] \<Longrightarrow> world_ok (new_world s)"
  by (simp add: world_ok_def new_world_def)

lemma wstep_ok: "wstep E w w' \<Longrightarrow> world_ok w \<Longrightarrow> world_ok w'"
  by (simp add: wstep_def)

lemma wstep_assign_timer: "wstep E w (assign_timer k te w)"
proof -
  have "wstep E w (put_timer k (Timer_Init k (fst te)) (emit (snd te) w))"
    by (rule wstep_trans [OF wstep_emit wstep_put_timer])
  then show ?thesis
    by (auto simp: assign_timer_def Let_def split: option.split intro: wstep_trans [OF _ wstep_emit])
qed

lemma wstep_Run: "wstep E w (RaftServer_Run fd ok w)"
proof -
  have "wstep E w' (emit eff (upd_server (\<lambda>s. s\<lparr>s_pstServerChannel := ch\<rparr>) w'))" for w' ch eff
    unfolding upd_server_def by (rule wstep_trans [OF wstep_server wstep_emit]) (auto intro!: extends_fields)
  then show ?thesis
    unfolding RaftServer_Run_def Let_def
    by (auto split: prod.split intro: wstep_trans [OF wstep_assign_timer])
qed

text \<open>Both commands leave a world that extends the new server; \<open>start\<close> makes it the leader.\<close>

lemma main_start_ok:
  assumes "main_start E b n p = Inr w"
  shows "world_ok w \<and> (\<exists>s. RaftServer_new (b_iServerFd b) (b_pstStateDB b) (b_pstEntriesDB b) = Inr s
    \<and> extends E (s\<lparr>s_stRole := Leader\<rparr>) (w_server w))"
proof -
  from assms obtain s w1 s1 where s: "RaftServer_new (b_iServerFd b) (b_pstStateDB b) (b_pstEntriesDB b) = Inr s"
      and w1: "RaftServer_BecomeLeader E (new_world s) = Inr w1"
      and s1: "RaftServer_AppendCfgLog E (str ''192.168.1.46'') p n (w_server w1) = Inr s1"
      and w: "w = RaftServer_Run (b_iTimerFd b) (b_settime_ok b) (w1\<lparr>w_server := s1\<rparr>)"
    by (auto simp: main_start_def rbind_Inr_iff)
  note s0 = RaftServer_new_facts [OF s]
  have lead: "w1 = upd_server (\<lambda>s. s\<lparr>s_stRole := Leader\<rparr>) (new_world s)"
    using w1 s0(3) by (simp add: RaftServer_BecomeLeader_def for_proxies_def upd_server_def new_world_def)
  then have "world_ok w1" "s_stConns (w_server w1) = []"
    using s0 by (auto simp: world_ok_def upd_server_def new_world_def srv_inv_def)
  then have st: "wstep E w1 (w1\<lparr>w_server := s1\<rparr>)" and ok: "world_ok w1"
    using wstep_server [of E w1 s1] extends_AppendCfgLog [OF s1] conns_frame(3) [OF s1] by simp_all
  have "wstep E w1 w" unfolding w by (rule wstep_trans [OF st wstep_Run])
  with ok s lead show ?thesis by (auto simp: wstep_def upd_server_def new_world_def)
qed

lemma lstep_Init:
  assumes "Conn_Init c w = Inr w'" and "w_conns w c = Some x"
  shows "lstep E w w' \<and> (\<exists>x'. w_conns w' c = Some x' \<and> cn_iFd x' = cn_iFd x)"
proof (cases "Channel_IsInit (cn_pstChannel x)")
  case True
  let ?x = "x\<lparr>cn_pstChannel := Channel_Tie (Tied_Conn c) (cn_pstChannel x), cn_pstMod := Some c\<rparr>"
  have "lstep E w (set_conn c ?x w)" by (rule lstep_set_conn [OF assms(2)]) (auto simp: in_ok_def out_ok_def)
  with True assms show ?thesis by (auto simp: Conn_Init_def with_conn_def set_conn_def)
next
  case False
  with assms show ?thesis by (simp add: Conn_Init_def with_conn_def)
qed

lemma steps_TryConnect: "steps E w (Conn_TryConnect r c a p n q w)"
proof -
  have "wstep E w (set_conn c (x\<lparr>cn_iJoinPort := p, cn_strJoinAddr := a, cn_iNodeID := Some n, cn_iRaftPort := q,
      cn_pstChannel := ch\<rparr>) (emit eff w))" if "w_conns w c = Some x" for x ch eff
    by (rule wstep_trans [OF wstep_emit wstep_set_conn [of _ _ x]])
      (use that in \<open>simp_all add: emit_def same_in_def out_ok_def\<close>)
  from steps_after [OF this steps_Conn_channel] show ?thesis
    unfolding Conn_TryConnect_def Let_def
    by (intro steps_with_conn) (auto split: connect_result.split)
qed

lemma ConnectToPeer_ok:
  assumes "RaftServer_ConnectToPeer fd r tfd tok a p n q w = Inr w'" and ok: "world_ok w"
  shows "world_ok w' \<and> extends E (w_server w) (w_server w')"
proof -
  obtain c w1 where new: "Conn_new fd w = (c, w1)" by fastforce
  let ?w1 = "w1\<lparr>w_pins := c # w_pins w1\<rparr>"
  from assms(1) new obtain w2 w3 x3 where i: "Conn_Init c ?w1 = Inr w2"
      and t: "Conn_TryConnect r c a p n q w2 = Inr w3" and x3: "w_conns w3 c = Some x3"
      and w': "w' = register_conn (cn_iFd x3) c (assign_timer FollowerHeartbeatTimer
        (Timer_new tfd tok 21 FollowerHeartbeatTimer) (set_conn c (x3\<lparr>cn_strAddr := a\<rparr>) w3))"
    by (auto simp: RaftServer_ConnectToPeer_def rbind_Inr_iff with_conn_def Let_def split: option.splits)
  obtain x1 where x1: "w_conns ?w1 c = Some x1" using Conn_new_ok [OF new] by auto
  have "world_ok ?w1" by (rule world_ok_new_conn [OF ok new])
  then have "world_ok w2" and p2: "w_pins w2 = c # w_pins w1" and e2: "extends E (w_server w1) (w_server w2)"
    using lstep_Init [OF i x1] by (auto simp: lstep_def)
  moreover have s3: "wstep E w2 w3" by (rule stepsD [OF steps_TryConnect t])
  ultimately have w3: "world_ok w3" by (blast intro: wstep_ok)
  let ?w4 = "set_conn c (x3\<lparr>cn_strAddr := a\<rparr>) w3"
  let ?w5 = "assign_timer FollowerHeartbeatTimer (Timer_new tfd tok 21 FollowerHeartbeatTimer) ?w4"
  have s4: "wstep E w3 ?w4" by (rule wstep_set_conn [OF x3]) (simp_all add: same_in_def out_ok_def)
  have s35: "wstep E w3 ?w5" by (rule wstep_trans [OF s4 wstep_assign_timer])
  have "c \<in> set (w_pins w3)" using wstep_pins [OF s3] p2 by simp
  then obtain x5 where "w_conns ?w5 c = Some x5" "same_in x3 x5" using wstep_pinned [OF s35 _ x3] by blast
  with wstep_ok [OF s35 w3] have "world_ok w'"
    unfolding w' by (intro world_ok_register [of _ _ x5]) (simp_all add: same_in_def)
  moreover have "w_server w1 = w_server w" using Conn_new_ok [OF new] by simp
  moreover have "extends E (w_server w2) (w_server ?w5)" using s3 s35 by (auto simp: wstep_def intro: extends_trans)
  ultimately show ?thesis unfolding w' using e2 register_conn_frame(4) by (metis extends_trans)
qed

lemma main_join_ok:
  assumes "main_join b a j n p = Inr w"
  shows "world_ok w \<and> (\<exists>s. RaftServer_new (b_iServerFd b) (b_pstStateDB b) (b_pstEntriesDB b) = Inr s
    \<and> extends E s (w_server w))"
proof -
  from assms obtain s where s: "RaftServer_new (b_iServerFd b) (b_pstStateDB b) (b_pstEntriesDB b) = Inr s"
      and w: "RaftServer_ConnectToPeer (b_iClientFd b) (b_connect b) (b_iTimerFd b) (b_settime_ok b)
        a j n p (new_world s) = Inr w"
    by (auto simp: main_join_def rbind_Inr_iff)
  have "world_ok (new_world s)" using RaftServer_new_facts [OF s] by (intro world_ok_new) simp_all
  from ConnectToPeer_ok [OF w this] s show ?thesis by (simp add: new_world_def)
qed

lemma main_cases:
  assumes "main E b argv = Inr (Some w)"
  obtains (start) n p where "main_start E b n p = Inr w"
    | (join) a j n p where "main_join b a j n p = Inr w"
  using assms by (auto simp: main_def rbind_Inr_iff Let_def split: if_splits)

lemma main_ok:
  assumes "main E b argv = Inr (Some w)"
  shows "world_ok w \<and> (\<exists>s r. RaftServer_new (b_iServerFd b) (b_pstStateDB b) (b_pstEntriesDB b) = Inr s
    \<and> extends E (s\<lparr>s_stRole := r\<rparr>) (w_server w))"
  using assms
proof (cases rule: main_cases)
  case (join a j n p)
  from main_join_ok [OF this] obtain s where s: "world_ok w"
      "RaftServer_new (b_iServerFd b) (b_pstStateDB b) (b_pstEntriesDB b) = Inr s" "extends E s (w_server w)" by blast
  then have "extends E (s\<lparr>s_stRole := s_stRole s\<rparr>) (w_server w)" by simp
  with s(1,2) show ?thesis by blast
qed (use main_start_ok in blast)

text \<open>The rounds of the loop from a given state on.\<close>

lemma runs_rstep: "runs E w w' \<Longrightarrow> rstep E w w'"
proof (induction rule: runs.induct)
  case (round w w' evs w'')
  with rstepsD [OF rsteps_round round.hyps(2)] show ?case by (blast intro: rstep_trans)
qed simp

lemma reachable_world_ok: "reachable E w \<Longrightarrow> world_ok w"
proof (induction rule: reachable.induct)
  case (boot b argv w)
  then show ?case using main_ok by blast
next
  case (round w evs w')
  with rstepsD [OF rsteps_round round.hyps(2)] show ?case by (simp add: rstep_def)
qed

end

end
