(* ===== verification/Raft_Replication.thy ===== *)
theory Raft_Replication
  imports Mod_World
begin

text \<open>
  Log replication: what \<open>AppendEntriesQ\<close> makes of a follower, as an abstract transition
  (\<open>follower_step\<close>) that the handler refines, and what a leader's messages and a
  follower's answers do together.
\<close>

section \<open>The follower, abstractly\<close>

record follower =
  f_term :: u32
  f_role :: RaftProxyRole
  f_log :: "entry list"
  f_commit :: u32

definition abs_follower :: "'db RaftServer \<Rightarrow> follower" where
  "abs_follower s = \<lparr>f_term = s_dwCurrentTerm s, f_role = s_stRole s, f_log = s_stEntries s,
     f_commit = s_dwCommitIndex s\<rparr>"

definition is_cfg :: "entry \<Rightarrow> bool" where
  "is_cfg e \<longleftrightarrow> en_type e = CFGADD \<or> en_type e = CFGREM"

text \<open>What a follower appends for a received entry: an addition in its own current term.\<close>

definition restamp :: "u32 \<Rightarrow> entry \<Rightarrow> entry" where
  "restamp t e = cfg_entry t (en_host e) (sint (en_port e)) (sint (en_nodeid e))"

definition f_terms :: "appendentries_q \<Rightarrow> follower \<Rightarrow> follower" where
  "f_terms p f =
     (if f_role f = Candidate \<and> f_term f = aq_term p then f\<lparr>f_role := Follower\<rparr>
      else if f_term f < aq_term p then f\<lparr>f_term := aq_term p, f_role := Follower\<rparr>
      else f)"

definition f_accepts :: "appendentries_q \<Rightarrow> follower \<Rightarrow> bool" where
  "f_accepts p f \<longleftrightarrow> f_term f \<le> aq_term p \<and>
     (0 < aq_prelogindex p \<longrightarrow> unat (aq_prelogindex p) < length (f_log f)
        \<and> en_term (f_log f ! unat (aq_prelogindex p)) = aq_prelogterm p
        \<and> aq_prelogterm p \<noteq> - 1)"

definition f_commits :: "appendentries_q \<Rightarrow> follower \<Rightarrow> follower" where
  "f_commits p f =
     (if f_commit f < aq_leadercommit p
      then f\<lparr>f_commit := min (aq_leadercommit p) (aq_prelogindex p + of_nat (length (aq_entries p)))\<rparr>
      else f)"

definition follower_step :: "appendentries_q \<Rightarrow> follower \<Rightarrow> appendentries_r \<times> follower" where
  "follower_step p f =
     (let f1 = f_terms p f;
          f2 = (if f_accepts p f
                then f1\<lparr>f_log := f_log f1 @ map (restamp (f_term f1)) (filter is_cfg (aq_entries p))\<rparr> else f1);
          f3 = f_commits p f2 in
      (appendentries_r_SharedCtor\<lparr>ar_term := f_term f3, ar_success := f_accepts p f,
         ar_isheartbeat := f_accepts p f \<and> aq_entries p = []\<rparr>, f3))"

section \<open>Refinement\<close>

text \<open>
  The conditions under which nothing but the protocol decides: a database that takes every
  write, a zero byte behind every buffer, protobuf's encoding.
\<close>

locale calm_store =
  fixes E :: "'db env"
  assumes nul_free: "wire_nul_free (e_wire E)"
    and put_ok: "fst (ldb_Put (e_entries_db E) db k v)"
    and put_state_ok: "fst (ldb_Put (e_state_db E) db k v)"
    and after: "\<exists>r. e_after E n = 0 # r"
begin

lemma SetTerm_calm:
  "w_alive w \<Longrightarrow> \<exists>w'. Conn_Server_SetTerm E t w = Inr w' \<and> w_alive w' \<and> w_conns w' = w_conns w
     \<and> s_stLogs (w_server w') = s_stLogs (w_server w)
     \<and> abs_follower (w_server w') = abs_follower (w_server w)\<lparr>f_term := t\<rparr>"
  using put_state_ok [of "s_pstStateDB (w_server w)" "str ''term''" "to_string (unat t)"]
  by (auto simp: Conn_Server_SetTerm_def on_server_def RaftServer_SetAndPersistTerm_def abs_follower_def
      split: prod.split)

lemma aeq_terms_calm:
  assumes "w_alive w"
  shows "\<exists>w'. aeq_terms E p w = Inr (aq_term p < s_dwCurrentTerm (w_server w), w') \<and> w_alive w'
    \<and> w_conns w' = w_conns w \<and> s_stLogs (w_server w') = s_stLogs (w_server w)
    \<and> abs_follower (w_server w') = f_terms p (abs_follower (w_server w))"
proof -
  have follow: "\<exists>w'. Conn_Server_BecomeFollower w = Inr w' \<and> w_alive w' \<and> w_conns w' = w_conns w
      \<and> s_stLogs (w_server w') = s_stLogs (w_server w)
      \<and> abs_follower (w_server w') = abs_follower (w_server w)\<lparr>f_role := Follower\<rparr>"
    if "w_alive w" for w :: "'a world"
    using that by (simp add: Conn_Server_BecomeFollower_def on_server_def RaftServer_BecomeFollower_def abs_follower_def)
  obtain w1 where w1: "Conn_Server_BecomeFollower w = Inr w1" "w_alive w1" "w_conns w1 = w_conns w"
      "s_stLogs (w_server w1) = s_stLogs (w_server w)"
      "abs_follower (w_server w1) = abs_follower (w_server w)\<lparr>f_role := Follower\<rparr>"
    using follow [OF assms] by blast
  obtain w2 where w2: "Conn_Server_SetTerm E (aq_term p) w = Inr w2" "w_alive w2" "w_conns w2 = w_conns w"
      "s_stLogs (w_server w2) = s_stLogs (w_server w)"
      "abs_follower (w_server w2) = abs_follower (w_server w)\<lparr>f_term := aq_term p\<rparr>"
    using SetTerm_calm [OF assms] by blast
  obtain w3 where w3: "Conn_Server_BecomeFollower w2 = Inr w3" "w_alive w3" "w_conns w3 = w_conns w2"
      "s_stLogs (w_server w3) = s_stLogs (w_server w2)"
      "abs_follower (w_server w3) = abs_follower (w_server w2)\<lparr>f_role := Follower\<rparr>"
    using follow [OF w2(2)] by blast
  show ?thesis
    using w1 w2 w3 assms
    by (auto simp: aeq_terms_def f_terms_def Conn_Server_IsCandidate_def Conn_Server_CurrentTerm_def
        ask_server_def) (auto simp: abs_follower_def)
qed

lemma aeq_append_calm:
  assumes "w_alive w" and "list_all (\<lambda>e. 0 \<notin> set (en_host e)) es"
  shows "\<exists>w'. aeq_append E es w = Inr w' \<and> w_alive w' \<and> w_conns w' = w_conns w
    \<and> abs_follower (w_server w') = abs_follower (w_server w)\<lparr>f_log :=
        s_stEntries (w_server w) @ map (restamp (s_dwCurrentTerm (w_server w))) (filter is_cfg es)\<rparr>"
  using assms
proof (induction es arbitrary: w)
  case Nil
  then show ?case by (simp add: aeq_append_def abs_follower_def)
next
  case (Cons e es)
  show ?case
  proof (cases "is_cfg e")
    case True
    obtain r where r: "e_after E (s_nAllocs (w_server w)) = 0 # r" using after by blast
    obtain s1 where s1: "RaftServer_AppendCfgLog E (en_host e) (sint (en_port e)) (sint (en_nodeid e)) (w_server w) = Inr s1"
        "s_stEntries s1 = s_stEntries (w_server w) @ [restamp (s_dwCurrentTerm (w_server w)) e]"
        "s_dwCurrentTerm s1 = s_dwCurrentTerm (w_server w)"
      using AppendCfgLog_calm [OF nul_free _ r put_ok, of "en_host e" "sint (en_port e)" "sint (en_nodeid e)"]
        Cons.prems(2) by (auto simp: restamp_def)
    have fr: "s_stRole s1 = s_stRole (w_server w)" "s_dwCommitIndex s1 = s_dwCommitIndex (w_server w)"
      using s1(1) by (auto elim!: AppendCfgLog_cases)
    let ?w = "w\<lparr>w_server := s1\<rparr>"
    obtain w' where "aeq_append E es ?w = Inr w'" "w_alive w'" "w_conns w' = w_conns ?w"
        "abs_follower (w_server w') = abs_follower s1\<lparr>f_log :=
          s_stEntries s1 @ map (restamp (s_dwCurrentTerm s1)) (filter is_cfg es)\<rparr>"
      using Cons.IH [of ?w] Cons.prems by auto
    moreover have "aeq_append_one E e w = Inr ?w"
      using True s1(1) Cons.prems(1)
      by (simp add: aeq_append_one_def is_cfg_def Conn_Server_AppendCfgLog_def on_server_def)
    ultimately show ?thesis
      using True s1 fr by (auto simp: aeq_append_def abs_follower_def)
  next
    case False
    with Cons show ?thesis by (simp add: aeq_append_def aeq_append_one_def is_cfg_def)
  qed
qed

text \<open>The check of the entry before the new ones, against the abstract test.\<close>

lemma aeq_matches_calm:
  assumes "w_alive w" and "length (s_stEntries (w_server w)) < 2 ^ 32 - 1" and "aq_prelogindex p \<noteq> - 1"
  shows "aeq_matches p w = Inr (0 < aq_prelogindex p \<longrightarrow>
    unat (aq_prelogindex p) < length (s_stEntries (w_server w))
    \<and> en_term (s_stEntries (w_server w) ! unat (aq_prelogindex p)) = aq_prelogterm p
    \<and> aq_prelogterm p \<noteq> - 1)"
proof -
  let ?i = "aq_prelogindex p" and ?s = "w_server w"
  have "unat (?i + 1) = unat ?i + 1"
    using assms(3) by (metis add.commute add_eq_0_iff2 unatSuc Suc_eq_plus1 minus_equation_iff add_eq_0_iff)
  then have t: "RaftServer_EntryTermByIndex ?i ?s =
      (if unat ?i < length (s_stEntries ?s) then Inr (sint (en_term (s_stEntries ?s ! unat ?i))) else Inr (- 1))"
    by (simp add: RaftServer_EntryTermByIndex_def)
  show ?thesis
    using assms(1)
    by (auto simp: aeq_matches_def Conn_Server_EntryTermByIndex_def ask_server_def t sint_minus1)
qed

lemma aeq_conflicts_none:
  assumes "w_alive w" and "s_stLogs (w_server w) = []" and "i + 1 \<noteq> 0"
  shows "aeq_conflicts E i (e # es) w = Inr (e # es, w)"
  using assms by (simp add: Conn_Server_LogTermByIndex_def ask_server_def LogTermByIndex_empty)

lemma FreshTime_calm:
  "w_alive w \<Longrightarrow> \<exists>w'. Conn_Server_FreshTime t w = Inr w' \<and> w_alive w' \<and> w_conns w' = w_conns w
     \<and> abs_follower (w_server w') = abs_follower (w_server w)"
  by (auto simp: Conn_Server_FreshTime_def RaftServer_FreshTime_def emit_def abs_follower_def Let_def
      split: prod.split option.split)

lemma aeq_commit_calm:
  "w_alive w \<Longrightarrow> \<exists>w'. aeq_commit p w = Inr w' \<and> w_alive w' \<and> w_conns w' = w_conns w
     \<and> abs_follower (w_server w') = f_commits p (abs_follower (w_server w))"
  by (auto simp: aeq_commit_def f_commits_def Conn_Server_CommitIndex_def ask_server_def
      Conn_Server_SetCommitIndex_def on_server_def RaftServer_SetCommitIndex_def abs_follower_def Let_def)

text \<open>The handler up to its answer, as one function of the server.\<close>

lemma aeq_refines:
  assumes "w_alive w" and "s_stLogs (w_server w) = []" and "length (s_stEntries (w_server w)) < 2 ^ 32 - 1"
    and "aq_prelogindex p + 2 \<noteq> 0" and "aq_prelogindex p \<noteq> - 1"
    and "list_all (\<lambda>e. 0 \<notin> set (en_host e)) (aq_entries p)"
  shows "\<exists>w1 w2 r. aeq_body E p w = Inr (r, w1) \<and> aeq_commit p w1 = Inr w2 \<and> w_alive w2 \<and> w_conns w2 = w_conns w
    \<and> (r\<lparr>ar_term := s_dwCurrentTerm (w_server w2)\<rparr>, abs_follower (w_server w2)) =
       follower_step p (abs_follower (w_server w))"
proof -
  let ?f = "abs_follower (w_server w)"
  let ?r = "\<lambda>ok hb. appendentries_r_SharedCtor\<lparr>ar_success := ok, ar_isheartbeat := hb\<rparr>"
  obtain w0 where w0: "aeq_terms E p w = Inr (aq_term p < f_term ?f, w0)" "w_alive w0" "w_conns w0 = w_conns w"
      "s_stLogs (w_server w0) = []" "abs_follower (w_server w0) = f_terms p ?f"
    using aeq_terms_calm [OF assms(1), of p] assms(2) by (auto simp: abs_follower_def)
  have log: "s_stEntries (w_server w0) = f_log ?f" "s_dwCurrentTerm (w_server w0) = f_term (f_terms p ?f)"
    using w0(5) by (auto simp: abs_follower_def f_terms_def split: if_splits)
  have match: "aeq_matches p w0 = Inr (f_accepts p ?f)" if "\<not> aq_term p < f_term ?f"
    using aeq_matches_calm [OF w0(2), of p] assms(3,5) log(1) that
    by (auto simp: f_accepts_def abs_follower_def not_less)
  have stale: "\<not> f_accepts p ?f" if "aq_term p < f_term ?f" using that by (simp add: f_accepts_def not_le)
  have "\<exists>w1. aeq_body E p w = Inr (?r (f_accepts p ?f) (f_accepts p ?f \<and> aq_entries p = []), w1)
      \<and> w_alive w1 \<and> w_conns w1 = w_conns w
      \<and> abs_follower (w_server w1) = (if f_accepts p ?f
          then f_terms p ?f\<lparr>f_log := f_log (f_terms p ?f)
            @ map (restamp (f_term (f_terms p ?f))) (filter is_cfg (aq_entries p))\<rparr> else f_terms p ?f)"
  proof (cases "f_accepts p ?f")
    case False
    then show ?thesis
      using w0 match
      by (cases "aq_term p < f_term ?f") (auto simp: aeq_body_def appendentries_r_SharedCtor_def Let_def)
  next
    case acc: True
    then have fresh: "\<not> aq_term p < f_term ?f" using stale by blast
    show ?thesis
    proof (cases "aq_entries p")
      case Nil
      obtain w1 where "Conn_Server_FreshTime FollowerHeartbeatTimer w0 = Inr w1" "w_alive w1" "w_conns w1 = w_conns w0"
          "abs_follower (w_server w1) = abs_follower (w_server w0)"
        using FreshTime_calm [OF w0(2)] by blast
      with Nil acc fresh w0 match [OF fresh] show ?thesis
        by (auto simp: aeq_body_def appendentries_r_SharedCtor_def Let_def)
    next
      case (Cons e es)
      have conf: "aeq_conflicts E (aq_prelogindex p + 1) (aq_entries p) w0 = Inr (aq_entries p, w0)"
        unfolding Cons using assms(4) by (intro aeq_conflicts_none w0) (simp add: add.assoc)
      obtain w1 where w1: "aeq_append E (aq_entries p) w0 = Inr w1" "w_alive w1" "w_conns w1 = w_conns w0"
          "abs_follower (w_server w1) = abs_follower (w_server w0)\<lparr>f_log :=
            s_stEntries (w_server w0) @ map (restamp (s_dwCurrentTerm (w_server w0))) (filter is_cfg (aq_entries p))\<rparr>"
        using aeq_append_calm [OF w0(2) assms(6)] by blast
      have "f_log (f_terms p ?f) = f_log ?f" by (simp add: f_terms_def)
      with Cons acc fresh w0 match [OF fresh] conf w1 log show ?thesis
        by (auto simp: aeq_body_def appendentries_r_SharedCtor_def Let_def)
    qed
  qed
  then obtain w1 where w1: "aeq_body E p w = Inr (?r (f_accepts p ?f) (f_accepts p ?f \<and> aq_entries p = []), w1)"
      "w_alive w1" "w_conns w1 = w_conns w"
      "abs_follower (w_server w1) = (if f_accepts p ?f
          then f_terms p ?f\<lparr>f_log := f_log (f_terms p ?f)
            @ map (restamp (f_term (f_terms p ?f))) (filter is_cfg (aq_entries p))\<rparr> else f_terms p ?f)"
    by blast
  obtain w2 where w2: "aeq_commit p w1 = Inr w2" "w_alive w2" "w_conns w2 = w_conns w1"
      "abs_follower (w_server w2) = f_commits p (abs_follower (w_server w1))"
    using aeq_commit_calm [OF w1(2)] by blast
  have "s_dwCurrentTerm (w_server w2) = f_term (abs_follower (w_server w2))" by (simp add: abs_follower_def)
  with w1 w2 show ?thesis
    by (auto simp: follower_step_def Let_def)
qed

end

interpretation calm: calm_store calm_env
  using leb.wire_nul_free_axioms by (intro calm_store.intro) simp_all

lemma flush_out_server: "flush_out E c x w = Inr w' \<Longrightarrow> w_server w' = w_server w"
  by (auto simp: flush_out_def Let_def set_conn_def emit_def rbind_Inr_iff split: if_splits)

lemma send_frame_server: "send_frame E c i m w = Inr w' \<Longrightarrow> w_server w' = w_server w"
  by (auto simp: send_frame_def with_conn_def rbind_Inr_iff flush_out_server split: option.splits)

lemma AppendEntriesQ_step:
  assumes cs: "calm_store E" and c: "w_conns w c = Some x" and al: "w_alive w" and inv: "srv_inv (w_server w)"
    and len: "length (s_stEntries (w_server w)) < 2 ^ 32 - 1"
    and pre: "aq_prelogindex p + 2 \<noteq> 0" "aq_prelogindex p \<noteq> - 1"
    and hosts: "list_all (\<lambda>e. 0 \<notin> set (en_host e)) (aq_entries p)"
  shows "\<exists>w2. ModApi_AppendEntriesQ E c p w =
        send_frame E c 260 (M_appendentries_r (fst (follower_step p (abs_follower (w_server w))))) w2
      \<and> w_conns w2 = w_conns w \<and> abs_follower (w_server w2) = snd (follower_step p (abs_follower (w_server w)))
      \<and> wstep E w w2"
proof -
  have "s_stLogs (w_server w) = []" using inv by (simp add: srv_inv_def)
  then obtain w1 w2 r where r: "aeq_body E p w = Inr (r, w1)" "aeq_commit p w1 = Inr w2" "w_alive w2"
      "w_conns w2 = w_conns w" "(r\<lparr>ar_term := s_dwCurrentTerm (w_server w2)\<rparr>, abs_follower (w_server w2)) =
        follower_step p (abs_follower (w_server w))"
    using calm_store.aeq_refines [OF cs al _ len pre hosts] by blast
  have "fst (follower_step p (abs_follower (w_server w))) = r\<lparr>ar_term := s_dwCurrentTerm (w_server w2)\<rparr>"
    "snd (follower_step p (abs_follower (w_server w))) = abs_follower (w_server w2)"
    using r(5) by (metis fst_conv, metis snd_conv)
  moreover have "wstep E w w2"
    using steps_aeq_body [of E w p] stepsD [OF steps_aeq_commit r(2)] r(1) wstep_trans unfolding steps_val_def by blast
  ultimately show ?thesis using r c
    by (auto simp: ModApi_AppendEntriesQ_def conn_lock_def Mod_HandlePreSendMsg_def
        Conn_Server_CurrentTerm_def ask_server_def)
qed

text \<open>
  C3. \<open>AppendEntriesQ\<close> refines the abstract follower. On a connected, running server that
  satisfies its invariant, with storage that works and a \<open>prelogindex\<close> below the two
  values at which 32-bit sums wrap, the handler changes term, role, log and commit index
  exactly as \<open>follower_step\<close> says, on every branch (stale term, missing or conflicting
  previous entry, heartbeat, entries), and answers with \<open>follower_step\<close>'s message.
\<close>

theorem AppendEntriesQ_refines:
  assumes "calm_store E" and "w_conns w c = Some x" and "w_alive w" and "srv_inv (w_server w)"
    and "length (s_stEntries (w_server w)) < 2 ^ 32 - 1"
    and "aq_prelogindex p + 2 \<noteq> 0" and "aq_prelogindex p \<noteq> - 1"
    and "list_all (\<lambda>e. 0 \<notin> set (en_host e)) (aq_entries p)"
  shows "(\<exists>w2. w_conns w2 = w_conns w \<and> ModApi_AppendEntriesQ E c p w =
        send_frame E c 260 (M_appendentries_r (fst (follower_step p (abs_follower (w_server w))))) w2)
    \<and> (\<forall>w'. ModApi_AppendEntriesQ E c p w = Inr w' \<longrightarrow>
        abs_follower (w_server w') = snd (follower_step p (abs_follower (w_server w))))"
proof -
  let ?f = "follower_step p (abs_follower (w_server w))"
  obtain w2 where w2: "ModApi_AppendEntriesQ E c p w = send_frame E c 260 (M_appendentries_r (fst ?f)) w2"
      "w_conns w2 = w_conns w" "abs_follower (w_server w2) = snd ?f"
    using AppendEntriesQ_step [OF assms] by blast
  have "abs_follower (w_server w') = snd ?f" if "ModApi_AppendEntriesQ E c p w = Inr w'" for w'
  proof -
    have "w_server w' = w_server w2" using that unfolding w2(1) by (rule send_frame_server)
    then show ?thesis by (simp add: w2(3))
  qed
  with w2(1,2) show ?thesis by blast
qed

definition sample_entries :: appendentries_q where
  "sample_entries = appendentries_q_SharedCtor\<lparr>aq_term := 4, aq_leadercommit := 1,
     aq_entries := [cfg_entry 3 (str ''a'') 1 1, cfg_entry 4 (str ''b'') 2 2]\<rparr>"

definition sample_reply :: appendentries_r where
  "sample_reply = appendentries_r_SharedCtor\<lparr>ar_term := 4, ar_success := True, ar_isheartbeat := False\<rparr>"

lemma calm_delivery:
  assumes "w_conns w 0 = Some x" "out_ok x" "out_queue x = []" and "w_alive w" and "srv_inv (w_server w)"
    and "length (s_stEntries (w_server w)) < 2 ^ 32 - 1"
    and "aq_prelogindex p + 2 \<noteq> 0" "aq_prelogindex p \<noteq> - 1"
    and "list_all (\<lambda>e. 0 \<notin> set (en_host e)) (aq_entries p)"
    and "length (frame leb_wire 260 (M_appendentries_r (fst (follower_step p (abs_follower (w_server w)))))) \<le> BUFSIZE"
  shows "\<exists>w' x'. ModApi_AppendEntriesQ calm_env 0 p w = Inr w' \<and> w_conns w' 0 = Some x' \<and> out_ok x'
    \<and> out_queue x' = []"
proof -
  obtain w2 where w2: "ModApi_AppendEntriesQ calm_env 0 p w =
        send_frame calm_env 0 260 (M_appendentries_r (fst (follower_step p (abs_follower (w_server w))))) w2"
      "w_conns w2 = w_conns w"
    using AppendEntriesQ_step [OF calm.calm_store_axioms assms(1,4-9)] by blast
  show ?thesis using calm_send [of w2 0 x, OF _ assms(2,3,10)] w2 assms(1) by auto
qed

lemma sample_step:
  "follower_step sample_entries \<lparr>f_term = t, f_role = Follower, f_log = es, f_commit = 0\<rparr> =
    (sample_reply, \<lparr>f_term = 4, f_role = Follower,
       f_log = es @ [cfg_entry 4 (str ''a'') 1 1, cfg_entry 4 (str ''b'') 2 2], f_commit = 1\<rparr>)"
  if "t \<le> 4" for t es
  using that
  by (simp add: follower_step_def f_terms_def f_accepts_def f_commits_def sample_entries_def
        appendentries_q_SharedCtor_def is_cfg_def restamp_def cfg_entry_def entry_SharedCtor_def
        sample_reply_def appendentries_r_SharedCtor_def Let_def)

lemma sample_conditions:
  "aq_prelogindex sample_entries + 2 \<noteq> 0" "aq_prelogindex sample_entries \<noteq> - 1"
  "list_all (\<lambda>e. 0 \<notin> set (en_host e)) (aq_entries sample_entries)"
  by (simp_all add: sample_entries_def appendentries_q_SharedCtor_def str_def of_char_def)

lemma sample_reply_fits: "length (frame leb_wire 260 (M_appendentries_r sample_reply)) \<le> BUFSIZE"
  by code_simp

lemma calm_world_follower:
  "abs_follower (w_server calm_world) = \<lparr>f_term = 0, f_role = Follower, f_log = [], f_commit = 0\<rparr>"
  "srv_inv (w_server calm_world)"
  using calm_world_ok by (simp_all add: abs_follower_def calm_server_simps world_ok_def)

theorem AppendEntriesQ_refines_witness:
  "\<exists>w'. ModApi_AppendEntriesQ calm_env 0 sample_entries calm_world = Inr w' \<and>
     abs_follower (w_server w') = \<lparr>f_term = 4, f_role = Follower,
       f_log = [cfg_entry 4 (str ''a'') 1 1, cfg_entry 4 (str ''b'') 2 2], f_commit = 1\<rparr>"
proof -
  have step: "follower_step sample_entries (abs_follower (w_server calm_world)) = (sample_reply,
      \<lparr>f_term = 4, f_role = Follower, f_log = [cfg_entry 4 (str ''a'') 1 1, cfg_entry 4 (str ''b'') 2 2], f_commit = 1\<rparr>)"
    unfolding calm_world_follower(1) by (subst sample_step) simp_all
  obtain w' where w': "ModApi_AppendEntriesQ calm_env 0 sample_entries calm_world = Inr w'"
    using calm_delivery [of calm_world calm_conn sample_entries] calm_world_follower(2) sample_conditions
      sample_reply_fits step by (auto simp: calm_server_simps)
  then have "abs_follower (w_server w') = snd (follower_step sample_entries (abs_follower (w_server calm_world)))"
    using AppendEntriesQ_refines [OF calm.calm_store_axioms, of calm_world 0 calm_conn sample_entries]
      calm_world_follower(2) sample_conditions by (auto simp: calm_server_simps)
  with w' step show ?thesis by simp
qed

section \<open>What the follower's rules imply\<close>

lemma AppendEntriesQ_abs:
  assumes "calm_store E" and "network E" and "w_conns w c = Some x" and "w_alive w" and "srv_inv (w_server w)"
    and "length (s_stEntries (w_server w)) < 2 ^ 32 - 1"
    and "aq_prelogindex p + 2 \<noteq> 0" and "aq_prelogindex p \<noteq> - 1"
    and "list_all (\<lambda>e. 0 \<notin> set (en_host e)) (aq_entries p)"
    and "c \<in> set (w_pins w)" and "ModApi_AppendEntriesQ E c p w = Inr w'"
  shows "abs_follower (w_server w') = snd (follower_step p (abs_follower (w_server w)))"
    and "\<exists>x'. w_conns w' c = Some x'" and "w_alive w'" and "srv_inv (w_server w')" and "w_pins w' = w_pins w"
proof -
  let ?f = "follower_step p (abs_follower (w_server w))"
  obtain w2 where w2: "ModApi_AppendEntriesQ E c p w = send_frame E c 260 (M_appendentries_r (fst ?f)) w2"
      "abs_follower (w_server w2) = snd ?f"
    using AppendEntriesQ_step [OF assms(1,3-9)] by blast
  have "w_server w' = w_server w2" using assms(11) unfolding w2(1) by (rule send_frame_server)
  then show "abs_follower (w_server w') = snd ?f" by (simp add: w2(2))
  have s: "wstep E w w'" by (rule stepsD [OF network.steps_AppendEntriesQ [OF assms(2)] assms(11)])
  show "\<exists>x'. w_conns w' c = Some x'" using wstep_pinned [OF s assms(10,3)] by blast
  show "w_alive w'" "srv_inv (w_server w')" "w_pins w' = w_pins w"
    using s assms(4,5) by (simp_all add: wstep_def extends_def)
qed

text \<open>
  C33. Delivering an \<open>AppendEntries\<close> message again appends its entries again. The loop
  that looks for conflicts consults \<open>m_stLogs_\<close>, which is always empty, so an accepted
  message whose entries the follower already holds is accepted once more, and the log holds
  them twice.
\<close>

theorem redelivery_duplicates:
  assumes "calm_store E" and "network E" and "w_conns w c = Some x" and "c \<in> set (w_pins w)"
    and "w_alive w" and "srv_inv (w_server w)"
    and "length (s_stEntries (w_server w)) + length (aq_entries p) < 2 ^ 32 - 1"
    and "aq_prelogindex p + 2 \<noteq> 0" and "aq_prelogindex p \<noteq> - 1"
    and "list_all (\<lambda>e. 0 \<notin> set (en_host e)) (aq_entries p)"
    and "f_accepts p (abs_follower (w_server w))"
    and "ModApi_AppendEntriesQ E c p w = Inr w1" and "ModApi_AppendEntriesQ E c p w1 = Inr w2"
  shows "s_stEntries (w_server w2) = s_stEntries (w_server w)
    @ map (restamp (aq_term p)) (filter is_cfg (aq_entries p))
    @ map (restamp (aq_term p)) (filter is_cfg (aq_entries p))"
proof -
  let ?f = "abs_follower (w_server w)" and ?es = "map (restamp (aq_term p)) (filter is_cfg (aq_entries p))"
  have len: "length (s_stEntries (w_server w)) < 2 ^ 32 - 1" using assms(7) by simp
  note a1 = AppendEntriesQ_abs [OF assms(1-3,5,6) len assms(8-10,4,12)]
  have t: "f_term (f_terms p ?f) = aq_term p" using assms(11) by (auto simp: f_terms_def f_accepts_def)
  have f1: "f_log (abs_follower (w_server w1)) = f_log ?f @ ?es" "f_term (abs_follower (w_server w1)) = aq_term p"
    using assms(11) t unfolding a1(1) by (simp_all add: follower_step_def f_commits_def f_terms_def Let_def)
  have "length ?es \<le> length (aq_entries p)" by simp
  then have len1: "length (s_stEntries (w_server w1)) < 2 ^ 32 - 1"
    using f1(1) assms(7) unfolding abs_follower_def follower.simps
    by (metis (no_types, lifting) add_le_cancel_left le_less_trans length_append)
  obtain x1 where x1: "w_conns w1 c = Some x1" using a1(2) by blast
  have p1: "c \<in> set (w_pins w1)" using a1(5) assms(4) by simp
  note a2 = AppendEntriesQ_abs [OF assms(1,2) x1 a1(3,4) len1 assms(8-10) p1 assms(13)]
  have "f_accepts p (abs_follower (w_server w1))"
    using assms(11) f1 by (auto simp: f_accepts_def nth_append)
  moreover have "f_term (f_terms p (abs_follower (w_server w1))) = aq_term p" using f1(2) by (simp add: f_terms_def)
  ultimately have "f_log (abs_follower (w_server w2)) = f_log (abs_follower (w_server w1)) @ ?es"
    unfolding a2(1) by (simp add: follower_step_def f_commits_def f_terms_def Let_def)
  with f1(1) show ?thesis by (simp add: abs_follower_def)
qed

theorem redelivery_duplicates_witness:
  "\<exists>w1 w2. ModApi_AppendEntriesQ calm_env 0 sample_entries (calm_world\<lparr>w_pins := [0]\<rparr>) = Inr w1
     \<and> ModApi_AppendEntriesQ calm_env 0 sample_entries w1 = Inr w2
     \<and> s_stEntries (w_server w2) = [cfg_entry 4 (str ''a'') 1 1, cfg_entry 4 (str ''b'') 2 2,
         cfg_entry 4 (str ''a'') 1 1, cfg_entry 4 (str ''b'') 2 2]"
proof -
  let ?w = "calm_world\<lparr>w_pins := [0]\<rparr>"
  have step: "follower_step sample_entries (abs_follower (w_server ?w)) = (sample_reply,
      \<lparr>f_term = 4, f_role = Follower, f_log = [cfg_entry 4 (str ''a'') 1 1, cfg_entry 4 (str ''b'') 2 2], f_commit = 1\<rparr>)"
    using calm_world_follower(1) by (simp add: sample_step)
  obtain w1 x1 where w1: "ModApi_AppendEntriesQ calm_env 0 sample_entries ?w = Inr w1" "w_conns w1 0 = Some x1"
      "out_ok x1" "out_queue x1 = []"
    using calm_delivery [of ?w calm_conn sample_entries] calm_world_follower(2) sample_conditions
      sample_reply_fits step by (auto simp: calm_server_simps)
  have a: "abs_follower (w_server w1) = snd (follower_step sample_entries (abs_follower (w_server ?w)))"
      "w_alive w1" "srv_inv (w_server w1)"
    using AppendEntriesQ_abs [OF calm.calm_store_axioms calm.network_axioms, of ?w 0 calm_conn sample_entries w1]
      calm_world_follower(2) sample_conditions w1(1) by (auto simp: calm_server_simps)
  have "abs_follower (w_server w1) = \<lparr>f_term = 4, f_role = Follower,
      f_log = [cfg_entry 4 (str ''a'') 1 1, cfg_entry 4 (str ''b'') 2 2], f_commit = 1\<rparr>"
    using a(1) step by simp
  then have reply: "fst (follower_step sample_entries (abs_follower (w_server w1))) = sample_reply"
      and len: "length (s_stEntries (w_server w1)) = 2"
    by (simp_all add: follower_step_def f_accepts_def f_terms_def f_commits_def sample_entries_def sample_reply_def
        appendentries_q_SharedCtor_def appendentries_r_SharedCtor_def Let_def)
      (simp add: abs_follower_def)
  obtain w2 where w2: "ModApi_AppendEntriesQ calm_env 0 sample_entries w1 = Inr w2"
    using calm_delivery [of w1 x1 sample_entries, OF w1(2-4) a(2,3)] sample_conditions sample_reply_fits reply len
    by auto
  have "f_accepts sample_entries (abs_follower (w_server ?w))"
    using calm_world_follower(1) by (simp add: f_accepts_def sample_entries_def appendentries_q_SharedCtor_def)
  with w1(1) w2 have "s_stEntries (w_server w2) = s_stEntries (w_server ?w)
      @ map (restamp (aq_term sample_entries)) (filter is_cfg (aq_entries sample_entries))
      @ map (restamp (aq_term sample_entries)) (filter is_cfg (aq_entries sample_entries))"
    using calm_world_follower(2) sample_conditions
    by (intro redelivery_duplicates [OF calm.calm_store_axioms calm.network_axioms, of ?w 0 calm_conn])
      (simp_all add: calm_server_simps sample_entries_def)
  with w1(1) w2 show ?thesis
    by (simp add: calm_server_simps sample_entries_def is_cfg_def restamp_def)
qed

text \<open>
  C34. A stale leader still raises the commit index. The code at \<open>sendreponse\<close> runs on
  every path, so a message of an older term is answered with \<open>success = false\<close> and the
  follower's newer term, its entries are not even looked at, and yet the commit index goes up
  to the smaller of the message's \<open>leadercommit\<close> and the index of its last entry, when both
  are above the present commit index: also to an index the follower has no entry for. On
  storage that works and away from the values at which 32-bit sums wrap.
\<close>

theorem stale_leader_commits:
  assumes "calm_store E" and "w_conns w c = Some x" and "w_alive w" and "srv_inv (w_server w)"
    and "length (s_stEntries (w_server w)) < 2 ^ 32 - 1"
    and "aq_prelogindex p + 2 \<noteq> 0" and "aq_prelogindex p \<noteq> - 1"
    and "list_all (\<lambda>e. 0 \<notin> set (en_host e)) (aq_entries p)"
    and "aq_term p < s_dwCurrentTerm (w_server w)"
    and "s_dwCommitIndex (w_server w) < aq_leadercommit p"
    and "s_dwCommitIndex (w_server w) < aq_prelogindex p + of_nat (length (aq_entries p))"
  shows "\<exists>w2 r. ModApi_AppendEntriesQ E c p w = send_frame E c 260 (M_appendentries_r r) w2
    \<and> \<not> ar_success r \<and> ar_term r = s_dwCurrentTerm (w_server w) \<and> w_conns w2 = w_conns w
    \<and> s_dwCommitIndex (w_server w2) = min (aq_leadercommit p) (aq_prelogindex p + of_nat (length (aq_entries p)))
    \<and> s_dwCommitIndex (w_server w) < s_dwCommitIndex (w_server w2)
    \<and> s_stEntries (w_server w2) = s_stEntries (w_server w)
    \<and> s_dwCurrentTerm (w_server w2) = s_dwCurrentTerm (w_server w)
    \<and> (\<forall>w'. ModApi_AppendEntriesQ E c p w = Inr w' \<longrightarrow> w_server w' = w_server w2)"
proof -
  let ?f = "follower_step p (abs_follower (w_server w))"
  obtain w2 where w2: "ModApi_AppendEntriesQ E c p w = send_frame E c 260 (M_appendentries_r (fst ?f)) w2"
      "w_conns w2 = w_conns w" "abs_follower (w_server w2) = snd ?f"
    using AppendEntriesQ_step [OF assms(1-8)] by blast
  have "snd ?f = abs_follower (w_server w)\<lparr>f_commit :=
      min (aq_leadercommit p) (aq_prelogindex p + of_nat (length (aq_entries p)))\<rparr>"
    "\<not> ar_success (fst ?f)" "ar_term (fst ?f) = s_dwCurrentTerm (w_server w)"
    using assms(9,10)
    by (auto simp: follower_step_def f_terms_def f_accepts_def f_commits_def abs_follower_def
        appendentries_r_SharedCtor_def Let_def)
  with w2 send_frame_server assms(10,11) show ?thesis
    by (intro exI [of _ w2] exI [of _ "fst ?f"]) (auto simp: abs_follower_def min_def)
qed

theorem stale_leader_commits_witness:
  "\<exists>w'. ModApi_AppendEntriesQ calm_env 0 sample_entries
       (calm_world\<lparr>w_server := calm_server\<lparr>s_dwCurrentTerm := 9\<rparr>\<rparr>) = Inr w'
     \<and> s_dwCommitIndex (w_server w') = 1 \<and> s_stEntries (w_server w') = []"
proof -
  let ?w = "calm_world\<lparr>w_server := calm_server\<lparr>s_dwCurrentTerm := 9\<rparr>\<rparr>"
  have inv: "srv_inv (w_server ?w)" by (simp add: srv_inv_def calm_server_simps)
  have "fst (follower_step sample_entries (abs_follower (w_server ?w))) =
      appendentries_r_SharedCtor\<lparr>ar_term := 9\<rparr>"
    by (simp add: follower_step_def f_terms_def f_accepts_def f_commits_def abs_follower_def sample_entries_def
        appendentries_q_SharedCtor_def appendentries_r_SharedCtor_def calm_server_simps Let_def)
  moreover have "length (frame leb_wire 260 (M_appendentries_r (appendentries_r_SharedCtor\<lparr>ar_term := 9\<rparr>))) \<le> BUFSIZE"
    by code_simp
  ultimately obtain w' where w': "ModApi_AppendEntriesQ calm_env 0 sample_entries ?w = Inr w'"
    using calm_delivery [of ?w calm_conn sample_entries] inv sample_conditions by (auto simp: calm_server_simps)
  have "aq_term sample_entries < 9" "aq_leadercommit sample_entries = 1"
    "aq_prelogindex sample_entries + of_nat (length (aq_entries sample_entries)) = 2"
    by (simp_all add: sample_entries_def appendentries_q_SharedCtor_def)
  with w' inv sample_conditions show ?thesis
    using stale_leader_commits [OF calm.calm_store_axioms, of ?w 0 calm_conn sample_entries]
    by (auto simp: calm_server_simps)
qed

end
