(* ===== verification/Net_Socket.thy ===== *)
theory Net_Socket
  imports Leveldb_Store
begin

text \<open>
  \<open>net/SocketWrapper\<close>: the constructor resolves an address and opens a listening or a
  connecting socket. The resolver and the results of the system calls are arguments; the
  calls are recorded in order. The loop over the addresses does not advance behind the second
  one, so it is a partial function: with one address it returns, with more it never does.
\<close>

section \<open>The environment\<close>

text \<open>An address as \<open>getaddrinfo\<close> returns it: the arguments of \<open>socket\<close> and the socket address.\<close>

record addrinfo =
  ai_family :: int
  ai_socktype :: int
  ai_protocol :: int
  ai_addr :: bytes

text \<open>The results of the calls made for the n-th address visited; the flags say whether a call succeeds.\<close>

record sock_results =
  sr_socket :: "nat \<Rightarrow> int"
  sr_reuseaddr :: "nat \<Rightarrow> bool"
  sr_nodelay :: "nat \<Rightarrow> bool"
  sr_bind :: "nat \<Rightarrow> bool"
  sr_listen :: "nat \<Rightarrow> bool"

datatype sock_effect =
    SocketCall int int int int      \<comment> \<open>family, type, protocol, the result\<close>
  | ReuseAddr int | NoDelay int
  | BindCall int bytes | ListenCall int int
  | CloseSocket int
  | FreeAddrInfo

record SocketWrapper =
  sk_iPort :: int
  sk_iType :: int
  sk_iFd :: int
  sk_bIsInit :: bool

definition CSOCKET :: int where "CSOCKET = 0"
definition SSOCKET :: int where "SSOCKET = 1"

section \<open>Opening a socket\<close>

text \<open>The calls of one iteration, each made only when those before it succeeded.\<close>

definition listen_calls :: "sock_results \<Rightarrow> nat \<Rightarrow> addrinfo \<Rightarrow> int \<Rightarrow> bool \<times> sock_effect list" where
  "listen_calls R k pstResult fd =
     (if fd = - 1 then (False, [])
      else if \<not> sr_reuseaddr R k then (False, [ReuseAddr fd])
      else if \<not> sr_nodelay R k then (False, [ReuseAddr fd, NoDelay fd])
      else if \<not> sr_bind R k then (False, [ReuseAddr fd, NoDelay fd, BindCall fd (ai_addr pstResult)])
      else (sr_listen R k, [ReuseAddr fd, NoDelay fd, BindCall fd (ai_addr pstResult), ListenCall fd 64]))"

definition connect_calls :: "sock_results \<Rightarrow> nat \<Rightarrow> addrinfo \<Rightarrow> int \<Rightarrow> bool \<times> sock_effect list" where
  "connect_calls R k pstResult fd =
     (if fd = - 1 then (False, [])
      else if \<not> sr_reuseaddr R k then (False, [ReuseAddr fd])
      else (sr_nodelay R k, [ReuseAddr fd, NoDelay fd]))"

type_synonym setup_calls = "sock_results \<Rightarrow> nat \<Rightarrow> addrinfo \<Rightarrow> int \<Rightarrow> bool \<times> sock_effect list"

definition try_address ::
  "setup_calls \<Rightarrow> sock_results \<Rightarrow> nat \<Rightarrow> addrinfo \<Rightarrow> addrinfo \<Rightarrow> SocketWrapper \<Rightarrow> SocketWrapper \<times> sock_effect list" where
  "try_address calls R k pstResult pstCurr s =
     (let fd = sr_socket R k;
          s = s\<lparr>sk_iFd := fd\<rparr>;
          eff = [SocketCall (ai_family pstCurr) (ai_socktype pstCurr) (ai_protocol pstCurr) fd];
          (ok, eff') = calls R k pstResult fd in
      if ok then (s\<lparr>sk_bIsInit := True\<rparr>, eff @ eff')
      else (s, eff @ eff' @ (if fd \<noteq> - 1 then [CloseSocket fd] else [])))"

text \<open>
  The list from \<open>pstCurr\<close> on; the step of the loop is \<open>pstCurr = pstResult->ai_next\<close>.
  \<open>None\<close>: the loop does not return.
\<close>

partial_function (option) address_loop ::
  "setup_calls \<Rightarrow> sock_results \<Rightarrow> addrinfo list \<Rightarrow> nat \<Rightarrow> addrinfo list \<Rightarrow> SocketWrapper \<Rightarrow> sock_effect list \<Rightarrow>
   (SocketWrapper \<times> sock_effect list) option" where
  "address_loop calls R pstResult k pstCurr s tr =
     (case pstCurr of
        [] \<Rightarrow> Some (s, tr)
      | cur # _ \<Rightarrow>
          (case try_address calls R k (hd pstResult) cur s of
             (s, eff) \<Rightarrow> address_loop calls R pstResult (k + 1) (tl pstResult) s (tr @ eff)))"

text \<open>\<open>snprintf(szPort, 6, "%d", iPort)\<close>: five characters and a zero byte.\<close>

definition szPort :: "int \<Rightarrow> bytes" where
  "szPort iPort = take 5 (to_string_int iPort)"

text \<open>The resolver is asked for passive addresses or not; \<open>None\<close> when it fails.\<close>

definition SocketWrapper_new ::
  "(bool \<Rightarrow> bytes option \<Rightarrow> bytes \<Rightarrow> addrinfo list option) \<Rightarrow> sock_results \<Rightarrow> int \<Rightarrow> int \<Rightarrow> bytes option \<Rightarrow>
   (SocketWrapper \<times> sock_effect list) option" where
  "SocketWrapper_new getaddrinfo R iSocketType iPort szAddress =
     (let s = \<lparr>sk_iPort = iPort, sk_iType = iSocketType, sk_iFd = - 1, sk_bIsInit = False\<rparr> in
      if iSocketType = SSOCKET then
        (case getaddrinfo True szAddress (szPort iPort) of
           None \<Rightarrow> Some (s, [])
         | Some pstResult \<Rightarrow>
             map_option (\<lambda>(s, tr). (s, tr @ (if pstResult \<noteq> [] then [FreeAddrInfo] else [])))
               (address_loop listen_calls R pstResult 0 pstResult s []))
      else if iSocketType = CSOCKET then
        (case getaddrinfo False szAddress (szPort iPort) of
           None \<Rightarrow> Some (s, [])
         | Some pstResult \<Rightarrow>
             map_option (\<lambda>(s, tr). (s, tr @ (if pstResult \<noteq> [] then [FreeAddrInfo] else [])))
               (address_loop connect_calls R pstResult 0 pstResult s []))
      else Some (s, []))"

definition SocketWrapper_destroy :: "SocketWrapper \<Rightarrow> sock_effect list" where
  "SocketWrapper_destroy s = (if sk_iFd s \<noteq> - 1 then [CloseSocket (sk_iFd s)] else [])"

lemmas socket_types = CSOCKET_def SSOCKET_def

section \<open>How the loop ends\<close>

lemma address_loop_one:
  "address_loop calls R [a] 0 [a] s [] = Some (try_address calls R 0 a a s)"
  by (simp add: address_loop.simps split: prod.split)

text \<open>Once behind the first of several addresses, every step leads to the second one again.\<close>

lemma address_loop_stuck: "address_loop calls R (a # b # as) k (b # as) s tr = None"
proof -
  have "pstResult = a # b # as \<longrightarrow> pstCurr \<noteq> b # as"
    if "address_loop calls R pstResult k pstCurr s tr = Some y" for pstResult pstCurr y
  proof (rule address_loop.raw_induct [OF _ that], intro impI notI)
    fix loop calls R pstResult k pstCurr s tr y
    assume IH: "\<And>calls R pstResult k pstCurr s tr y. loop calls R pstResult k pstCurr s tr = Some y \<Longrightarrow>
        pstResult = a # b # as \<longrightarrow> pstCurr \<noteq> b # as"
      and step: "(case pstCurr of [] \<Rightarrow> Some (s, tr)
        | cur # _ \<Rightarrow> (case try_address calls R k (hd pstResult) cur s of
            (s, eff) \<Rightarrow> loop calls R pstResult (k + 1) (tl pstResult) s (tr @ eff))) = Some y"
      and "pstResult = a # b # as" "pstCurr = b # as"
    then show False by (auto split: prod.splits dest: IH)
  qed
  then show ?thesis by (cases "address_loop calls R (a # b # as) k (b # as) s tr") auto
qed

text \<open>With one address: the descriptor is the socket's, closed iff one of the calls on it failed.\<close>

lemma socket_single_close:
  assumes "getaddrinfo True szAddress (szPort iPort) = Some [a]" and "sr_socket R 0 \<noteq> - 1"
  shows "\<exists>s tr. SocketWrapper_new getaddrinfo R SSOCKET iPort szAddress = Some (s, tr) \<and> sk_iFd s = sr_socket R 0
    \<and> (CloseSocket (sr_socket R 0) \<in> set tr \<longleftrightarrow>
        \<not> (sr_reuseaddr R 0 \<and> sr_nodelay R 0 \<and> sr_bind R 0 \<and> sr_listen R 0))"
  using assms
  by (auto simp: SocketWrapper_new_def socket_types address_loop_one try_address_def listen_calls_def Let_def)

text \<open>
  C24. A socket is opened when the address resolves to one address, and only then does the constructor
  return at all: for a second address \<open>pstCurr = pstResult->ai_next\<close> never moves on, and
  every round of the loop opens one more socket. With one address the socket is
  initialised iff the calls all succeed, and then it is the one that was opened.
\<close>

theorem socket_opens_single_address:
  assumes "getaddrinfo True szAddress (szPort iPort) = Some (a # as)"
  shows "(as \<noteq> [] \<longrightarrow> SocketWrapper_new getaddrinfo R SSOCKET iPort szAddress = None)
    \<and> (as = [] \<longrightarrow> (\<exists>s tr. SocketWrapper_new getaddrinfo R SSOCKET iPort szAddress = Some (s, tr)
          \<and> sk_iFd s = sr_socket R 0
          \<and> (sk_bIsInit s \<longleftrightarrow> sr_socket R 0 \<noteq> - 1 \<and> sr_reuseaddr R 0 \<and> sr_nodelay R 0 \<and> sr_bind R 0 \<and> sr_listen R 0)
          \<and> (sk_bIsInit s \<longrightarrow> CloseSocket (sk_iFd s) \<notin> set tr)))"
proof (cases as)
  case Nil
  then show ?thesis
    using assms by (auto simp: SocketWrapper_new_def socket_types address_loop_one try_address_def listen_calls_def Let_def)
next
  case (Cons b bs)
  obtain s tr where "try_address listen_calls R 0 a a \<lparr>sk_iPort = iPort, sk_iType = SSOCKET, sk_iFd = - 1, sk_bIsInit = False\<rparr> = (s, tr)"
    by fastforce
  then show ?thesis
    using assms Cons address_loop_stuck [of listen_calls R a b bs 1 s tr]
    by (simp add: SocketWrapper_new_def address_loop.simps [of listen_calls R _ 0] Let_def)
qed

text \<open>A resolver of one loopback address, or of two, and calls that succeed.\<close>

definition one_address :: "bool \<Rightarrow> bytes option \<Rightarrow> bytes \<Rightarrow> addrinfo list option" where
  "one_address passive host port = Some [\<lparr>ai_family = 2, ai_socktype = 1, ai_protocol = 6, ai_addr = port\<rparr>]"

definition calls_succeed :: sock_results where
  "calls_succeed = \<lparr>sr_socket = (\<lambda>k. 5), sr_reuseaddr = (\<lambda>k. True), sr_nodelay = (\<lambda>k. True),
     sr_bind = (\<lambda>k. True), sr_listen = (\<lambda>k. True)\<rparr>"

theorem socket_opens_single_address_witness:
  "\<exists>s tr. SocketWrapper_new one_address calls_succeed SSOCKET 7777 None = Some (s, tr) \<and> sk_bIsInit s \<and> sk_iFd s = 5"
  using socket_opens_single_address [of one_address None 7777, OF one_address_def, of calls_succeed]
  by (auto simp: calls_succeed_def)

text \<open>
  A socket whose set-up fails is closed in the constructor and, as the descriptor is kept,
  again in the destructor, when another file may have that number.
\<close>

lemma failed_socket_closed_twice:
  assumes "getaddrinfo True szAddress (szPort iPort) = Some [a]" and "sr_socket R 0 \<noteq> - 1" and "\<not> sr_bind R 0"
  shows "\<exists>s tr. SocketWrapper_new getaddrinfo R SSOCKET iPort szAddress = Some (s, tr)
    \<and> CloseSocket (sr_socket R 0) \<in> set tr \<and> SocketWrapper_destroy s = [CloseSocket (sr_socket R 0)]"
  using assms
  by (auto simp: SocketWrapper_new_def socket_types address_loop_one try_address_def listen_calls_def
      SocketWrapper_destroy_def Let_def)

text \<open>A port is handed on as it is, up to five digits.\<close>

lemma szPort_exact: "0 \<le> iPort \<Longrightarrow> iPort < 65536 \<Longrightarrow> szPort iPort = to_string (nat iPort)"
  using length_to_string [of "nat iPort" 5] by (simp add: szPort_def to_string_int_def)

end
