(* ===== verification/Raft_Boot.thy ===== *)
theory Raft_Boot
  imports Raft_System Raft_Replication Net_Socket
begin

text \<open>
  Start-up: what \<open>main\<close> sets up for its commands, and the descriptor that the constructor of
  \<open>RaftServer\<close> takes from \<open>SocketWrapper\<close> without a look at \<open>IsInit\<close>.
\<close>

section \<open>The command \<open>start\<close>\<close>

lemma start_host: "0 \<notin> set (str ''192.168.1.46'')"
  by (simp add: str_def of_char_def)

lemma Run_server:
  "s_stRole (w_server (RaftServer_Run fd ok w)) = s_stRole (w_server w)"
  "s_stEntries (w_server (RaftServer_Run fd ok w)) = s_stEntries (w_server w)"
  "s_stProxys (w_server (RaftServer_Run fd ok w)) = s_stProxys (w_server w)"
  "s_dwCurrentTerm (w_server (RaftServer_Run fd ok w)) = s_dwCurrentTerm (w_server w)"
  by (simp_all add: RaftServer_Run_def assign_timer_def put_timer_def upd_server_def emit_def Let_def
      split: prod.split option.split)

lemma Run_listens:
  assumes "s_pstServerChannel (w_server w) = Channel_new lfd True True"
  shows "\<exists>pre. w_trace (RaftServer_Run fd ok w) = pre @ [EpollCtl EPOLL_CTL_ADD lfd s_iReadEvent]"
    "ch_iFd (s_pstServerChannel (w_server (RaftServer_Run fd ok w))) = lfd"
  using assms
  by (simp_all add: RaftServer_Run_def assign_timer_def put_timer_def upd_server_def emit_def Let_def Channel_EnableRead_def
      Channel_UpdateToEventLoop_def EventLoop_UpdateChannel_def EPoller_UpdateChannel_def EPoller_UpdateToEpoll_def
      Channel_new_def iIsNew_def split: prod.split option.split)

lemma main_start_leads:
  assumes "calm_store E" and "b_pstStateDB b = Some sdb" and "b_pstEntriesDB b = Some edb"
  shows "\<exists>w. main_start E b n p = Inr w \<and> s_stRole (w_server w) = Leader \<and> s_stProxys (w_server w) = []
    \<and> s_dwCurrentTerm (w_server w) = 0 \<and> s_stEntries (w_server w) = [cfg_entry 0 (str ''192.168.1.46'') p n]
    \<and> (\<exists>pre. w_trace w = pre @ [EpollCtl EPOLL_CTL_ADD (b_iServerFd b) s_iReadEvent])
    \<and> ch_iFd (s_pstServerChannel (w_server w)) = b_iServerFd b"
proof -
  obtain s where s: "RaftServer_new (b_iServerFd b) (b_pstStateDB b) (b_pstEntriesDB b) = Inr s"
      "s_stProxys s = []" "s_stEntries s = []" "s_dwCurrentTerm s = 0" "srv_inv s"
      "s_pstServerChannel s = Channel_new (b_iServerFd b) True True"
    using assms(2,3) by (simp add: RaftServer_new_def srv_inv_def)
  let ?s = "s\<lparr>s_stRole := Leader\<rparr>"
  have lead: "RaftServer_BecomeLeader E (new_world s) = Inr ((new_world s)\<lparr>w_server := ?s\<rparr>)"
    by (simp add: RaftServer_BecomeLeader_def for_proxies_def upd_server_def new_world_def s(2))
  obtain r where r: "e_after E (s_nAllocs ?s) = 0 # r" using calm_store.after [OF assms(1)] by blast
  obtain s1 where s1: "RaftServer_AppendCfgLog E (str ''192.168.1.46'') p n ?s = Inr s1"
      "s_stEntries s1 = [cfg_entry 0 (str ''192.168.1.46'') p n]" "s_dwCurrentTerm s1 = 0"
    using AppendCfgLog_calm [OF calm_store.nul_free [OF assms(1)] start_host r calm_store.put_ok [OF assms(1)], of p n]
      s(3,4) by auto
  have "s_stRole s1 = Leader" "s_stProxys s1 = []" "s_pstServerChannel s1 = Channel_new (b_iServerFd b) True True"
    using s1(1) s(2,6) by (auto elim!: AppendCfgLog_cases)
  with s(1) lead s1 show ?thesis by (simp add: main_start_def Run_server Run_listens)
qed

text \<open>
  C26. The command \<open>start\<close> sets up a leader. With working databases and two numbers as
  arguments, \<open>main\<close> enters the event loop as the leader of term 0, with no proxy, and with
  one log entry that adds the node itself.
\<close>

theorem start_leads:
  assumes "calm_store E" and "b_pstStateDB b = Some sdb" and "b_pstEntriesDB b = Some edb"
    and "atoi node = Inr iNodeID" and "atoi port = Inr iRaftPort" and "iRaftPort \<noteq> - 1"
  shows "\<exists>w. main E b [prog, str ''start'', node, port] = Inr (Some w) \<and> reachable E w
    \<and> s_stRole (w_server w) = Leader \<and> s_stProxys (w_server w) = [] \<and> s_dwCurrentTerm (w_server w) = 0
    \<and> s_stEntries (w_server w) = [cfg_entry 0 (str ''192.168.1.46'') iRaftPort iNodeID]"
proof -
  obtain w where w: "main_start E b iNodeID iRaftPort = Inr w" "s_stRole (w_server w) = Leader"
      "s_stProxys (w_server w) = []" "s_dwCurrentTerm (w_server w) = 0"
      "s_stEntries (w_server w) = [cfg_entry 0 (str ''192.168.1.46'') iRaftPort iNodeID]"
    using main_start_leads [OF assms(1-3)] by blast
  then have "main E b [prog, str ''start'', node, port] = Inr (Some w)"
    using assms(4-6) by (simp add: main_def argv_at_def Let_def)
  with w show ?thesis by (auto intro: reachable.boot)
qed

definition calm_boot :: "(bytes \<times> bytes) list boot" where
  "calm_boot = \<lparr>b_iServerFd = 3, b_iClientFd = 4, b_iTimerFd = 5, b_settime_ok = True, b_connect = InProgress,
     b_pstStateDB = Some [], b_pstEntriesDB = Some []\<rparr>"

theorem start_leads_witness:
  "\<exists>w. main calm_env calm_boot [[], str ''start'', str ''1'', str ''80''] = Inr (Some w) \<and> reachable calm_env w
    \<and> s_stEntries (w_server w) = [cfg_entry 0 (str ''192.168.1.46'') 80 1]"
proof -
  have "atoi (str ''80'') = Inr 80" "atoi (str ''1'') = Inr 1" by code_simp+
  with start_leads [OF calm.calm_store_axioms, of calm_boot "[]" "[]" "str ''1''" 1 "str ''80''" 80 "[]"] show ?thesis
    by (auto simp: calm_boot_def)
qed

text \<open>
  The command \<open>restart\<close> recovers the log and then ends: whatever the databases hold,
  \<open>main\<close> never enters the event loop, so a restarted node serves nobody.
\<close>

lemma restart_never_serves: "main E b (prog # str ''restart'' # args) \<noteq> Inr (Some w)"
  by (simp add: main_def argv_at_def rbind_Inr_iff str_def of_char_def)

lemma calm_start:
  "\<exists>w. main calm_env calm_boot [[], str ''start'', str ''1'', str ''80''] = Inr (Some w)
    \<and> s_stRole (w_server w) = Leader \<and> s_stEntries (w_server w) = [cfg_entry 0 (str ''192.168.1.46'') 80 1]"
proof -
  have "atoi (str ''80'') = Inr 80" "atoi (str ''1'') = Inr 1" by code_simp+
  with main_start_leads [OF calm.calm_store_axioms, of calm_boot "[]" "[]" 1 80] show ?thesis
    by (auto simp: main_def argv_at_def Let_def calm_boot_def)
qed

lemma calm_reachable: "\<exists>w. reachable calm_env w \<and> s_stRole (w_server w) = Leader"
  using calm_start reachable.boot by blast

section \<open>The listening socket\<close>

text \<open>
  The command \<open>start\<close> with the listening socket that the constructor of \<open>RaftServer\<close> opens. \<open>None\<close>: the
  constructor of the socket does not return.
\<close>

definition start_server ::
  "(bool \<Rightarrow> bytes option \<Rightarrow> bytes \<Rightarrow> addrinfo list option) \<Rightarrow> sock_results \<Rightarrow> 'db env \<Rightarrow> 'db boot \<Rightarrow> int \<Rightarrow> int \<Rightarrow>
   (sock_effect list \<times> 'db world res) option" where
  "start_server getaddrinfo R E b iNodeID iRaftPort =
     map_option (\<lambda>(sk, tr). (tr, main_start E (b\<lparr>b_iServerFd := sk_iFd sk\<rparr>) iNodeID iRaftPort))
       (SocketWrapper_new getaddrinfo R SSOCKET iRaftPort (Some (str ''192.168.1.46'')))"

text \<open>
  C27. A server that cannot listen starts all the same. When the address resolves and a socket is opened, \<open>start\<close>
  enters the event loop as the leader and registers that descriptor with epoll, whether the set-up of the socket
  succeeded or not; after a failure (say the port is taken) the constructor of \<open>SocketWrapper\<close> has already
  closed the descriptor, so the leader polls a closed one and no node can ever join it.
\<close>

theorem start_ignores_socket_errors:
  assumes "calm_store E" and "b_pstStateDB b = Some sdb" and "b_pstEntriesDB b = Some edb"
    and "getaddrinfo True (Some (str ''192.168.1.46'')) (szPort iRaftPort) = Some [a]" and "sr_socket R 0 \<noteq> - 1"
  shows "\<exists>tr w pre. start_server getaddrinfo R E b iNodeID iRaftPort = Some (tr, Inr w)
    \<and> s_stRole (w_server w) = Leader \<and> w_trace w = pre @ [EpollCtl EPOLL_CTL_ADD (sr_socket R 0) s_iReadEvent]
    \<and> (CloseSocket (sr_socket R 0) \<in> set tr \<longleftrightarrow> \<not> (sr_reuseaddr R 0 \<and> sr_nodelay R 0 \<and> sr_bind R 0 \<and> sr_listen R 0))"
proof -
  obtain sk tr where sk: "SocketWrapper_new getaddrinfo R SSOCKET iRaftPort (Some (str ''192.168.1.46'')) = Some (sk, tr)"
      "sk_iFd sk = sr_socket R 0"
      "CloseSocket (sr_socket R 0) \<in> set tr \<longleftrightarrow> \<not> (sr_reuseaddr R 0 \<and> sr_nodelay R 0 \<and> sr_bind R 0 \<and> sr_listen R 0)"
    using socket_single_close [of getaddrinfo "Some (str ''192.168.1.46'')" iRaftPort a R, OF assms(4,5)] by blast
  obtain w pre where "main_start E (b\<lparr>b_iServerFd := sk_iFd sk\<rparr>) iNodeID iRaftPort = Inr w"
      "s_stRole (w_server w) = Leader" "w_trace w = pre @ [EpollCtl EPOLL_CTL_ADD (sk_iFd sk) s_iReadEvent]"
    using main_start_leads [OF assms(1), of "b\<lparr>b_iServerFd := sk_iFd sk\<rparr>" sdb edb iNodeID iRaftPort] assms(2,3) by auto
  with sk show ?thesis by (auto simp: start_server_def)
qed

theorem start_ignores_socket_errors_witness:
  "\<exists>tr w. start_server one_address (calls_succeed\<lparr>sr_bind := \<lambda>k. False\<rparr>) calm_env calm_boot 1 80 = Some (tr, Inr w)
    \<and> s_stRole (w_server w) = Leader \<and> CloseSocket 5 \<in> set tr
    \<and> last (w_trace w) = EpollCtl EPOLL_CTL_ADD 5 s_iReadEvent"
  using start_ignores_socket_errors [OF calm.calm_store_axioms, of calm_boot "[]" "[]" one_address 80 _
      "calls_succeed\<lparr>sr_bind := \<lambda>k. False\<rparr>" 1, OF _ _ one_address_def]
  by (auto simp: calm_boot_def calls_succeed_def)

end
