(* ===== verification/Raft_Leader.thy ===== *)
theory Raft_Leader
  imports Raft_Replication
begin

text \<open>
  The leader: the message it builds for a proxy, one round of replication, what an
  acknowledgement does, and the invariant of the exchange.
\<close>

section \<open>The leader's message\<close>

text \<open>
  For a proxy whose next index is its match index plus 1, with the match index \<open>k\<close>: the
  entries are the one at \<open>k + 1\<close>, preceded by entry 0 the first time, or none.
\<close>

definition next_entries :: "nat \<Rightarrow> entry list \<Rightarrow> entry list" where
  "next_entries k es =
     (if k + 1 < length es then (if k = 0 then [es ! 0, es ! 1] else [es ! (k + 1)]) else [])"

definition term_at :: "nat \<Rightarrow> entry list \<Rightarrow> u32" where
  "term_at k es = (if k < length es \<and> en_term (es ! k) \<noteq> - 1 then en_term (es ! k) else 0)"

lemma build_appendentries_eq:
  assumes p: "p_ulNextIndex p = p_ulMatchIndex p + 1" and k: "unat (p_ulMatchIndex p) = k"
    and kb: "k < 2 ^ 31" and nb: "length (s_stEntries s) < 2 ^ 31"
  shows "build_appendentries s p = Inr (appendentries_q_SharedCtor\<lparr>aq_term := s_dwCurrentTerm s,
    aq_prelogindex := of_nat k, aq_prelogterm := term_at k (s_stEntries s),
    aq_leadercommit := s_dwCommitIndex s, aq_entries := next_entries k (s_stEntries s)\<rparr>)"
proof -
  let ?es = "s_stEntries s"
  have m: "p_ulMatchIndex p = of_nat k" by (simp add: k [symmetric])
  have n64: "unat (of_nat k + 1 :: u64) = k + 1" using kb by (simp add: unat_word_ariths unat_of_nat)
  have idx: "unat (of_nat j :: u32) = j" if "j \<le> 2 ^ 31" for j
    using that by (simp add: unat_of_nat)
  have prev: "(ucast (p_ulNextIndex p - 1) :: u32) = of_nat k" using kb by (simp add: p m ucast_of_nat_u32)
  have nxt: "(ucast (p_ulNextIndex p) :: u32) = of_nat (k + 1)"
    using ucast_of_nat_u32 [of "k + 1"] kb by (simp add: p m add.commute)
  have zero: "p_ulNextIndex p - 1 = 0 \<longleftrightarrow> k = 0" using k by (simp add: p unat_eq_0 [symmetric])
  have more: "RaftServer_LastEntryIndex s \<ge> p_ulNextIndex p \<longleftrightarrow> k + 1 < length ?es"
  proof (cases "?es = []")
    case True
    then show ?thesis using n64 by (simp add: RaftServer_LastEntryIndex_def p m word_le_nat_alt)
  next
    case False
    then have "unat (of_nat (length ?es) - 1 :: u64) = length ?es - 1"
      using nb unat_of_nat_u64 [of "length ?es - 1"] by (simp add: Suc_leI)
    then show ?thesis using False n64 by (auto simp: RaftServer_LastEntryIndex_def p m word_le_nat_alt)
  qed
  have trm: "RaftServer_EntryTermByIndex (of_nat k) s =
      Inr (if k < length ?es then sint (en_term (?es ! k)) else - 1)"
  proof -
    have "unat (of_nat k + 1 :: u32) = k + 1" using kb by (simp add: unat_word_ariths unat_of_nat)
    with idx [of k] kb show ?thesis by (simp add: RaftServer_EntryTermByIndex_def)
  qed
  have "RaftServer_EntryByIndex (of_nat j) e s = Inr (?es ! j)" if "j < length ?es" for j e
    using that idx [of j] nb by (simp add: RaftServer_EntryByIndex_def CopyFrom_eq)
  note at = this
  show ?thesis
    unfolding build_appendentries_def Let_def prev nxt zero more trm
    using at [of 0] at [of "k + 1"]
    by (auto simp: next_entries_def term_at_def sint_minus1 appendentries_q_SharedCtor_def)
qed

section \<open>One round of replication\<close>

text \<open>
  An entry as the leader writes it in term \<open>t\<close>: an addition whose host is a C string. The
  term \<open>0xffffffff\<close> is excluded, because as an \<open>int\<close> it is the code for ``no entry''.
\<close>

definition own_entry :: "u32 \<Rightarrow> entry \<Rightarrow> bool" where
  "own_entry t e \<longleftrightarrow> restamp t e = e \<and> is_cfg e \<and> 0 \<notin> set (en_host e) \<and> en_term e = t \<and> t \<noteq> - 1"

lemma own_cfg_entry: "0 \<notin> set h \<Longrightarrow> t \<noteq> - 1 \<Longrightarrow> own_entry t (cfg_entry t h pt n)"
  by (simp add: own_entry_def restamp_def is_cfg_def cfg_entry_def entry_SharedCtor_def)

text \<open>What a follower holds when the leader's match index for it is \<open>k\<close>.\<close>

definition in_step :: "nat \<Rightarrow> entry list \<Rightarrow> entry list \<Rightarrow> bool" where
  "in_step k es log \<longleftrightarrow> log = (if k = 0 then [] else take (k + 1) es)"

lemma next_entries_own:
  assumes "list_all (own_entry t) es"
  shows "list_all (own_entry t) (next_entries k es)"
proof -
  have own: "own_entry t (es ! j)" if "j < length es" for j using assms that by (simp add: list_all_length)
  from own [of 0] own [of "k + 1"] show ?thesis by (cases es) (auto simp: next_entries_def)
qed

lemma own_restamp:
  assumes "list_all (own_entry t) xs"
  shows "map (restamp t) (filter is_cfg xs) = xs"
  using assms by (induction xs) (auto simp: own_entry_def)

lemma in_step_next:
  assumes "in_step k es log" and "k + 1 < length es"
  shows "in_step (k + 1) es (log @ next_entries k es)"
proof (cases "k = 0")
  case True
  with assms have "2 \<le> length es" by simp
  then have "take 2 es = [es ! 0, es ! 1]" by (cases es; cases "tl es") auto
  with True assms show ?thesis by (simp add: in_step_def next_entries_def numeral_2_eq_2)
next
  case False
  with assms show ?thesis by (simp add: in_step_def next_entries_def take_Suc_conv_app_nth)
qed

text \<open>The match index behind the answer, and the answer; without a new entry both belong to a heartbeat.\<close>

definition next_match :: "nat \<Rightarrow> entry list \<Rightarrow> nat" where
  "next_match k es = (if k + 1 < length es then k + 1 else k)"

definition reply :: "u32 \<Rightarrow> nat \<Rightarrow> entry list \<Rightarrow> appendentries_r" where
  "reply t k es = appendentries_r_SharedCtor\<lparr>ar_term := t, ar_success := True,
     ar_isheartbeat := (next_entries k es = [])\<rparr>"

lemma in_step_next_match: "in_step k es log \<Longrightarrow> in_step (next_match k es) es (log @ next_entries k es)"
  using in_step_next [of k es log] by (auto simp: next_match_def) (simp add: next_entries_def)


text \<open>What the follower makes of the leader's commit index.\<close>

definition next_commit :: "nat \<Rightarrow> entry list \<Rightarrow> u32 \<Rightarrow> u32 \<Rightarrow> u32" where
  "next_commit k es lc fc = (if fc < lc then min lc (of_nat (k + length (next_entries k es))) else fc)"

lemma exchange_step:
  assumes p: "p_ulNextIndex p = p_ulMatchIndex p + 1" "unat (p_ulMatchIndex p) = k"
    and own: "list_all (own_entry (s_dwCurrentTerm s)) (s_stEntries s)"
    and b: "length (s_stEntries s) < 2 ^ 31" "k < length (s_stEntries s) \<or> k = 0"
    and f: "f_term f \<le> s_dwCurrentTerm s" "in_step k (s_stEntries s) (f_log f)"
  shows "\<exists>m. build_appendentries s p = Inr m \<and> aq_prelogindex m = of_nat k \<and> aq_term m = s_dwCurrentTerm s
    \<and> aq_entries m = next_entries k (s_stEntries s) \<and> f_accepts m f
    \<and> f_log (snd (follower_step m f)) = f_log f @ next_entries k (s_stEntries s)
    \<and> f_term (snd (follower_step m f)) = s_dwCurrentTerm s
    \<and> f_commit (snd (follower_step m f)) = next_commit k (s_stEntries s) (s_dwCommitIndex s) (f_commit f)
    \<and> fst (follower_step m f) = appendentries_r_SharedCtor\<lparr>ar_term := s_dwCurrentTerm s, ar_success := True,
        ar_isheartbeat := (next_entries k (s_stEntries s) = [])\<rparr>"
proof -
  let ?es = "s_stEntries s" and ?t = "s_dwCurrentTerm s"
  have kb: "k < 2 ^ 31" using b by auto
  let ?m = "appendentries_q_SharedCtor\<lparr>aq_term := ?t, aq_prelogindex := of_nat k,
    aq_prelogterm := term_at k ?es, aq_leadercommit := s_dwCommitIndex s, aq_entries := next_entries k ?es\<rparr>"
  have acc: "f_accepts ?m f"
  proof (cases "k = 0")
    case False
    then have k: "k < length ?es" using b(2) by simp
    then have e: "own_entry ?t (?es ! k)" using own by (simp add: list_all_length)
    have "f_log f ! k = ?es ! k" "k < length (f_log f)" using f(2) False k by (simp_all add: in_step_def)
    with e k kb f(1) show ?thesis by (simp add: f_accepts_def term_at_def own_entry_def unat_of_nat_u32)
  qed (use f in \<open>simp add: f_accepts_def\<close>)
  have "f_term (f_terms ?m f) = ?t" "f_log (f_terms ?m f) = f_log f" "f_commit (f_terms ?m f) = f_commit f"
    using f(1) by (auto simp: f_terms_def)
  with acc own_restamp [OF next_entries_own [OF own]] build_appendentries_eq [OF p kb b(1)] show ?thesis
    by (auto simp: follower_step_def f_commits_def next_commit_def Let_def)
qed

section \<open>Acknowledgements\<close>

text \<open>No proxy is credited with more than the log holds.\<close>

definition acks_bounded :: "'db RaftServer \<Rightarrow> bool" where
  "acks_bounded s \<longleftrightarrow> (\<forall>k p. om_find k (s_stProxys s) = Some (Some p) \<longrightarrow>
     unat (p_ulMatchIndex p) < length (s_stEntries s))"

lemma ChangeCommitIndex_total:
  assumes inv: "srv_inv s" and b: "acks_bounded s"
  shows "\<exists>b i. RaftServer_ChangeCommitIndex s = Inr (b, s\<lparr>s_dwCommitIndex := i\<rparr>)"
proof -
  let ?n = "s_dwCommitIndex s + 1"
  have "unat ?n < length (s_stEntries s)" if a: "0 < acks (ucast ?n) (s_stProxys s)"
  proof -
    from a obtain k p where kp: "(k, Some p) \<in> set (s_stProxys s)" "ucast ?n \<le> p_ulMatchIndex p"
      unfolding acks_def by (auto simp: filter_empty_conv split: option.splits)
    then have "om_find k (s_stProxys s) = Some (Some p)"
      using inv om.elements_find [of "s_stProxys s" k "Some p"] by (simp add: srv_inv_def)
    then have "unat (p_ulMatchIndex p) < length (s_stEntries s)" using b by (simp add: acks_bounded_def)
    moreover have "unat (ucast ?n :: u64) = unat ?n" by (rule unat_ucast_u64)
    ultimately show ?thesis using kp(2) by (simp add: word_le_nat_alt)
  qed
  then have "RaftServer_ChangeCommitIndex s = Inr (True, s\<lparr>s_dwCommitIndex := ?n\<rparr>)
      \<or> RaftServer_ChangeCommitIndex s = Inr (False, s\<lparr>s_dwCommitIndex := s_dwCommitIndex s\<rparr>)"
    using count_proxies_acks [OF inv, of "ucast ?n"]
    by (auto simp: RaftServer_ChangeCommitIndex_def RaftServer_ProxysNum_def Let_def)
  then show ?thesis by blast
qed

definition credit :: "RaftProxy \<Rightarrow> RaftProxy" where
  "credit p = p\<lparr>p_ulMatchIndex := p_ulMatchIndex p + 1, p_ulNextIndex := p_ulNextIndex p + 1\<rparr>"

lemma AppendEntriesR_ack:
  assumes "w_conns w c = Some x" and "w_alive w" and "cn_pstProxy x = Some k"
    and "om_find k (s_stProxys (w_server w)) = Some (Some p)"
    and "ar_term r \<le> s_dwCurrentTerm (w_server w)" and "ar_success r" and "\<not> ar_isheartbeat r"
  shows "ModApi_AppendEntriesR E c r w =
    rbind (RaftServer_ChangeCommitIndex ((w_server w)\<lparr>s_stProxys :=
        om_assign k (Some (credit p)) (s_stProxys (w_server w))\<rparr>)) (\<lambda>(b, s). Inr (w\<lparr>w_server := s\<rparr>))"
proof -
  show ?thesis
    using assms
    by (cases "RaftServer_ChangeCommitIndex ((w_server w)\<lparr>s_stProxys :=
        om_assign k (Some (credit p)) (s_stProxys (w_server w))\<rparr>)")
      (auto simp: ModApi_AppendEntriesR_def conn_lock_def Conn_Server_CurrentTerm_def ask_server_def not_less
        Conn_Proxy_IncrMatchIndex_def Conn_Proxy_IncrNextIndex_def Conn_Proxy_def with_conn_def upd_server_def
        proxy_update_def Conn_Server_ChangeCommitIndex_def credit_def)
qed

text \<open>An assignment to a key that is there replaces its element in place.\<close>

lemma om_assign_split:
  assumes "om_ok m" and "om_find k m = Some v"
  shows "\<exists>a b. m = a @ (k, v) # b \<and> om_assign k v' m = a @ (k, v') # b"
  using assms
proof (induction k v' m rule: om_assign.induct)
  case (2 k v' k1 v1 m)
  show ?case
  proof (cases "k = k1")
    case True
    with "2.prems" show ?thesis by (intro exI [of _ "[]"] exI [of _ m]) simp
  next
    case False
    with "2.prems" have f: "om_find k m = Some v" "om_ok m" by (simp_all add: om_ok_Cons)
    then have "k1 < k" using "2.prems"(1) om_find_None_iff [of k m] by (auto simp: om_ok_Cons)
    then obtain a b where "m = a @ (k, v) # b" "om_assign k v' m = a @ (k, v') # b"
      using "2.IH" [OF _ False f(2,1)] by (meson not_less_iff_gr_or_eq)
    with \<open>k1 < k\<close> show ?thesis by (intro exI [of _ "(k1, v1) # a"] exI [of _ b]) auto
  qed
qed simp

lemma om_assign_same: "om_ok m \<Longrightarrow> om_find k m = Some v \<Longrightarrow> om_assign k v m = m"
  using om_assign_split [of m k v v] by auto

lemma om_assign_keys: "om_ok m \<Longrightarrow> om_find k m = Some v \<Longrightarrow> map fst (om_assign k v' m) = map fst m"
  using om_assign_split [of m k v v'] by auto

section \<open>A round between two servers\<close>

definition leader_ready :: "nat \<Rightarrow> nat \<Rightarrow> u32 \<Rightarrow> 'db world \<Rightarrow> bool" where
  "leader_ready k c i w \<longleftrightarrow> w_alive w \<and> srv_inv (w_server w) \<and> acks_bounded (w_server w)
     \<and> length (s_stEntries (w_server w)) < 2 ^ 31
     \<and> list_all (own_entry (s_dwCurrentTerm (w_server w))) (s_stEntries (w_server w))
     \<and> (\<exists>x. w_conns w c = Some x \<and> cn_pstProxy x = Some i)
     \<and> (\<exists>p. om_find i (s_stProxys (w_server w)) = Some (Some p) \<and> unat (p_ulMatchIndex p) = k)"

definition follower_ready :: "nat \<Rightarrow> u32 \<Rightarrow> entry list \<Rightarrow> 'db world \<Rightarrow> bool" where
  "follower_ready k t es w \<longleftrightarrow> w_alive w \<and> srv_inv (w_server w) \<and> s_dwCurrentTerm (w_server w) \<le> t
     \<and> in_step k es (s_stEntries (w_server w))"

text \<open>
  The answer to a message with entries credits the proxy, the answer to a heartbeat does not; both ask for
  the commit index.
\<close>

definition credited :: "nat \<Rightarrow> entry list \<Rightarrow> u32 \<Rightarrow> RaftProxy \<Rightarrow> 'db RaftServer \<Rightarrow> 'db RaftServer" where
  "credited k es i p s =
     s\<lparr>s_stProxys := om_assign i (Some (if k + 1 < length es then credit p else p)) (s_stProxys s)\<rparr>"

lemma leader_ready_reply:
  assumes lr: "leader_ready k c i w" and p: "om_find i (s_stProxys (w_server w)) = Some (Some p)"
  defines "s \<equiv> w_server w"
  shows "\<exists>b s'. RaftServer_ChangeCommitIndex (credited k (s_stEntries s) i p s) = Inr (b, s')
    \<and> s' = (credited k (s_stEntries s) i p s)\<lparr>s_dwCommitIndex := s_dwCommitIndex s'\<rparr>
    \<and> ModApi_AppendEntriesR E c (reply (s_dwCurrentTerm s) k (s_stEntries s)) w = Inr (w\<lparr>w_server := s'\<rparr>)
    \<and> leader_ready (next_match k (s_stEntries s)) c i (w\<lparr>w_server := s'\<rparr>)"
proof -
  let ?r = "reply (s_dwCurrentTerm s) k (s_stEntries s)" and ?s1 = "credited k (s_stEntries s) i p s"
  obtain x where x: "w_conns w c = Some x" "cn_pstProxy x = Some i" "w_alive w" and inv: "srv_inv s" "acks_bounded s"
      and k: "unat (p_ulMatchIndex p) = k" "length (s_stEntries s) < 2 ^ 31"
    using lr p by (auto simp: leader_ready_def s_def)
  have ok: "om_ok (s_stProxys s)" "proxy_ok i (Some p)" using inv(1) p by (auto simp: srv_inv_def s_def)
  have m: "unat (p_ulMatchIndex (credit p)) = k + 1" if "k + 1 < length (s_stEntries s)"
    using that k by (simp add: credit_def unat_word_ariths)
  have inv1: "srv_inv ?s1" using inv(1) ok(2) by (auto simp: srv_inv_def credited_def proxy_ok_def credit_def)
  have b1: "acks_bounded ?s1" using inv(2) m p by (auto simp: acks_bounded_def credited_def s_def)
  obtain b j where cc: "RaftServer_ChangeCommitIndex ?s1 = Inr (b, ?s1\<lparr>s_dwCommitIndex := j\<rparr>)"
    using ChangeCommitIndex_total [OF inv1 b1] by blast
  let ?w = "w\<lparr>w_server := ?s1\<lparr>s_dwCommitIndex := j\<rparr>\<rparr>"
  have "ModApi_AppendEntriesR E c ?r w = Inr ?w"
  proof (cases "k + 1 < length (s_stEntries s)")
    case True
    then show ?thesis
      using AppendEntriesR_ack [OF x(1,3,2) p, of ?r] cc
      by (simp add: s_def reply_def next_entries_def appendentries_r_SharedCtor_def credited_def)
  next
    case False
    then have "?s1 = s" using om_assign_same [OF ok(1)] p by (simp add: credited_def s_def)
    with cc False x show ?thesis
      by (auto simp: ModApi_AppendEntriesR_def conn_lock_def Conn_Server_CurrentTerm_def ask_server_def s_def reply_def
          next_entries_def appendentries_r_SharedCtor_def Conn_Server_ChangeCommitIndex_def)
  qed
  moreover have "leader_ready (next_match k (s_stEntries s)) c i ?w"
    using lr inv1 b1 m x k by (auto simp: leader_ready_def acks_bounded_def srv_inv_def credited_def next_match_def s_def)
  ultimately show ?thesis using cc by fastforce
qed

lemma follower_round:
  assumes cs: "calm_store E" and net: "network E" and cp: "e_memcpy_down E"
    and own: "list_all (own_entry (s_dwCurrentTerm s)) (s_stEntries s)" and len: "length (s_stEntries s) < 2 ^ 31"
    and kl: "k < length (s_stEntries s) \<or> k = 0"
    and p: "p_ulNextIndex p = p_ulMatchIndex p + 1" "unat (p_ulMatchIndex p) = k"
    and fr: "follower_ready k (s_dwCurrentTerm s) (s_stEntries s) w"
    and x: "w_conns w c = Some x" "out_ok x"
    and r: "r = reply (s_dwCurrentTerm s) k (s_stEntries s)"
    and room: "length (out_queue x) + length (frame (e_wire E) 260 (M_appendentries_r r)) \<le> BUFSIZE"
  shows "\<exists>m w'. build_appendentries s p = Inr m \<and> ModApi_AppendEntriesQ E c m w = Inr w'
    \<and> follower_ready (next_match k (s_stEntries s)) (s_dwCurrentTerm s) (s_stEntries s) w'
    \<and> s_dwCommitIndex (w_server w') = next_commit k (s_stEntries s) (s_dwCommitIndex s) (s_dwCommitIndex (w_server w))
    \<and> (\<exists>j pre. w_trace w' = w_trace w @ pre @
         [SendCall (cn_iFd x) (out_queue x @ frame (e_wire E) 260 (M_appendentries_r r))
            (e_send E j (cn_iFd x) (out_queue x @ frame (e_wire E) 260 (M_appendentries_r r)))])"
proof -
  let ?es = "s_stEntries s" and ?t = "s_dwCurrentTerm s" and ?f = "abs_follower (w_server w)"
  have f: "f_term ?f \<le> ?t" "in_step k ?es (f_log ?f)" "w_alive w" "srv_inv (w_server w)"
    using fr by (simp_all add: follower_ready_def abs_follower_def)
  obtain m where m: "build_appendentries s p = Inr m" "aq_prelogindex m = of_nat k"
      "aq_entries m = next_entries k ?es"
      "f_log (snd (follower_step m ?f)) = f_log ?f @ next_entries k ?es" "f_term (snd (follower_step m ?f)) = ?t"
      "fst (follower_step m ?f) = appendentries_r_SharedCtor\<lparr>ar_term := ?t, ar_success := True,
        ar_isheartbeat := (next_entries k ?es = [])\<rparr>"
      "f_commit (snd (follower_step m ?f)) = next_commit k ?es (s_dwCommitIndex s) (f_commit ?f)"
    using exchange_step [OF p own len kl f(1,2)] by blast
  have reply: "fst (follower_step m ?f) = r" by (simp add: m(6) r reply_def)
  have kb: "k + 2 < 2 ^ 32" using kl len by auto
  have w1: "aq_prelogindex m + 2 \<noteq> 0" "aq_prelogindex m \<noteq> - 1"
  proof -
    have "unat (of_nat k + 2 :: u32) = k + 2" "unat (of_nat k + 1 :: u32) = k + 1"
      using unat_of_nat_u32 [OF kb] unat_of_nat_u32 [of "k + 1"] kb by (simp_all add: add.commute)
    then show "aq_prelogindex m + 2 \<noteq> 0" "aq_prelogindex m \<noteq> - 1" by (auto simp: m(2) eq_neg_iff_add_eq_0)
  qed
  have hosts: "list_all (\<lambda>e. 0 \<notin> set (en_host e)) (aq_entries m)"
    using next_entries_own [OF own, of k] by (auto simp: m(3) own_entry_def list_all_iff)
  have flen: "length (s_stEntries (w_server w)) < 2 ^ 32 - 1"
    using fr len by (simp add: follower_ready_def in_step_def min_less_iff_disj)
  obtain w2 where w2: "ModApi_AppendEntriesQ E c m w = send_frame E c 260 (M_appendentries_r r) w2"
      "w_conns w2 = w_conns w" "abs_follower (w_server w2) = snd (follower_step m ?f)" "wstep E w w2"
    using AppendEntriesQ_step [OF cs x(1) f(3,4) flen w1 hosts] reply by auto
  let ?q = "out_queue x @ frame (e_wire E) 260 (M_appendentries_r r)"
  obtain w' where w': "send_frame E c 260 (M_appendentries_r r) w2 = Inr w'" "w_server w' = w_server w2"
      "w_trace w' = w_trace w2 @ [SendCall (cn_iFd x) ?q (e_send E (length (w_trace w2)) (cn_iFd x) ?q)]"
    using network.send_frame_fits [OF net cp _ x(2) room, of w2 c] x(1) w2(2) by auto
  have s: "wstep E w w'" using stepsD [OF network.steps_AppendEntriesQ [OF net]] w2(1) w'(1) by metis
  have "f_log (abs_follower (w_server w')) = f_log ?f @ next_entries k ?es" "f_term (abs_follower (w_server w')) = ?t"
    using m(4,5) by (simp_all add: w'(2) w2(3))
  then have "follower_ready (next_match k ?es) ?t ?es w'"
    using s f(3,4) in_step_next_match [OF f(2)] by (simp add: follower_ready_def wstep_def extends_def abs_follower_def)
  moreover obtain pre where "w_trace w2 = w_trace w @ pre" using w2(4) by (auto simp: wstep_def prefix_def)
  moreover have "s_dwCommitIndex (w_server w') = next_commit k ?es (s_dwCommitIndex s) (s_dwCommitIndex (w_server w))"
    using m(7) unfolding w'(2) w2(3) [symmetric] by (simp add: abs_follower_def)
  ultimately show ?thesis using m(1) w2(1) w' by auto
qed

text \<open>
  One round of replication between two servers. A leader whose log was written in its
  current term, and whose match index for a follower is \<open>k\<close> with entry \<open>k + 1\<close> in its
  log, builds a message that the follower, holding the leader's entries up to \<open>k\<close>,
  accepts: the handler returns, the follower holds the entries up to \<open>k + 1\<close>, its
  acknowledgement is handed to the socket, and processing it on the leader returns and moves
  the match index to \<open>k + 1\<close>. Both are then ready for the next round.
\<close>

lemma replication_round:
  fixes wl wf :: "'db world"
  assumes "calm_store E" and "network E" and "e_memcpy_down E"
    and "leader_ready k cl i wl" and "k + 1 < length (s_stEntries (w_server wl))"
    and "om_find i (s_stProxys (w_server wl)) = Some (Some p)"
    and "follower_ready k (s_dwCurrentTerm (w_server wl)) (s_stEntries (w_server wl)) wf"
    and "w_conns wf cf = Some x" and "out_ok x"
    and "length (out_queue x) + length (frame (e_wire E) 260 (M_appendentries_r (appendentries_r_SharedCtor
           \<lparr>ar_term := s_dwCurrentTerm (w_server wl), ar_success := True, ar_isheartbeat := False\<rparr>))) \<le> BUFSIZE"
  shows "\<exists>m r n wf' wl'. build_appendentries (w_server wl) p = Inr m
    \<and> ModApi_AppendEntriesQ E cf m wf = Inr wf'
    \<and> last (w_trace wf') = SendCall (cn_iFd x) (out_queue x @ frame (e_wire E) 260 (M_appendentries_r r)) n
    \<and> ModApi_AppendEntriesR E cl r wl = Inr wl'
    \<and> s_stEntries (w_server wl') = s_stEntries (w_server wl)
    \<and> leader_ready (k + 1) cl i wl'
    \<and> follower_ready (k + 1) (s_dwCurrentTerm (w_server wl)) (s_stEntries (w_server wl)) wf'
    \<and> s_stEntries (w_server wf') = take (k + 2) (s_stEntries (w_server wl))"
proof -
  let ?s = "w_server wl"
  have ne: "next_entries k (s_stEntries ?s) \<noteq> []" "next_match k (s_stEntries ?s) = k + 1"
    using assms(5) by (simp_all add: next_entries_def next_match_def)
  define r where "r = reply (s_dwCurrentTerm ?s) k (s_stEntries ?s)"
  have lr: "list_all (own_entry (s_dwCurrentTerm ?s)) (s_stEntries ?s)" "length (s_stEntries ?s) < 2 ^ 31"
      "srv_inv ?s" "unat (p_ulMatchIndex p) = k"
    using assms(4,6) by (auto simp: leader_ready_def)
  have p: "p_ulNextIndex p = p_ulMatchIndex p + 1"
    using srv_inv_find [OF lr(3) assms(6)] by (simp add: proxy_ok_def)
  have "length (out_queue x) + length (frame (e_wire E) 260 (M_appendentries_r r)) \<le> BUFSIZE"
    using assms(10) ne(1) by (simp add: r_def reply_def)
  then obtain m wf' n where 1: "build_appendentries ?s p = Inr m" "ModApi_AppendEntriesQ E cf m wf = Inr wf'"
      "follower_ready (k + 1) (s_dwCurrentTerm ?s) (s_stEntries ?s) wf'"
      "last (w_trace wf') = SendCall (cn_iFd x) (out_queue x @ frame (e_wire E) 260 (M_appendentries_r r)) n"
    using follower_round [OF assms(1-3) lr(1,2) _ p lr(4) assms(7-9) r_def] assms(5)
    by (metis append_assoc last_snoc ne(2) add_lessD1)
  obtain s' where s': "s' = (credited k (s_stEntries ?s) i p ?s)\<lparr>s_dwCommitIndex := s_dwCommitIndex s'\<rparr>"
      "ModApi_AppendEntriesR E cl r wl = Inr (wl\<lparr>w_server := s'\<rparr>)" "leader_ready (k + 1) cl i (wl\<lparr>w_server := s'\<rparr>)"
    using leader_ready_reply [OF assms(4,6), where E = E] unfolding r_def ne(2) by blast
  have "s_stEntries s' = s_stEntries ?s" by (subst s'(1)) (simp add: credited_def)
  with s'(2,3) obtain wl' where 2: "ModApi_AppendEntriesR E cl r wl = Inr wl'" "leader_ready (k + 1) cl i wl'"
      "s_stEntries (w_server wl') = s_stEntries ?s" by auto
  have "s_stEntries (w_server wf') = take (k + 2) (s_stEntries ?s)"
    using 1(3) by (simp add: follower_ready_def in_step_def)
  with 1 2 show ?thesis by blast
qed

definition sample_log :: "entry list" where
  "sample_log = [cfg_entry 0 (str ''a'') 1 1, cfg_entry 0 (str ''b'') 2 5]"

definition sample_leader :: "(bytes \<times> bytes) list world" where
  "sample_leader = set_conn 0 (calm_conn\<lparr>cn_pstProxy := Some 5\<rparr>)
     (calm_world\<lparr>w_server := (w_server calm_world)\<lparr>s_stRole := Leader, s_stEntries := sample_log,
        s_stProxys := [(5, Some (RaftProxy_new 5))]\<rparr>\<rparr>)"

lemma sample_leader_simps [simp]:
  "w_conns sample_leader 0 = Some (calm_conn\<lparr>cn_pstProxy := Some 5\<rparr>)" "w_alive sample_leader"
  "s_stEntries (w_server sample_leader) = sample_log" "s_dwCurrentTerm (w_server sample_leader) = 0"
  "s_stProxys (w_server sample_leader) = [(5, Some (RaftProxy_new 5))]"
  "s_stConns (w_server sample_leader) = [(7, 0)]" "s_stRole (w_server sample_leader) = Leader"
  by (simp_all add: sample_leader_def set_conn_def calm_server_simps)

lemma sample_log_own: "list_all (own_entry 0) sample_log" "length sample_log = 2"
  by (simp_all add: sample_log_def own_cfg_entry str_def of_char_def)

lemma sample_leader_inv: "srv_inv (w_server sample_leader)" "acks_bounded (w_server sample_leader)"
  by (auto simp: srv_inv_def acks_bounded_def om_ok_def sample_log_own sample_leader_def set_conn_def calm_server_simps
      split: if_splits) (simp add: RaftProxy_new_def sample_log_def)

lemma sample_leader_ready: "leader_ready 0 0 5 sample_leader"
  using sample_leader_inv sample_log_own by (simp add: leader_ready_def) (simp add: RaftProxy_new_def)

section \<open>Many rounds\<close>

text \<open>
  The leader's message, the follower's answer and the leader's bookkeeping for it, with the
  follower abstracted to \<open>follower_step\<close>, repeated.
\<close>

definition exchange :: "'db RaftServer \<Rightarrow> RaftProxy \<times> follower \<Rightarrow> (RaftProxy \<times> follower) res" where
  "exchange s pf = rbind (build_appendentries s (fst pf)) (\<lambda>m.
     let (r, f) = follower_step m (snd pf) in
     Inr (if ar_success r \<and> \<not> ar_isheartbeat r then credit (fst pf) else fst pf, f))"

fun exchanges :: "nat \<Rightarrow> 'db RaftServer \<Rightarrow> RaftProxy \<times> follower \<Rightarrow> (RaftProxy \<times> follower) res" where
  "exchanges 0 s pf = Inr pf"
| "exchanges (Suc n) s pf = rbind (exchange s pf) (exchanges n s)"

definition exchanging :: "nat \<Rightarrow> 'db RaftServer \<Rightarrow> RaftProxy \<times> follower \<Rightarrow> bool" where
  "exchanging k s pf \<longleftrightarrow> (case pf of (p, f) \<Rightarrow> p_ulNextIndex p = p_ulMatchIndex p + 1
     \<and> unat (p_ulMatchIndex p) = k \<and> f_term f \<le> s_dwCurrentTerm s \<and> in_step k (s_stEntries s) (f_log f)
     \<and> (k < length (s_stEntries s) \<or> k = 0))"

lemma exchange_progress:
  assumes own: "list_all (own_entry (s_dwCurrentTerm s)) (s_stEntries s)" and len: "length (s_stEntries s) < 2 ^ 31"
    and ex: "exchanging k s pf"
  shows "\<exists>pf'. exchange s pf = Inr pf'
    \<and> exchanging (if k + 1 < length (s_stEntries s) then k + 1 else k) s pf'"
proof -
  let ?es = "s_stEntries s"
  obtain p f where pf: "pf = (p, f)" by (cases pf)
  have h: "p_ulNextIndex p = p_ulMatchIndex p + 1" "unat (p_ulMatchIndex p) = k" "f_term f \<le> s_dwCurrentTerm s"
      "in_step k ?es (f_log f)" "k < length ?es \<or> k = 0"
    using ex by (simp_all add: pf exchanging_def)
  obtain m where m: "build_appendentries s p = Inr m"
      "f_log (snd (follower_step m f)) = f_log f @ next_entries k ?es"
      "f_term (snd (follower_step m f)) = s_dwCurrentTerm s"
      "fst (follower_step m f) = appendentries_r_SharedCtor\<lparr>ar_term := s_dwCurrentTerm s, ar_success := True,
        ar_isheartbeat := (next_entries k ?es = [])\<rparr>"
    using exchange_step [OF h(1,2) own len h(5,3,4)] by blast
  have e: "exchange s pf = Inr (if next_entries k ?es \<noteq> [] then credit p else p, snd (follower_step m f))"
    using m(1,4) by (cases "follower_step m f") (simp add: exchange_def pf)
  show ?thesis
  proof (cases "k + 1 < length ?es")
    case True
    then have ne: "next_entries k ?es \<noteq> []" by (simp add: next_entries_def)
    have "unat (p_ulMatchIndex p + 1) = k + 1" using True len h(2) by (simp add: unat_word_ariths)
    with True ne e h in_step_next [OF h(4) True] m(2,3) show ?thesis
      by (simp add: exchanging_def credit_def)
  next
    case False
    then have "next_entries k ?es = []" by (simp add: next_entries_def)
    with False e h m(2,3) show ?thesis by (simp add: exchanging_def)
  qed
qed

lemma exchanges_progress:
  assumes own: "list_all (own_entry (s_dwCurrentTerm s)) (s_stEntries s)" and len: "length (s_stEntries s) < 2 ^ 31"
    and ex: "exchanging k s pf" and n: "length (s_stEntries s) - 1 \<le> k + n"
  shows "\<exists>pf'. exchanges n s pf = Inr pf' \<and> exchanging (length (s_stEntries s) - 1) s pf'"
  using ex n
proof (induction n arbitrary: k pf)
  case 0
  then have "k = length (s_stEntries s) - 1" by (auto simp: exchanging_def)
  with 0 show ?case by simp
next
  case (Suc n)
  obtain pf' where pf': "exchange s pf = Inr pf'"
      "exchanging (if k + 1 < length (s_stEntries s) then k + 1 else k) s pf'"
    using exchange_progress [OF own len Suc.prems(1)] by blast
  have "length (s_stEntries s) - 1 \<le> (if k + 1 < length (s_stEntries s) then k + 1 else k) + n"
    using Suc.prems(2) by auto
  from Suc.IH [OF pf'(2) this] show ?case by (simp add: pf'(1))
qed

text \<open>
  Replication converges to the abstract follower. A leader with a log of its current term and a new proxy brings a
  follower with an empty log up to date: after as many exchanges as the log has entries
  less one, and after any larger number, the exchanges have all returned, the
  follower's log is the leader's and the match index is the leader's last index. A log of a
  single entry is never sent: the first message goes out only when there is an entry 1.
\<close>

lemma replication_converges:
  assumes "list_all (own_entry (s_dwCurrentTerm s)) (s_stEntries s)" and "length (s_stEntries s) < 2 ^ 31"
    and "f_term f \<le> s_dwCurrentTerm s" and "f_log f = []" and "length (s_stEntries s) - 1 \<le> n"
  shows "\<exists>p' f'. exchanges n s (RaftProxy_new i, f) = Inr (p', f')
    \<and> f_log f' = (if 2 \<le> length (s_stEntries s) then s_stEntries s else [])
    \<and> unat (p_ulMatchIndex p') = length (s_stEntries s) - 1"
proof -
  have "exchanging 0 s (RaftProxy_new i, f)"
    using assms(3,4) by (simp add: exchanging_def in_step_def RaftProxy_new_def)
  then obtain p' f' where "exchanges n s (RaftProxy_new i, f) = Inr (p', f')"
      "exchanging (length (s_stEntries s) - 1) s (p', f')"
    using exchanges_progress [OF assms(1,2), of 0 "(RaftProxy_new i, f)" n] assms(5) by auto
  then show ?thesis by (auto simp: exchanging_def in_step_def)
qed

end
