(* ===== verification/Net_Stream.thy ===== *)
theory Net_Stream
  imports Mod_World
begin

text \<open>
  The byte streams between two nodes: what is put into frames on one side is what the other
  side's handlers are called with, in order and without loss, as long as the 1440 bytes of
  the buffers are enough and no buffer is moved by an overlapping \<open>memcpy\<close>; and what happens
  otherwise, or when a frame is malformed.
\<close>

section \<open>Sending\<close>

text \<open>
  C18. What a partial send leaves behind. When a frame fits behind what the out buffer
  holds, \<open>SendAppendEntries\<close>, \<open>SendHandShakeQ\<close> and \<open>HandlePreSendMsg\<close> (all
  through \<open>send_frame\<close>) offer the old content followed by the frame, \<open>q\<close>, to \<open>send\<close>, which
  takes \<open>k\<close> bytes. When none or at least half of \<open>q\<close> is taken, nothing is lost or reordered:
  what was taken followed by what stays in the buffer is \<open>q\<close>. When some but less than half
  is taken, the rest is moved by an overlapping \<open>memcpy\<close>: undefined behaviour, the stop
  \<open>OverlappingCopy\<close>, unless the implementation of \<open>memcpy\<close> happens to copy upwards.
\<close>

theorem send_frame_stream:
  assumes "network E" and "w_conns w c = Some x" and "out_ok x"
    and "length (out_queue x) + length (frame (e_wire E) i m) \<le> BUFSIZE"
  defines "q \<equiv> out_queue x @ frame (e_wire E) i m"
  defines "k \<equiv> e_send E (length (w_trace w)) (cn_iFd x) q"
  shows "if e_memcpy_down E \<or> k \<le> 0 \<or> int (length q) \<le> 2 * k
    then \<exists>w' x'. send_frame E c i m w = Inr w' \<and> w_conns w' = (w_conns w)(c \<mapsto> x') \<and> out_ok x'
      \<and> w_trace w' = w_trace w @ [SendCall (cn_iFd x) q k] \<and> take (nat k) q @ out_queue x' = q
    else send_frame E c i m w = Inl OverlappingCopy"
proof (cases "e_memcpy_down E \<or> k \<le> 0 \<or> int (length q) \<le> 2 * k")
  case True
  then show ?thesis
    using network.send_frame_copies [OF assms(1-4) meta_eq_to_obj_eq [OF q_def] meta_eq_to_obj_eq [OF k_def]]
    by (simp only: if_True) blast
next
  case False
  then show ?thesis
    using network.send_frame_copies [OF assms(1-4) meta_eq_to_obj_eq [OF q_def] meta_eq_to_obj_eq [OF k_def]]
    by (simp only: if_False)
qed

text \<open>A kernel that takes at most \<open>n\<close> bytes at a time, and a \<open>memcpy\<close> that needs disjoint regions.\<close>

definition slow_env :: "int \<Rightarrow> (bytes \<times> bytes) list env" where
  "slow_env n = calm_env\<lparr>e_send := (\<lambda>i fd bs. min n (int (length bs))), e_memcpy_down := False\<rparr>"

lemma slow_env_simps [simp]:
  "e_wire (slow_env n) = leb_wire" "e_send (slow_env n) i fd bs = min n (int (length bs))" "\<not> e_memcpy_down (slow_env n)"
  by (simp_all add: slow_env_def)

interpretation slow: network "slow_env n"
  using leb.wire_format_axioms by (intro network.intro) simp_all

theorem send_frame_stream_witness:
  "let f = frame leb_wire 258 (handshake_reply True) in
   (\<exists>w' x'. send_frame (slow_env 5) 0 258 (handshake_reply True) calm_world = Inr w'
     \<and> w_trace w' = [SendCall 7 f 5] \<and> w_conns w' 0 = Some x' \<and> take 5 f @ out_queue x' = f)
   \<and> send_frame (slow_env 3) 0 258 (handshake_reply True) calm_world = Inl OverlappingCopy"
proof -
  let ?f = "frame leb_wire 258 (handshake_reply True)"
  have len: "length ?f = 8" by code_simp
  note rule = send_frame_stream [OF slow.network_axioms, of calm_world 0 calm_conn _ 258 "handshake_reply True"]
  have "\<exists>w' x'. send_frame (slow_env 5) 0 258 (handshake_reply True) calm_world = Inr w'
      \<and> w_trace w' = [SendCall 7 ?f 5] \<and> w_conns w' 0 = Some x' \<and> take 5 ?f @ out_queue x' = ?f"
    using rule [of 5] len by (auto simp: BUFSIZE_def simp del: length_frame append_take_drop_id)
  moreover have "send_frame (slow_env 3) 0 258 (handshake_reply True) calm_world = Inl OverlappingCopy"
    using rule [of 3] len by (simp add: BUFSIZE_def del: length_frame)
  ultimately show ?thesis by (simp add: Let_def)
qed

text \<open>
  Without room, the out buffer is overrun: a frame that does not fit behind the bytes
  that are still waiting to be sent is written past the end of the 1440-byte vector. A slow
  peer is enough, since nothing bounds what is queued for it.
\<close>

lemma send_frame_overflow:
  assumes "wire_format (e_wire E)" and "w_conns w c = Some x" and "out_ok x"
    and "BUFSIZE < length (out_queue x) + length (frame (e_wire E) i m)"
  shows "send_frame E c i m w = Inl BufferOverflow"
  using push_frame_eq [OF assms(1,3), of i m] assms(2,4) by (simp add: send_frame_def with_conn_def)

section \<open>Receiving\<close>

text \<open>The message type that each id of the protocol stands for.\<close>

fun msg_id :: "Message \<Rightarrow> u16 option" where
  "msg_id (M_handshake_q m) = Some 257"
| "msg_id (M_handshake_r m) = Some 258"
| "msg_id (M_entry m) = None"
| "msg_id (M_appendentries_q m) = Some 259"
| "msg_id (M_appendentries_r m) = Some 260"
| "msg_id (M_requestvote_q m) = Some 261"
| "msg_id (M_requestvote_r m) = Some 262"

lemma lookup_known:
  assumes "msg_id m = Some i"
  shows "\<exists>mw. lookup_wrapper i = Inr mw \<and> MessageWrapper_NewMessage mw = Message_New m"
  using assms
  by (cases m) (auto simp: lookup_wrapper_def vec_at_def s_stMessages_def Mod_LoadMsg_def
      MessageWrapper_new_def MessageWrapper_NewMessage_def)

lemma in_buffer_split: "in_ok x \<Longrightarrow> \<exists>junk. cn_stInBuffer x = in_queue x @ junk"
  by (metis append_take_drop_id content_def in_queue_def)

lemma sint_of_nat_small: "n < 2 ^ 31 \<Longrightarrow> sint (of_nat n :: u32) = int n"
  using sint_of_small [of "int n"] by simp

text \<open>One complete frame of a known type in front of the in buffer.\<close>

lemma arrived_step_frame:
  assumes wf: "wire_format (e_wire E)" and x: "w_conns w c = Some x" "in_ok x"
    and q: "in_queue x = frame (e_wire E) i m @ rest" and id: "msg_id m = Some i"
    and plain: "Message_plain (e_wire E) m"
  shows "if e_memcpy_down E \<or> length rest \<le> length (frame (e_wire E) i m)
    then \<exists>x'. in_ok x' \<and> in_queue x' = rest
      \<and> x' = x\<lparr>cn_iInBufferSize := cn_iInBufferSize x', cn_stInBuffer := cn_stInBuffer x'\<rparr>
      \<and> arrived_step E c w = Some (rbind (ModApi_Proc E c (int (unat i mod 256) - 1) m (set_conn c x' w)) (arrived_finish c))
    else arrived_step E c w = Some (Inl OverlappingCopy)"
proof -
  let ?p = "Message_Serialize (e_wire E) m"
  define n where "n = length ?p"
  have size: "Message_ByteSize (e_wire E) m = n" by (simp add: n_def wire_format.Message_size [OF wf])
  obtain junk where junk: "cn_stInBuffer x = in_queue x @ junk" using in_buffer_split [OF x(2)] by blast
  then have buf: "cn_stInBuffer x = le16 i @ le32 (of_nat n) @ ?p @ rest @ junk" by (simp add: q frame_def size)
  have sz: "cn_iInBufferSize x = 6 + int n + int (length rest)" "cn_iInBufferSize x \<le> int BUFSIZE"
    "length (cn_stInBuffer x) = BUFSIZE"
  proof -
    show "length (cn_stInBuffer x) = BUFSIZE" "cn_iInBufferSize x \<le> int BUFSIZE"
      using x(2) by (auto simp: in_ok_def buf_ok_def)
    have "int (length (in_queue x)) = cn_iInBufferSize x"
      using x(2) by (simp add: in_queue_def in_ok_def) (simp add: buf_ok_def)
    then show "cn_iInBufferSize x = 6 + int n + int (length rest)" by (simp add: q n_def)
  qed
  have nb: "n < 2 ^ 31 - 6" using sz by (simp add: BUFSIZE_def)
  then have len: "sint (of_nat n :: u32) = int n" "unat (of_nat n :: u32) = n"
    by (simp_all add: sint_of_nat_small unat_of_nat)
  have hdr: "rd16 (cn_stInBuffer x) = i" "rd32 (drop 2 (cn_stInBuffer x)) = of_nat n"
    "take n (drop 6 (cn_stInBuffer x)) = ?p"
    unfolding buf by (simp_all add: n_def)
  obtain mw where mw: "lookup_wrapper i = Inr mw" "MessageWrapper_NewMessage mw = Message_New m"
    using lookup_known [OF id] by blast
  have new: "Message_New (Message_New m) = Message_New m" by (cases m) simp_all
  have parse: "Message_ParseFromArray (e_wire E) ?p (Message_New m) = Some m"
    using wire_format.Message_parse_serialize [OF wf plain] by (simp add: Message_ParseFromArray_def new)
  have fl: "length (frame (e_wire E) i m) = n + 6" "length (in_queue x) = n + 6 + length rest"
    by (simp_all add: q n_def)
  have step: "arrived_step E c w = Some (rbind (in_consume (e_memcpy_down E) (int (n + 6)) x) (\<lambda>x'.
      rbind (ModApi_Proc E c (int (unat i mod 256) - 1) m (set_conn c x' w)) (arrived_finish c)))"
    using sz nb len hdr mw parse by (simp add: arrived_step_def x(1) Let_def add.commute)
  show ?thesis
  proof (cases "e_memcpy_down E \<or> length rest \<le> n + 6")
    case True
    then obtain x' where "in_consume (e_memcpy_down E) (int (n + 6)) x = Inr x'" "in_ok x'"
        "in_queue x' = drop (n + 6) (in_queue x)"
        "x' = x\<lparr>cn_iInBufferSize := cn_iInBufferSize x', cn_stInBuffer := cn_stInBuffer x'\<rparr>"
      using in_consume_front [OF x(2), of "n + 6" "e_memcpy_down E"] fl(2) by auto
    moreover have "drop (n + 6) (in_queue x) = rest" by (simp add: q n_def)
    ultimately show ?thesis using True step by (auto simp: fl(1) simp del: length_frame)
  next
    case False
    with in_consume_overlap [OF x(2), of "n + 6"] fl step show ?thesis by (simp del: length_frame)
  qed
qed

text \<open>
  C17. The receiving loop implements the framing. When the in buffer starts with the frame
  of a message that a peer has built, the loop hands exactly that message to the handler of
  its type, with the buffer advanced to the byte behind the frame, and goes on from there.
  This holds for messages without unknown fields and with valid UTF-8 in their strings
  (\<open>Message_plain\<close>), as long as no more bytes wait behind the frame than it has itself. When
  more are waiting, they are moved to the front by a \<open>memcpy\<close> between overlapping regions
  before the handler is called: undefined behaviour, the stop \<open>OverlappingCopy\<close>, unless the
  implementation of \<open>memcpy\<close> happens to copy upwards.
\<close>

theorem dispatch_frame:
  assumes "wire_format (e_wire E)" and "w_conns w c = Some x" and "in_ok x"
    and "in_queue x = frame (e_wire E) i m @ rest" and "msg_id m = Some i" and "Message_plain (e_wire E) m"
  shows "if e_memcpy_down E \<or> length rest \<le> length (frame (e_wire E) i m)
    then \<exists>x'. in_ok x' \<and> in_queue x' = rest \<and>
      arrived_loop E c w =
        (case rbind (ModApi_Proc E c (int (unat i mod 256) - 1) m (set_conn c x' w)) (arrived_finish c) of
           Inl e \<Rightarrow> Some (Inl e) | Inr (go, w') \<Rightarrow> arrived_loop E c w')
    else arrived_loop E c w = Some (Inl OverlappingCopy)"
proof (cases "e_memcpy_down E \<or> length rest \<le> length (frame (e_wire E) i m)")
  case False
  with arrived_step_frame [OF assms] show ?thesis by (subst arrived_loop.simps) simp
next
  case True
  then obtain x' where x': "in_ok x'" "in_queue x' = rest"
      "arrived_step E c w =
        Some (rbind (ModApi_Proc E c (int (unat i mod 256) - 1) m (set_conn c x' w)) (arrived_finish c))"
    using arrived_step_frame [OF assms] by (simp only: if_True) blast
  have go: "\<exists>w'. gw = (True, w')" if "arrived_finish c w1 = Inr gw" for w1 gw
    using that by (auto simp: arrived_finish_def with_conn_def rbind_Inr_iff split: option.splits)
  have "arrived_loop E c w =
      (case rbind (ModApi_Proc E c (int (unat i mod 256) - 1) m (set_conn c x' w)) (arrived_finish c) of
         Inl e \<Rightarrow> Some (Inl e) | Inr (go, w') \<Rightarrow> arrived_loop E c w')"
    using go by (subst arrived_loop.simps) (auto simp: x'(3) rbind_Inr_iff split: sum.split)
  with x' True show ?thesis by (simp only: if_True) blast
qed

text \<open>A world whose connection has received the given bytes.\<close>

definition received :: "bytes \<Rightarrow> (bytes \<times> bytes) list world" where
  "received bs = set_conn 0 (calm_conn\<lparr>cn_stInBuffer := bs @ replicate (BUFSIZE - length bs) 0,
     cn_iInBufferSize := int (length bs)\<rparr>) calm_world"

lemma received_conn:
  assumes "length bs \<le> BUFSIZE"
  shows "\<exists>x. w_conns (received bs) 0 = Some x \<and> in_ok x \<and> in_queue x = bs"
  using assms
  by (simp add: received_def set_conn_def in_ok_def in_queue_def buf_ok_def content_def)

theorem dispatch_frame_witness:
  "let f = frame leb_wire 258 (handshake_reply True) in
   (\<exists>x'. in_queue x' = [1, 1] \<and>
     arrived_loop (slow_env 8) 0 (received (f @ [1, 1])) =
     (case arrived_finish 0 (set_conn 0 x' (received (f @ [1, 1]))) of
        Inl e \<Rightarrow> Some (Inl e) | Inr (go, w') \<Rightarrow> arrived_loop (slow_env 8) 0 w'))
   \<and> arrived_loop (slow_env 8) 0 (received (f @ replicate 9 1)) = Some (Inl OverlappingCopy)"
proof -
  let ?f = "frame leb_wire 258 (handshake_reply True)"
  have len: "length ?f = 8" and plain: "Message_plain leb_wire (handshake_reply True)" by code_simp+
  have id: "msg_id (handshake_reply True) = Some 258" by (simp add: handshake_reply_def)
  have got: "\<exists>x. w_conns (received (?f @ bs)) 0 = Some x \<and> in_ok x \<and> in_queue x = ?f @ bs" if "length bs \<le> 9" for bs
    using received_conn [of "?f @ bs"] len that by (simp add: BUFSIZE_def del: length_frame)
  obtain x where x: "w_conns (received (?f @ [1, 1])) 0 = Some x" "in_ok x" "in_queue x = ?f @ [1, 1]"
    using got [of "[1, 1]"] by auto
  obtain y where y: "w_conns (received (?f @ replicate 9 1)) 0 = Some y" "in_ok y" "in_queue y = ?f @ replicate 9 1"
    using got [of "replicate 9 1"] by auto
  have "\<exists>x'. in_queue x' = [1, 1] \<and> arrived_loop (slow_env 8) 0 (received (?f @ [1, 1])) =
      (case arrived_finish 0 (set_conn 0 x' (received (?f @ [1, 1]))) of
         Inl e \<Rightarrow> Some (Inl e) | Inr (go, w') \<Rightarrow> arrived_loop (slow_env 8) 0 w')"
    using dispatch_frame [OF slow.wire x(1,2), of 8 258 "handshake_reply True" "[1, 1]"] x(3) plain id len
    by (auto simp: ModApi_Proc_def ModApi_HandshakeR_def handshake_reply_def simp del: length_frame)
  moreover have "arrived_loop (slow_env 8) 0 (received (?f @ replicate 9 1)) = Some (Inl OverlappingCopy)"
    using dispatch_frame [OF slow.wire y(1,2), of 8 258 "handshake_reply True" "replicate 9 1"] y(3) plain id len
    by (simp del: length_frame)
  ultimately show ?thesis by (simp add: Let_def)
qed

text \<open>
  An incomplete frame waits: when what the in buffer holds is shorter than a header, or
  than the frame that its header announces, the loop returns at once and keeps the bytes.
\<close>

lemma dispatch_incomplete:
  assumes "w_conns w c = Some x" and "in_ok x"
    and "length (in_queue x) < 6 \<or>
      (n < 2 ^ 31 - 6 \<and> in_queue x = le16 i @ le32 (of_nat n) @ rest \<and> length rest < n)"
  shows "arrived_loop E c w = Some (Inr w)"
proof -
  have len: "int (length (in_queue x)) = cn_iInBufferSize x"
    using assms(2) by (simp add: in_queue_def in_ok_def) (simp add: buf_ok_def)
  obtain junk where junk: "cn_stInBuffer x = in_queue x @ junk" using in_buffer_split [OF assms(2)] by blast
  have "arrived_step E c w = Some (Inr (False, w))"
    using assms(3)
  proof (elim disjE conjE)
    assume "length (in_queue x) < 6"
    then show ?thesis using len assms(1) by (simp add: arrived_step_def)
  next
    assume n: "n < 2 ^ 31 - 6" "in_queue x = le16 i @ le32 (of_nat n) @ rest" "length rest < n"
    have "rd32 (drop 2 (cn_stInBuffer x)) = of_nat n" unfolding junk n(2) by simp
    moreover have "cn_iInBufferSize x = 6 + int (length rest)" using len by (simp add: n(2))
    moreover have "sint (of_nat n :: u32) = int n" using n(1) by (intro sint_of_nat_small) simp
    ultimately show ?thesis using n assms(1) by (simp add: arrived_step_def Let_def)
  qed
  then show ?thesis by (subst arrived_loop.simps) simp
qed

section \<open>Frames that stop the process\<close>

text \<open>The table lookup, for every id.\<close>

lemma lookup_wrapper_None:
  assumes "unat i < 257 \<or> 262 < unat i"
  shows "lookup_wrapper i = Inl OutOfRange"
proof -
  obtain tbl where t: "s_stMessages = [tbl]" "length tbl = 6"
    by (simp add: s_stMessages_def Mod_LoadMsg_def)
  have n: "unat i = 256 * (unat i div 256) + unat i mod 256" by simp
  show ?thesis
  proof (cases "unat i div 256 = 1")
    case True
    with assms n have "unat i mod 256 = 0 \<or> 6 < unat i mod 256" by linarith
    with True show ?thesis by (auto simp: lookup_wrapper_def vec_at_def t)
  next
    case False
    then show ?thesis by (auto simp: lookup_wrapper_def vec_at_def t)
  qed
qed

lemma lookup_wrapper_known:
  assumes "257 \<le> unat i" and "unat i \<le> 262"
  shows "\<exists>mw. lookup_wrapper i = Inr mw"
proof -
  have "unat i = 257 \<or> unat i = 258 \<or> unat i = 259 \<or> unat i = 260 \<or> unat i = 261 \<or> unat i = 262"
    using assms by linarith
  then show ?thesis
    by (auto simp: lookup_wrapper_def vec_at_def s_stMessages_def Mod_LoadMsg_def)
qed

lemma sint_negative: "sint len < 0" if "2 ^ 31 \<le> unat (len :: u32)"
proof (rule ccontr)
  assume "\<not> sint len < 0"
  then have "int (unat len) = sint len" by (intro int_unat_sint) simp
  with sint_lt [of len] that show False by simp
qed

text \<open>The header of the frame at the front of the in buffer.\<close>

lemma frame_header:
  assumes "in_ok x" and "in_queue x = le16 i @ le32 len @ rest"
  shows "cn_iInBufferSize x = 6 + int (length rest)" "length (cn_stInBuffer x) = BUFSIZE"
    "6 + length rest \<le> BUFSIZE" "rd16 (cn_stInBuffer x) = i" "rd32 (drop 2 (cn_stInBuffer x)) = len"
proof -
  have "int (length (in_queue x)) = cn_iInBufferSize x"
    using assms(1) by (simp add: in_queue_def in_ok_def) (simp add: buf_ok_def)
  then show "cn_iInBufferSize x = 6 + int (length rest)" by (simp add: assms(2))
  then show "length (cn_stInBuffer x) = BUFSIZE" "6 + length rest \<le> BUFSIZE"
    using assms(1) by (auto simp: in_ok_def buf_ok_def)
  obtain junk where junk: "cn_stInBuffer x = in_queue x @ junk" using in_buffer_split [OF assms(1)] by blast
  show "rd16 (cn_stInBuffer x) = i" "rd32 (drop 2 (cn_stInBuffer x)) = len"
    unfolding junk assms(2) by simp_all
qed

text \<open>
  C22. A peer can stop the process with one frame. For a complete frame in the in buffer: an
  id outside 257--262 indexes the message tables out of range; id 262
  (\<open>api.requestvote_r\<close>) is in the message table but not in the table of handlers, which is
  then indexed out of range; and a length of \<open>2^31\<close> or more, read as a negative number,
  passes the completeness test and reaches \<open>ParseFromArray\<close> as a negative size.
\<close>

theorem hostile_frames:
  assumes "wire_format (e_wire E)" and "e_memcpy_down E" and "w_conns w c = Some x" and "in_ok x"
    and "in_queue x = le16 i @ le32 len @ rest"
  shows "((unat i < 257 \<or> 262 < unat i) \<and> unat len \<le> length rest \<longrightarrow> arrived_loop E c w = Some (Inl OutOfRange))
    \<and> (i = 262 \<and> unat len \<le> length rest \<longrightarrow> arrived_loop E c w = Some (Inl OutOfRange))
    \<and> (257 \<le> unat i \<and> unat i \<le> 262 \<and> 2 ^ 31 \<le> unat len \<longrightarrow> arrived_loop E c w = Some (Inl NegativeLength))"
proof -
  note sz = frame_header(1-3) [OF assms(4,5)] and hdr = frame_header(4,5) [OF assms(4,5)]
  have crash: "arrived_loop E c w = Some (Inl e)" if "arrived_step E c w = Some (Inl e)" for e
    using that by (subst arrived_loop.simps) simp
  have small: "sint len = int (unat len)" if "unat len \<le> length rest"
    using that sz(3) sint_of_nat_small [of "unat len"] by (simp add: BUFSIZE_def)
  have fits: "sint len \<le> int (length rest)" "0 \<le> sint len" if "unat len \<le> length rest"
    using small [OF that] that by linarith+
  have a: "arrived_step E c w = Some (Inl OutOfRange)" if "unat i < 257 \<or> 262 < unat i" "unat len \<le> length rest"
    using sz fits [OF that(2)] hdr lookup_wrapper_None [OF that(1)]
    by (simp add: arrived_step_def assms(3) Let_def BUFSIZE_def)
  have b: "arrived_step E c w = Some (Inl NegativeLength)" if "257 \<le> unat i" "unat i \<le> 262" "2 ^ 31 \<le> unat len"
    using lookup_wrapper_known [OF that(1,2)] sint_negative [OF that(3)] sz hdr
    by (auto simp: arrived_step_def assms(3) Let_def)
  have c: "arrived_step E c w = Some (Inl OutOfRange)" if ic: "i = 262" "unat len \<le> length rest"
  proof -
    have u: "unat i = 262" by (simp add: ic(1))
    then obtain mw where mw: "lookup_wrapper i = Inr mw" using lookup_wrapper_known [of i] by auto
    obtain m where m: "Message_ParseFromArray (e_wire E) (take (unat len) (drop 6 (cn_stInBuffer x)))
        (MessageWrapper_NewMessage mw) = Some m"
      using wire_reads.Message_ParseFromArray_returns wire_format.axioms(1) [OF assms(1)] by blast
    obtain x' where "in_consume True (int (unat len + 6)) x = Inr x'"
      using in_consume_front [OF assms(4), of "unat len + 6" True] ic(2) by (auto simp: assms(5))
    with mw m fits [OF ic(2)] ic(2) u sz hdr assms(2) show ?thesis
      by (simp add: arrived_step_def assms(3) Let_def ModApi_Proc_def BUFSIZE_def add.commute)
  qed
  show ?thesis using a b c crash by blast
qed

theorem hostile_frames_witness:
  "arrived_loop calm_env 0 (received (le16 262 @ le32 0)) = Some (Inl OutOfRange)
   \<and> arrived_loop calm_env 0 (received (le16 257 @ le32 (- 1))) = Some (Inl NegativeLength)"
proof
  obtain x where x: "w_conns (received (le16 262 @ le32 0)) 0 = Some x" "in_ok x" "in_queue x = le16 262 @ le32 0"
    using received_conn [of "le16 262 @ le32 0"] by (auto simp: BUFSIZE_def)
  then show "arrived_loop calm_env 0 (received (le16 262 @ le32 0)) = Some (Inl OutOfRange)"
    using hostile_frames [OF _ _ x(1,2), of calm_env 262 0 "[]"] leb.wire_format_axioms by simp
next
  obtain x where x: "w_conns (received (le16 257 @ le32 (- 1))) 0 = Some x" "in_ok x"
      "in_queue x = le16 257 @ le32 (- 1)"
    using received_conn [of "le16 257 @ le32 (- 1)"] by (auto simp: BUFSIZE_def)
  then show "arrived_loop calm_env 0 (received (le16 257 @ le32 (- 1))) = Some (Inl NegativeLength)"
    using hostile_frames [OF _ _ x(1,2), of calm_env 257 "- 1" "[]"] leb.wire_format_axioms
    by (simp add: unsigned_minus_1_eq_mask mask_eq_exp_minus_1)
qed

text \<open>
  C21. \<open>RecvCallback\<close> asks for 1440 bytes, wherever in the 1440-byte buffer the received
  bytes go. Of the bytes that have arrived, exactly the first 1440 are written behind those
  that are waiting: when they do not fit, past the end of the buffer, so that a socket with
  1440 bytes or more overruns any buffer that is not empty; otherwise they are appended to
  the queue and the loop runs on them. No more than 1440 are ever taken, so an empty buffer
  is never overrun.
\<close>

theorem recv_bounds:
  assumes "w_alive w" and "w_conns w c = Some x" and "in_ok x"
  shows "if 1440 < length (in_queue x) + min 1440 (length bs)
    then Conn_RecvCallback E (RecvData bs) c w = Some (Inl BufferOverflow)
    else \<exists>x'. in_ok x' \<and> in_queue x' = in_queue x @ take 1440 bs
      \<and> x' = x\<lparr>cn_iInBufferSize := cn_iInBufferSize x', cn_stInBuffer := cn_stInBuffer x'\<rparr>
      \<and> Conn_RecvCallback E (RecvData bs) c w = Mod_HandleArrivedMsg E (cn_pstMod x) (set_conn c x' w)"
proof (cases "1440 < length (in_queue x) + min 1440 (length bs)")
  case True
  then have "in_put (take dwLength bs) x = Inl BufferOverflow"
    by (intro inq.put_overflows [OF assms(3)]) (simp add: BUFSIZE_def dwLength_def min.commute)
  with True assms show ?thesis by (simp add: Conn_RecvCallback_def)
next
  case False
  then obtain x' where x': "in_put (take dwLength bs) x = Inr x'" "in_ok x'" "in_queue x' = in_queue x @ take 1440 bs"
      "x' = x\<lparr>cn_iInBufferSize := cn_iInBufferSize x', cn_stInBuffer := cn_stInBuffer x'\<rparr>"
    using in_put_fits [OF assms(3), of "take dwLength bs"] by (auto simp: BUFSIZE_def dwLength_def min.commute)
  have "cn_pstMod x' = cn_pstMod x" by (subst x'(4)) simp
  then have "Conn_RecvCallback E (RecvData bs) c w = Mod_HandleArrivedMsg E (cn_pstMod x) (set_conn c x' w)"
    using x'(1) assms by (simp add: Conn_RecvCallback_def)
  with False x' show ?thesis by (simp only: if_False) blast
qed

theorem recv_bounds_witness:
  "Conn_RecvCallback calm_env (RecvData (replicate 2000 1)) 0 (received [1, 1]) = Some (Inl BufferOverflow)
   \<and> (\<exists>x'. in_queue x' = replicate 1440 1 \<and> Conn_RecvCallback calm_env (RecvData (replicate 2000 1)) 0 (received []) =
       Mod_HandleArrivedMsg calm_env (Some 0) (set_conn 0 x' (received [])))"
proof
  have alive: "w_alive (received bs)" for bs by (simp add: received_def set_conn_def)
  obtain x where "w_conns (received [1, 1]) 0 = Some x" "in_ok x" "in_queue x = [1, 1]"
    using received_conn [of "[1, 1]"] by (auto simp: BUFSIZE_def)
  then show "Conn_RecvCallback calm_env (RecvData (replicate 2000 1)) 0 (received [1, 1]) = Some (Inl BufferOverflow)"
    using recv_bounds [OF alive, of _ 0 x "replicate 2000 1" calm_env] by simp
  obtain y where y: "w_conns (received []) 0 = Some y" "in_ok y" "in_queue y = []"
    using received_conn [of "[]"] by auto
  then have "cn_pstMod y = Some 0" by (auto simp: received_def set_conn_def)
  with y show "\<exists>x'. in_queue x' = replicate 1440 1 \<and> Conn_RecvCallback calm_env (RecvData (replicate 2000 1)) 0 (received []) =
      Mod_HandleArrivedMsg calm_env (Some 0) (set_conn 0 x' (received []))"
    using recv_bounds [OF alive y(1,2), of "replicate 2000 1" calm_env] by auto
qed

end
