(* ===== verification/Net_Segments.thy ===== *)
theory Net_Segments
  imports Net_Stream
begin

text \<open>
  A frame on its way through TCP, which keeps the order of the bytes and nothing else: it arrives
  in any number of segments, each of which makes the connection readable and runs
  \<open>Conn::RecvCallback\<close>. The segmentation does not matter: all segments but the last only fill the
  buffer, and the last one has the effect of the whole frame at once, one call of the handler.
\<close>

text \<open>The callbacks of a sequence of segments.\<close>

fun recv_all :: "'db env \<Rightarrow> nat \<Rightarrow> bytes list \<Rightarrow> 'db world \<Rightarrow> 'db world res option" where
  "recv_all E c [] w = Some (Inr w)"
| "recv_all E c (bs # bss) w =
     (case Conn_RecvCallback E (RecvData bs) c w of
        None \<Rightarrow> None | Some (Inl e) \<Rightarrow> Some (Inl e) | Some (Inr w') \<Rightarrow> recv_all E c bss w')"

section \<open>Partial frames\<close>

text \<open>Two writes behind each other are one.\<close>

lemma in_put_append:
  assumes "in_ok x" and "in_put a x = Inr x1"
  shows "in_put b x1 = in_put (a @ b) x"
proof -
  have sz: "0 \<le> cn_iInBufferSize x" "nat (cn_iInBufferSize x) + length a \<le> length (cn_stInBuffer x)"
    using assms by (auto simp: in_ok_def buf_ok_def in_put_def buf_write_def split: if_splits)
  then have x1: "x1 = x\<lparr>cn_stInBuffer := blit (nat (cn_iInBufferSize x)) a (cn_stInBuffer x),
      cn_iInBufferSize := cn_iInBufferSize x + int (length a)\<rparr>"
    using assms(2) by (simp add: in_put_def buf_write_def)
  have "nat (cn_iInBufferSize x + int (length a)) = nat (cn_iInBufferSize x) + length a" using sz(1) by simp
  with sz show ?thesis
    by (auto simp: x1 in_put_def buf_write_def blit_blit_adjacent)
qed

text \<open>A proper part of a frame at the front waits.\<close>

lemma frame_part_waits:
  assumes "wire_format (e_wire E)" and "w_conns w c = Some x" and "in_ok x"
    and q: "in_queue x @ r = frame (e_wire E) i m" "r \<noteq> []" and len: "length (frame (e_wire E) i m) \<le> BUFSIZE"
  shows "arrived_loop E c w = Some (Inr w)"
proof -
  define p where "p = Message_Serialize (e_wire E) m"
  define n where "n = length p"
  have f: "frame (e_wire E) i m = (le16 i @ le32 (of_nat n)) @ p"
    by (simp add: frame_def n_def p_def wire_format.Message_size [OF assms(1)])
  have "n < 2 ^ 31 - 6" using len unfolding f by (simp add: n_def BUFSIZE_def)
  moreover have "\<exists>rest. in_queue x = le16 i @ le32 (of_nat n) @ rest \<and> length rest < n" if "6 \<le> length (in_queue x)"
  proof (intro exI conjI)
    have l: "length (le16 i @ le32 (of_nat n)) = 6" by simp
    have "take (length (in_queue x)) ((le16 i @ le32 (of_nat n)) @ p) = in_queue x" by (metis f q(1) append_eq_conv_conj)
    with that l show "in_queue x = le16 i @ le32 (of_nat n) @ take (length (in_queue x) - 6) p"
      by (simp add: take_append)
    have "length (in_queue x) + length r = 6 + n"
      using arg_cong [OF q(1), of length] by (simp add: f n_def)
    with q(2) that show "length (take (length (in_queue x) - 6) p) < n" by (cases r) (auto simp: n_def)
  qed
  ultimately show ?thesis
    using dispatch_incomplete [OF assms(2,3), of n i] by (metis not_less)
qed

text \<open>A connection that a frame can arrive on: alive, owned, with a \<open>Mod\<close> that is tied to it.\<close>

definition listening :: "'db world \<Rightarrow> nat \<Rightarrow> Conn \<Rightarrow> bool" where
  "listening w c x \<longleftrightarrow> w_alive w \<and> w_conns w c = Some x \<and> in_ok x \<and> cn_pstMod x = Some c \<and> owned w c"

lemma listening_set_conn:
  "listening w c x \<Longrightarrow> in_ok x' \<Longrightarrow> cn_pstMod x' = cn_pstMod x \<Longrightarrow> listening (set_conn c x' w) c x'"
  by (simp add: listening_def set_conn_def owned_def)

lemma unpin_pin: "owned w c \<Longrightarrow> unpin c (w\<lparr>w_pins := c # w_pins w\<rparr>) = w"
  by (simp add: unpin_def release_def)

lemma recv_runs_loop:
  assumes "listening w c x" and "length (in_queue x) + length bs \<le> BUFSIZE"
  shows "\<exists>x'. in_put bs x = Inr x' \<and> in_queue x' = in_queue x @ bs \<and> listening (set_conn c x' w) c x'
    \<and> Conn_RecvCallback E (RecvData bs) c w =
      map_option (\<lambda>r. rbind r (\<lambda>w. Inr (unpin c w)))
        (arrived_loop E c ((set_conn c x' w)\<lparr>w_pins := c # w_pins w\<rparr>))"
proof -
  obtain x' where x': "in_put bs x = Inr x'" "in_ok x'" "in_queue x' = in_queue x @ bs"
      "x' = x\<lparr>cn_iInBufferSize := cn_iInBufferSize x', cn_stInBuffer := cn_stInBuffer x'\<rparr>"
    using in_put_fits [OF _ assms(2)] assms(1) by (auto simp: listening_def)
  have "cn_pstMod x' = cn_pstMod x" by (subst x'(4)) simp
  moreover have "take dwLength bs = bs" using assms(2) by (simp add: BUFSIZE_def dwLength_def)
  ultimately show ?thesis using x' assms(1)
    by (auto simp: Conn_RecvCallback_def Mod_HandleArrivedMsg_def conn_lock_def listening_def set_conn_def owned_def)
qed

lemma recv_part:
  assumes "wire_format (e_wire E)" and "listening w c x"
    and q: "in_queue x @ bs @ r = frame (e_wire E) i m" "r \<noteq> []" and len: "length (frame (e_wire E) i m) \<le> BUFSIZE"
  shows "\<exists>x'. in_put bs x = Inr x' \<and> in_queue x' = in_queue x @ bs \<and> listening (set_conn c x' w) c x'
    \<and> Conn_RecvCallback E (RecvData bs) c w = Some (Inr (set_conn c x' w))"
proof -
  have "length (in_queue x) + length bs \<le> BUFSIZE" using len arg_cong [OF q(1), of length] by simp
  from recv_runs_loop [OF assms(2) this, of E] obtain x' where x': "in_put bs x = Inr x'"
      "in_queue x' = in_queue x @ bs" "listening (set_conn c x' w) c x'"
      "Conn_RecvCallback E (RecvData bs) c w = map_option (\<lambda>r. rbind r (\<lambda>w. Inr (unpin c w)))
        (arrived_loop E c ((set_conn c x' w)\<lparr>w_pins := c # w_pins w\<rparr>))" by blast
  let ?w = "(set_conn c x' w)\<lparr>w_pins := c # w_pins (set_conn c x' w)\<rparr>"
  have "arrived_loop E c ?w = Some (Inr ?w)"
    using x'(2,3) q by (intro frame_part_waits [OF assms(1) _ _ _ _ len, where r = r and x = x'])
      (simp_all add: listening_def)
  with x'(1-3) show ?thesis
    using x'(4) unpin_pin [of "set_conn c x' w" c] by (simp add: listening_def set_conn_def)
qed

section \<open>All segments\<close>

lemma segments_join:
  assumes "wire_format (e_wire E)" and "listening w c x"
    and "in_queue x @ concat bss @ bs = frame (e_wire E) i m" "bs \<noteq> []" and "length (frame (e_wire E) i m) \<le> BUFSIZE"
  shows "recv_all E c (bss @ [bs]) w = Conn_RecvCallback E (RecvData (concat bss @ bs)) c w"
  using assms(2,3)
proof (induction bss arbitrary: w x)
  case Nil
  then show ?case by (simp split: option.split sum.split)
next
  case (Cons b bss)
  have "in_queue x @ b @ (concat bss @ bs) = frame (e_wire E) i m" using Cons.prems(2) by simp
  from recv_part [OF assms(1) Cons.prems(1) this _ assms(5)] assms(4) obtain x' where x': "in_put b x = Inr x'"
      "in_queue x' = in_queue x @ b" "listening (set_conn c x' w) c x'"
      "Conn_RecvCallback E (RecvData b) c w = Some (Inr (set_conn c x' w))" by auto
  have "recv_all E c (bss @ [bs]) (set_conn c x' w) =
      Conn_RecvCallback E (RecvData (concat bss @ bs)) c (set_conn c x' w)"
    using Cons.IH [OF x'(3)] Cons.prems(2) x'(2) by simp
  moreover have "in_put (concat bss @ bs) x' = in_put (b @ concat bss @ bs) x"
    using in_put_append [OF _ x'(1)] Cons.prems(1) by (simp add: listening_def)
  moreover have "take dwLength (concat bss @ bs) = concat bss @ bs"
      "take dwLength (b @ concat bss @ bs) = b @ concat bss @ bs"
    using arg_cong [OF Cons.prems(2), of length] assms(5) by (simp_all add: BUFSIZE_def dwLength_def del: take_append)
  ultimately show ?case
    using x'(3,4) Cons.prems(1)
    by (auto simp: Conn_RecvCallback_def listening_def set_conn_def split: sum.split)
qed

context network
begin

text \<open>After the one frame in the buffer, the loop ends.\<close>

lemma arrived_loop_single:
  assumes x: "w_conns w c = Some x" "in_ok x" and pin: "c \<in> set (w_pins w)"
    and q: "in_queue x = frame (e_wire E) i m" and id: "msg_id m = Some i" and plain: "Message_plain (e_wire E) m"
  shows "\<exists>x'. in_ok x' \<and> in_queue x' = []
    \<and> x' = x\<lparr>cn_iInBufferSize := cn_iInBufferSize x', cn_stInBuffer := cn_stInBuffer x'\<rparr>
    \<and> arrived_loop E c w = Some (rbind (ModApi_Proc E c (int (unat i mod 256) - 1) m (set_conn c x' w))
        (\<lambda>w. rbind (arrived_finish c w) (\<lambda>(go, w). Inr w)))"
proof -
  let ?h = "\<lambda>x'. ModApi_Proc E c (int (unat i mod 256) - 1) m (set_conn c x' w)"
  have "in_queue x = frame (e_wire E) i m @ []" using q by simp
  from arrived_step_frame [OF wire x this id plain] obtain x' where x': "in_ok x'" "in_queue x' = []"
      "x' = x\<lparr>cn_iInBufferSize := cn_iInBufferSize x', cn_stInBuffer := cn_stInBuffer x'\<rparr>"
      "arrived_step E c w = Some (rbind (?h x') (arrived_finish c))"
    by (simp only: list.size zero_le simp_thms if_True) blast
  have idle: "g \<and> arrived_loop E c w2 = Some (Inr w2)"
    if "?h x' = Inr w1" "arrived_finish c w1 = Inr (g, w2)" for w1 g w2
  proof -
    have "wstep E (set_conn c x' w) w1" by (rule stepsD [OF steps_Proc that(1)])
    moreover have "wstep E w1 w2" and g
      using that(2) steps_Conn_channel [of E w1 c]
      by (auto simp: arrived_finish_def with_conn_def rbind_Inr_iff Conn_EnableWrite_def Conn_DisableWrite_def steps_def
          split: option.splits if_splits)
    ultimately have "wstep E (set_conn c x' w) w2" by (blast intro: wstep_trans)
    then obtain x2 where x2: "w_conns w2 c = Some x2" "same_in x' x2"
      using wstep_pinned [of E "set_conn c x' w" w2 c x'] pin by (auto simp: set_conn_def)
    then have "in_ok x2" "in_queue x2 = []" using x'(1,2) by (simp_all add: same_in_def in_ok_def in_queue_def)
    then show ?thesis using dispatch_incomplete [OF x2(1), of 0 0 "[]" E] \<open>g\<close> by simp
  qed
  have "arrived_loop E c w = Some (rbind (?h x') (\<lambda>w. rbind (arrived_finish c w) (\<lambda>(go, w). Inr w)))"
  proof (cases "rbind (?h x') (arrived_finish c)")
    case (Inl e)
    then have "rbind (?h x') (\<lambda>w. rbind (arrived_finish c w) (\<lambda>(go, w). Inr w)) = Inl e"
      by (cases "?h x'") (auto split: prod.split)
    with Inl show ?thesis by (subst arrived_loop.simps) (simp add: x'(4))
  next
    case (Inr gw)
    then obtain w1 g w2 where "?h x' = Inr w1" "arrived_finish c w1 = Inr (g, w2)" "gw = (g, w2)"
      by (cases gw) (auto simp: rbind_Inr_iff)
    with idle show ?thesis by (subst arrived_loop.simps) (simp add: x'(4))
  qed
  with x'(1-3) show ?thesis by blast
qed

lemma segments_arrive:
  assumes l: "listening w c x"
    and q: "in_queue x @ concat bss = frame (e_wire E) i m" and ne: "bss \<noteq> []" "[] \<notin> set bss"
    and len: "length (frame (e_wire E) i m) \<le> BUFSIZE" and id: "msg_id m = Some i" and plain: "Message_plain (e_wire E) m"
  shows "\<exists>x'. in_ok x' \<and> in_queue x' = []
    \<and> x' = x\<lparr>cn_iInBufferSize := cn_iInBufferSize x', cn_stInBuffer := cn_stInBuffer x'\<rparr>
    \<and> recv_all E c bss w =
        Some (rbind (ModApi_Proc E c (int (unat i mod 256) - 1) m ((set_conn c x' w)\<lparr>w_pins := c # w_pins w\<rparr>))
          (\<lambda>w. rbind (arrived_finish c w) (\<lambda>(go, w). Inr (unpin c w))))"
proof -
  obtain a b where ab: "bss = a @ [b]" using ne(1) by (metis rev_exhaust)
  have all: "in_queue x @ (concat a @ b) = frame (e_wire E) i m" "b \<noteq> []" using q ne(2) by (auto simp: ab)
  have "length (in_queue x) + length (concat a @ b) \<le> BUFSIZE" using len arg_cong [OF all(1), of length] by simp
  from recv_runs_loop [OF l this, of E] obtain x1 where x1: "in_queue x1 = in_queue x @ concat a @ b"
      "in_put (concat a @ b) x = Inr x1" "listening (set_conn c x1 w) c x1"
      "Conn_RecvCallback E (RecvData (concat a @ b)) c w = map_option (\<lambda>r. rbind r (\<lambda>w. Inr (unpin c w)))
        (arrived_loop E c ((set_conn c x1 w)\<lparr>w_pins := c # w_pins w\<rparr>))" by blast
  let ?w = "(set_conn c x1 w)\<lparr>w_pins := c # w_pins w\<rparr>"
  have "w_conns ?w c = Some x1" "in_ok x1" "c \<in> set (w_pins ?w)" "in_queue x1 = frame (e_wire E) i m"
    using x1(1,3) all(1) by (simp_all add: listening_def)
  from arrived_loop_single [OF this id plain] obtain x' where x': "in_ok x'" "in_queue x' = []"
      "x' = x1\<lparr>cn_iInBufferSize := cn_iInBufferSize x', cn_stInBuffer := cn_stInBuffer x'\<rparr>"
      "arrived_loop E c ?w = Some (rbind (ModApi_Proc E c (int (unat i mod 256) - 1) m (set_conn c x' ?w))
        (\<lambda>w. rbind (arrived_finish c w) (\<lambda>(go, w). Inr w)))" by blast
  have "x1 = x\<lparr>cn_iInBufferSize := cn_iInBufferSize x1, cn_stInBuffer := cn_stInBuffer x1\<rparr>"
    using x1(2) by (auto simp: in_put_def rbind_Inr_iff)
  then have "x' = x\<lparr>cn_iInBufferSize := cn_iInBufferSize x', cn_stInBuffer := cn_stInBuffer x'\<rparr>"
    using x'(3) by (cases x; cases x1; cases x') simp
  moreover have "set_conn c x' ?w = (set_conn c x' w)\<lparr>w_pins := c # w_pins w\<rparr>" by (simp add: set_conn_def)
  moreover have "recv_all E c bss w = Conn_RecvCallback E (RecvData (concat a @ b)) c w"
    unfolding ab using segments_join [OF wire l all len] by simp
  ultimately show ?thesis
    using x'(1,2) x1(4) x'(4) by (intro exI [of _ x']) (simp add: rbind_assoc split_def)
qed

end

text \<open>
  C10. Frames survive any segmentation. Let the frame of a known message reach a live connection in
  any sequence of non-empty segments, the first ones possibly already in its buffer. Then the
  callbacks of all segments together call the handler of the message exactly once, with exactly
  the message that was sent, in the state before the first segment but for the input buffer,
  which is then empty; after the handler they set the interest in writing and return.
\<close>

theorem segments_deliver:
  assumes "network E" and "listening w c x"
    and "in_queue x @ concat bss = frame (e_wire E) i m" and "bss \<noteq> []" and "[] \<notin> set bss"
    and "length (frame (e_wire E) i m) \<le> BUFSIZE" and "msg_id m = Some i" and "Message_plain (e_wire E) m"
  shows "\<exists>x'. in_ok x' \<and> in_queue x' = []
    \<and> x' = x\<lparr>cn_iInBufferSize := cn_iInBufferSize x', cn_stInBuffer := cn_stInBuffer x'\<rparr>
    \<and> recv_all E c bss w =
        Some (rbind (ModApi_Proc E c (int (unat i mod 256) - 1) m ((set_conn c x' w)\<lparr>w_pins := c # w_pins w\<rparr>))
          (\<lambda>w. rbind (arrived_finish c w) (\<lambda>(go, w). Inr (unpin c w))))"
  by (rule network.segments_arrive [OF assms])

theorem segments_deliver_witness:
  "let f = frame leb_wire 258 (handshake_reply True) in
   \<exists>w'. recv_all calm_env 0 [take 1 f, take 4 (drop 1 f), drop 5 f] calm_world = Some (Inr w')
     \<and> w_server w' = w_server calm_world"
proof -
  let ?f = "frame leb_wire 258 (handshake_reply True)"
  let ?bss = "[take 1 ?f, take 4 (drop 1 ?f), drop 5 ?f]"
  have "concat ?bss = ?f" "[] \<notin> set ?bss" "length ?f \<le> BUFSIZE" "Message_plain leb_wire (handshake_reply True)"
    by code_simp+
  moreover have "listening calm_world 0 calm_conn" by (simp add: listening_def owned_def)
  moreover have "msg_id (handshake_reply True) = Some 258" by (simp add: handshake_reply_def)
  ultimately obtain x' where x': "x' = calm_conn\<lparr>cn_iInBufferSize := cn_iInBufferSize x', cn_stInBuffer := cn_stInBuffer x'\<rparr>"
      "recv_all calm_env 0 ?bss calm_world =
        Some (rbind (ModApi_Proc calm_env 0 1 (handshake_reply True) ((set_conn 0 x' calm_world)\<lparr>w_pins := [0]\<rparr>))
          (\<lambda>w. rbind (arrived_finish 0 w) (\<lambda>(go, w). Inr (unpin 0 w))))"
    using segments_deliver [OF calm.network_axioms, of calm_world 0 calm_conn ?bss 258 "handshake_reply True"] by auto
  have "cn_iOutBufferSize x' = 0" by (subst x'(1)) simp
  then show ?thesis
    using x'(2)
    by (auto simp: Let_def ModApi_Proc_def ModApi_HandshakeR_def handshake_reply_def arrived_finish_def with_conn_def
        set_conn_def Conn_DisableWrite_def Conn_channel_def unpin_def release_def owned_def emit_def split: prod.splits)
qed

end
