(* ===== verification/Raft_Tcp.thy ===== *)
theory Raft_Tcp
  imports Raft_Leader Net_Segments
begin

text \<open>
  Replication over the bytes on the wire: the leader's \<open>SendAppendEntries\<close> hands a frame to the
  socket, the follower receives it in any segments, and its answer comes back to the leader in any
  segments. Both connections are then as idle as they were.
\<close>

section \<open>What sending leaves alone\<close>

definition same_but_out :: "Conn \<Rightarrow> Conn \<Rightarrow> bool" where
  "same_but_out x x' \<longleftrightarrow>
     x' = x\<lparr>cn_stOutBuffer := cn_stOutBuffer x', cn_iOutBufferSize := cn_iOutBufferSize x'\<rparr>"

lemma same_but_out_trans: "same_but_out x y \<Longrightarrow> same_but_out y z \<Longrightarrow> same_but_out x z"
  by (cases x; cases y; cases z) (simp add: same_but_out_def)

lemma push_frame_out: "push_frame W i m x = Inr x' \<Longrightarrow> same_but_out x x'"
  by (auto simp: push_frame_def Let_def rbind_Inr_iff same_but_out_def)

lemma out_consume_out: "out_consume b k x = Inr x' \<Longrightarrow> same_but_out x x'"
  by (auto simp: out_consume_def Let_def rbind_Inr_iff same_but_out_def split: if_splits)

lemma send_frame_out:
  assumes "send_frame E c i m w = Inr w'" and "w_conns w c = Some x"
  shows "\<exists>x'. w_conns w' = (w_conns w)(c \<mapsto> x') \<and> same_but_out x x' \<and> w_pins w' = w_pins w \<and> w_alive w' = w_alive w"
proof -
  obtain x1 where x1: "push_frame (e_wire E) i m x = Inr x1" "flush_out E c x1 w = Inr w'"
    using assms by (auto simp: send_frame_def with_conn_def rbind_Inr_iff)
  from x1(2) obtain x2 where "w_conns w' = (w_conns w)(c \<mapsto> x2)" "same_but_out x1 x2" "w_pins w' = w_pins w" "w_alive w' = w_alive w"
    by (auto simp: flush_out_def Let_def set_conn_def emit_def rbind_Inr_iff same_but_out_def
        dest: out_consume_out split: if_splits)
  with same_but_out_trans [OF push_frame_out [OF x1(1)]] show ?thesis by blast
qed

lemma same_but_out_in:
  assumes "same_but_out x x'"
  shows "in_ok x' = in_ok x" "in_queue x' = in_queue x" "cn_pstMod x' = cn_pstMod x"
  using assms by (cases x; cases x'; simp add: same_but_out_def in_ok_def in_queue_def)+

text \<open>What ties a connection to its descriptor, its proxy and the callbacks of its channel.\<close>

definition wiring :: "Conn \<Rightarrow> int \<times> u32 option \<times> bool \<times> tied_object option \<times> callback option \<times> u32" where
  "wiring x = (cn_iFd x, cn_pstProxy x, ch_bIsServerChannel (cn_pstChannel x), ch_pstConn (cn_pstChannel x),
     ch_stReadCallback (cn_pstChannel x), ch_iRevents (cn_pstChannel x))"

lemma wiring_in [simp]: "wiring (x\<lparr>cn_iInBufferSize := n, cn_stInBuffer := b\<rparr>) = wiring x"
  by (simp add: wiring_def)

lemma wiring_out: "same_but_out x x' \<Longrightarrow> wiring x' = wiring x"
  by (cases x; cases x'; simp add: same_but_out_def wiring_def)

lemma wiringD: "wiring x' = wiring x \<Longrightarrow> cn_iFd x' = cn_iFd x \<and> cn_pstProxy x' = cn_pstProxy x"
  by (simp add: wiring_def)

text \<open>The bytes that the socket of a descriptor has taken.\<close>

fun accepted :: "int \<Rightarrow> effect \<Rightarrow> bytes" where
  "accepted fd (SendCall fd' bs n) = (if fd' = fd then take (nat n) bs else [])"
| "accepted fd _ = []"

definition sent_bytes :: "int \<Rightarrow> effect list \<Rightarrow> bytes" where
  "sent_bytes fd tr = concat (map (accepted fd) tr)"

lemma sent_bytes_simps [simp]:
  "sent_bytes fd [] = []" "sent_bytes fd (e # tr) = accepted fd e @ sent_bytes fd tr"
  "sent_bytes fd (tr @ tr') = sent_bytes fd tr @ sent_bytes fd tr'"
  by (simp_all add: sent_bytes_def)

text \<open>A connection with nothing under way; sockets that take what they are offered; bytes cut into segments.\<close>

definition idle_conn :: "'db world \<Rightarrow> nat \<Rightarrow> Conn \<Rightarrow> bool" where
  "idle_conn w c x \<longleftrightarrow> listening w c x \<and> out_ok x \<and> in_queue x = [] \<and> out_queue x = []"

definition eager_send :: "'db env \<Rightarrow> bool" where
  "eager_send E \<longleftrightarrow> (\<forall>n fd bs. e_send E n fd bs = int (length bs))"

definition segments :: "bytes \<Rightarrow> bytes list \<Rightarrow> bool" where
  "segments bs bss \<longleftrightarrow> concat bss = bs \<and> bss \<noteq> [] \<and> [] \<notin> set bss"

lemma send_frame_eager:
  assumes net: "network E" and down: "e_memcpy_down E" and eager: "eager_send E"
    and x: "w_conns w c = Some x" "out_ok x" and s: "send_frame E c i m w = Inr w'"
  defines "q \<equiv> out_queue x @ frame (e_wire E) i m"
  shows "\<exists>x'. w_conns w' = (w_conns w)(c \<mapsto> x') \<and> same_but_out x x' \<and> out_ok x' \<and> out_queue x' = []
    \<and> w_pins w' = w_pins w \<and> w_alive w' = w_alive w \<and> w_server w' = w_server w
    \<and> w_trace w' = w_trace w @ [SendCall (cn_iFd x) q (int (length q))]"
proof -
  have "length (out_queue x) + length (frame (e_wire E) i m) \<le> BUFSIZE"
    using push_frame_eq [OF network.wire [OF net] x(2), of i m] s x(1)
    by (auto simp: send_frame_def with_conn_def split: if_splits)
  from network.send_frame_fits [OF net down x this] obtain x1 where x1: "w_conns w' = (w_conns w)(c \<mapsto> x1)" "out_ok x1"
      "out_queue x1 = []" "w_server w' = w_server w" "w_trace w' = w_trace w @ [SendCall (cn_iFd x) q (int (length q))]"
    using s eager by (auto simp: q_def eager_send_def)
  obtain x' where x': "w_conns w' = (w_conns w)(c \<mapsto> x')" "same_but_out x x'" "w_pins w' = w_pins w" "w_alive w' = w_alive w"
    using send_frame_out [OF s x(1)] by blast
  have "x' = x1" using x1(1) x'(1) by (metis fun_upd_same option.inject)
  with x1 x' show ?thesis by blast
qed

section \<open>What the handler of a follower leaves alone\<close>

definition same_conns :: "'db world \<Rightarrow> 'db world \<Rightarrow> bool" where
  "same_conns w w' \<longleftrightarrow> w_conns w' = w_conns w \<and> w_pins w' = w_pins w \<and> w_alive w' = w_alive w
     \<and> s_stConns (w_server w') = s_stConns (w_server w)
     \<and> (\<forall>fd. sent_bytes fd (w_trace w') = sent_bytes fd (w_trace w))"

lemma same_conns_refl [simp]: "same_conns w w"
  by (simp add: same_conns_def)

lemma same_conns_trans: "same_conns u v \<Longrightarrow> same_conns v w \<Longrightarrow> same_conns u w"
  by (simp add: same_conns_def)

lemma same_conns_on_server:
  "on_server f w = Inr w' \<Longrightarrow> (\<And>s s'. f s = Inr s' \<Longrightarrow> s_stConns s' = s_stConns s) \<Longrightarrow> same_conns w w'"
  by (auto simp: on_server_def same_conns_def rbind_Inr_iff split: if_splits)

lemma same_conns_calls:
  "Conn_Server_BecomeFollower w = Inr w' \<Longrightarrow> same_conns w w'"
  "Conn_Server_SetTerm E t w = Inr w' \<Longrightarrow> same_conns w w'"
  "Conn_Server_DelLogsFromIndex E i w = Inr w' \<Longrightarrow> same_conns w w'"
  "Conn_Server_AppendCfgLog E h p n w = Inr w' \<Longrightarrow> same_conns w w'"
  "Conn_Server_SetCommitIndex j w = Inr w' \<Longrightarrow> same_conns w w'"
  by (auto simp: Conn_Server_BecomeFollower_def Conn_Server_SetTerm_def Conn_Server_DelLogsFromIndex_def
      Conn_Server_AppendCfgLog_def Conn_Server_SetCommitIndex_def RaftServer_BecomeFollower_def
      RaftServer_SetCommitIndex_def DelLogsFromIndex_frame conns_frame elim!: same_conns_on_server)

lemma same_conns_FreshTime: "Conn_Server_FreshTime t w = Inr w' \<Longrightarrow> same_conns w w'"
  by (auto simp: Conn_Server_FreshTime_def RaftServer_FreshTime_def Timer_FreshTime_def same_conns_def emit_def Let_def
      split: prod.splits option.splits if_splits)

lemma same_conns_terms: "aeq_terms E p w = Inr (b, w') \<Longrightarrow> same_conns w w'"
  by (auto simp: aeq_terms_def rbind_Inr_iff intro: same_conns_trans same_conns_calls split: if_splits)

lemma same_conns_conflicts: "aeq_conflicts E i es w = Inr (es', w') \<Longrightarrow> same_conns w w'"
  by (induction E i es w arbitrary: es' w' rule: aeq_conflicts.induct)
    (auto simp: rbind_Inr_iff intro: same_conns_trans same_conns_calls split: if_splits)

lemma same_conns_append: "aeq_append E es w = Inr w' \<Longrightarrow> same_conns w w'"
  unfolding aeq_append_def
  by (induction es arbitrary: w)
    (auto simp: rbind_Inr_iff aeq_append_one_def intro: same_conns_trans same_conns_calls split: if_splits)

lemma same_conns_body: "aeq_body E p w = Inr (r, w') \<Longrightarrow> same_conns w w'"
  by (auto simp: aeq_body_def Let_def rbind_Inr_iff split: if_splits prod.splits
      intro: same_conns_trans dest!: same_conns_terms same_conns_conflicts same_conns_append same_conns_FreshTime)

lemma AppendEntriesQ_conn:
  assumes "network E" and "e_memcpy_down E" and "eager_send E" and x: "w_conns w c = Some x" "out_ok x"
    and q: "ModApi_AppendEntriesQ E c p w = Inr w'"
  shows "\<exists>x'. w_conns w' = (w_conns w)(c \<mapsto> x') \<and> same_but_out x x' \<and> out_ok x' \<and> out_queue x' = []
    \<and> w_pins w' = w_pins w \<and> w_alive w' = w_alive w \<and> s_stConns (w_server w') = s_stConns (w_server w)
    \<and> (\<exists>tr q. w_trace w' = tr @ [SendCall (cn_iFd x) q (int (length q))]
         \<and> (\<forall>fd. sent_bytes fd tr = sent_bytes fd (w_trace w)))"
proof -
  obtain r w1 w2 where w1: "aeq_body E p w = Inr (r, w1)" "aeq_commit p w1 = Inr w2"
      and w2: "Mod_HandlePreSendMsg E c 260 (M_appendentries_r (r\<lparr>ar_term := Conn_Server_CurrentTerm w2\<rparr>)) w2 = Inr w'"
    using q x(1) by (auto simp: ModApi_AppendEntriesQ_def conn_lock_def rbind_Inr_iff)
  have "same_conns w1 w2" using w1(2) by (auto simp: aeq_commit_def Let_def intro: same_conns_calls split: if_splits)
  with same_conns_body [OF w1(1)] have s: "same_conns w w2" by (rule same_conns_trans)
  with x have x2: "w_conns w2 c = Some x" by (simp add: same_conns_def)
  with w2 have "send_frame E c 260 (M_appendentries_r (r\<lparr>ar_term := Conn_Server_CurrentTerm w2\<rparr>)) w2 = Inr w'"
    by (simp add: Mod_HandlePreSendMsg_def conn_lock_def)
  from send_frame_eager [OF assms(1-3) x2 x(2) this] s show ?thesis by (auto simp: same_conns_def)
qed

section \<open>The end of a callback\<close>

text \<open>It returns, and leaves the server and the buffers of the connection as they are.\<close>

lemma arrived_finish_conn:
  assumes "w_conns w c = Some x"
  shows "\<exists>w' ch. arrived_finish c w = Inr (True, w') \<and> w_server w' = w_server w \<and> w_alive w' = w_alive w
    \<and> w_pins w' = w_pins w \<and> (\<forall>fd. sent_bytes fd (w_trace w') = sent_bytes fd (w_trace w))
    \<and> w_conns w' = (w_conns w)(c \<mapsto> x\<lparr>cn_pstChannel := ch\<rparr>) \<and> wiring (x\<lparr>cn_pstChannel := ch\<rparr>) = wiring x"
proof -
  have ch: "\<exists>w' ch. Conn_channel c f w = Inr w' \<and> w_server w' = w_server w \<and> w_alive w' = w_alive w
      \<and> w_pins w' = w_pins w \<and> (\<forall>fd. sent_bytes fd (w_trace w') = sent_bytes fd (w_trace w))
      \<and> w_conns w' = (w_conns w)(c \<mapsto> x\<lparr>cn_pstChannel := ch\<rparr>) \<and> wiring (x\<lparr>cn_pstChannel := ch\<rparr>) = wiring x"
    if op: "channel_op f g" for f g
  proof -
    obtain ch eff where f: "f (cn_pstChannel x) = (ch, eff)" by fastforce
    have "accepted fd e = []" if "e \<in> set eff" for fd e
      using channel_op.call_only_ctl [OF op, of e "cn_pstChannel x"] that f by auto
    then have "sent_bytes fd eff = []" for fd by (simp add: sent_bytes_def)
    with f assms channel_op.call_frame [OF op, of "cn_pstChannel x"] show ?thesis
      by (auto simp: Conn_channel_def with_conn_def set_conn_def emit_def wiring_def)
  qed
  consider "cn_iOutBufferSize x > 0" | "cn_iOutBufferSize x = 0" | "cn_iOutBufferSize x < 0" by linarith
  then show ?thesis
  proof cases
    case 1
    with ch [OF ew.channel_op_axioms] assms show ?thesis
      by (auto simp: arrived_finish_def with_conn_def Conn_EnableWrite_def)
  next
    case 2
    with ch [OF dw.channel_op_axioms] assms show ?thesis
      by (auto simp: arrived_finish_def with_conn_def Conn_DisableWrite_def)
  next
    case 3
    with assms show ?thesis
      by (intro exI [of _ w] exI [of _ "cn_pstChannel x"]) (simp add: arrived_finish_def with_conn_def fun_upd_idem)
  qed
qed

text \<open>With the pin gone, a connection that the server's map or another pin holds is still there.\<close>

lemma finish_unpin:
  assumes x: "w_conns v c = Some x" and pins: "w_pins v = c # ps"
    and held: "c \<in> set ps \<or> c \<in> snd ` set (s_stConns (w_server v))"
  shows "\<exists>w' ch. rbind (arrived_finish c v) (\<lambda>(go, w). Inr (unpin c w)) = Inr w' \<and> w_server w' = w_server v
    \<and> w_alive w' = w_alive v \<and> w_pins w' = ps \<and> (\<forall>fd. sent_bytes fd (w_trace w') = sent_bytes fd (w_trace v))
    \<and> w_conns w' = (w_conns v)(c \<mapsto> x\<lparr>cn_pstChannel := ch\<rparr>) \<and> wiring (x\<lparr>cn_pstChannel := ch\<rparr>) = wiring x"
proof -
  obtain w1 ch where w1: "arrived_finish c v = Inr (True, w1)" "w_server w1 = w_server v" "w_alive w1 = w_alive v"
      "w_pins w1 = w_pins v" "\<forall>fd. sent_bytes fd (w_trace w1) = sent_bytes fd (w_trace v)" "w_conns w1 = (w_conns v)(c \<mapsto> x\<lparr>cn_pstChannel := ch\<rparr>)"
      "wiring (x\<lparr>cn_pstChannel := ch\<rparr>) = wiring x"
    using arrived_finish_conn [OF x] by blast
  have "unpin c w1 = w1\<lparr>w_pins := ps\<rparr>"
    using held w1(2,4) pins by (simp add: unpin_def release_def owned_def)
  with w1 show ?thesis by auto
qed

lemma idle_channel: "idle_conn w c x \<Longrightarrow> w_server w' = w_server w \<Longrightarrow> w_alive w' = w_alive w \<Longrightarrow> w_pins w' = w_pins w \<Longrightarrow>
   w_conns w' c = Some (x\<lparr>cn_pstChannel := ch\<rparr>) \<Longrightarrow> idle_conn w' c (x\<lparr>cn_pstChannel := ch\<rparr>)"
  by (simp add: idle_conn_def listening_def owned_def in_ok_def in_queue_def out_ok_def out_queue_def)

section \<open>One message each way\<close>

lemma leader_sends:
  assumes net: "network E" and down: "e_memcpy_down E" and eager: "eager_send E"
    and lr: "leader_ready k c i w" and idle: "idle_conn w c x"
    and p: "om_find i (s_stProxys (w_server w)) = Some (Some p)" and m: "build_appendentries (w_server w) p = Inr m"
    and fits: "length (frame (e_wire E) 259 (M_appendentries_q m)) \<le> BUFSIZE"
  defines "q \<equiv> frame (e_wire E) 259 (M_appendentries_q m)"
  shows "\<exists>w' x'. Conn_SendAppendEntries E c h g w = Inr w' \<and> w_server w' = w_server w
    \<and> w_conns w' = (w_conns w)(c \<mapsto> x') \<and> w_pins w' = w_pins w \<and> w_trace w' = w_trace w @ [SendCall (cn_iFd x) q (int (length q))]
    \<and> leader_ready k c i w' \<and> idle_conn w' c x' \<and> wiring x' = wiring x"
proof -
  have x: "w_conns w c = Some x" "out_ok x" "out_queue x = []" "w_alive w" "cn_pstProxy x = Some i"
    using idle lr by (auto simp: idle_conn_def listening_def leader_ready_def)
  obtain w' where w': "send_frame E c 259 (M_appendentries_q m) w = Inr w'"
    using network.send_frame_fits [OF net down x(1,2), of 259 "M_appendentries_q m"] fits x(3) by auto
  from send_frame_eager [OF net down eager x(1,2) w'] obtain x' where x': "w_conns w' = (w_conns w)(c \<mapsto> x')"
      "same_but_out x x'" "out_ok x'" "out_queue x' = []" "w_pins w' = w_pins w" "w_alive w' = w_alive w"
      "w_server w' = w_server w" "w_trace w' = w_trace w @ [SendCall (cn_iFd x) q (int (length q))]"
    by (auto simp: q_def x(3))
  note wire = wiring_out [OF x'(2)]
  have "idle_conn w' c x'"
    using idle x' same_but_out_in [OF x'(2)] by (auto simp: idle_conn_def listening_def owned_def)
  moreover have "leader_ready k c i w'" using lr x' x(5) wiringD [OF wire] by (simp add: leader_ready_def)
  moreover have "proxy_lock (w_server w) (cn_pstProxy x) = Some p" using p x(5) by (simp add: proxy_lock_def)
  then have "Conn_SendAppendEntries E c h g w = Inr w'"
    using x(1,4) m w' by (simp add: Conn_SendAppendEntries_def with_conn_def)
  ultimately show ?thesis using x'(1,5,7,8) wire by blast
qed

lemma next_entries_subset: "set (next_entries k es) \<subseteq> set es"
  by (cases es) (auto simp: next_entries_def)

lemma build_plain:
  assumes "p_ulNextIndex p = p_ulMatchIndex p + 1" and "unat (p_ulMatchIndex p) = k" and "k < 2 ^ 31"
    and "length (s_stEntries s) < 2 ^ 31" and "list_all (entry_plain W) (s_stEntries s)"
    and "build_appendentries s p = Inr m"
  shows "Message_plain W (M_appendentries_q m)"
proof -
  have "m = appendentries_q_SharedCtor\<lparr>aq_term := s_dwCurrentTerm s, aq_prelogindex := of_nat k,
      aq_prelogterm := term_at k (s_stEntries s), aq_leadercommit := s_dwCommitIndex s,
      aq_entries := next_entries k (s_stEntries s)\<rparr>"
    using build_appendentries_eq [OF assms(1-4)] assms(6) by simp
  moreover have "list_all (entry_plain W) (next_entries k (s_stEntries s))"
    using assms(5) next_entries_subset [of k "s_stEntries s"] by (auto simp: list_all_iff)
  ultimately show ?thesis by (simp add: appendentries_q_SharedCtor_def entry_plain_def [abs_def])
qed

lemma follower_receives:
  assumes cs: "calm_store E" and net: "network E" and down: "e_memcpy_down E" and eager: "eager_send E"
    and own: "list_all (own_entry (s_dwCurrentTerm s)) (s_stEntries s)" and len: "length (s_stEntries s) < 2 ^ 31"
    and kl: "k < length (s_stEntries s) \<or> k = 0"
    and p: "p_ulNextIndex p = p_ulMatchIndex p + 1" "unat (p_ulMatchIndex p) = k"
    and m: "build_appendentries s p = Inr m" "Message_plain (e_wire E) (M_appendentries_q m)"
      "length (frame (e_wire E) 259 (M_appendentries_q m)) \<le> BUFSIZE"
    and fr: "follower_ready k (s_dwCurrentTerm s) (s_stEntries s) w" and idle: "idle_conn w c x"
    and seg: "segments (frame (e_wire E) 259 (M_appendentries_q m)) bss"
    and room: "length (frame (e_wire E) 260 (M_appendentries_r (reply (s_dwCurrentTerm s) k (s_stEntries s)))) \<le> BUFSIZE"
  defines "q \<equiv> frame (e_wire E) 260 (M_appendentries_r (reply (s_dwCurrentTerm s) k (s_stEntries s)))"
  shows "\<exists>w' x'. recv_all E c bss w = Some (Inr w')
    \<and> follower_ready (next_match k (s_stEntries s)) (s_dwCurrentTerm s) (s_stEntries s) w' \<and> idle_conn w' c x' \<and> wiring x' = wiring x
    \<and> s_dwCommitIndex (w_server w') = next_commit k (s_stEntries s) (s_dwCommitIndex s) (s_dwCommitIndex (w_server w))
    \<and> sent_bytes (cn_iFd x) (w_trace w') = sent_bytes (cn_iFd x) (w_trace w) @ q"
proof -
  have l: "listening w c x" and x: "w_conns w c = Some x" "out_ok x" "in_queue x = []" "out_queue x = []" "owned w c"
      "w_alive w" "cn_pstMod x = Some c"
    using idle by (auto simp: idle_conn_def listening_def)
  obtain x' where x': "in_ok x'" "in_queue x' = []" "x' = x\<lparr>cn_iInBufferSize := cn_iInBufferSize x', cn_stInBuffer := cn_stInBuffer x'\<rparr>"
      "recv_all E c bss w = Some (rbind (ModApi_Proc E c 2 (M_appendentries_q m)
          ((set_conn c x' w)\<lparr>w_pins := c # w_pins w\<rparr>)) (\<lambda>w. rbind (arrived_finish c w) (\<lambda>(go, w). Inr (unpin c w))))"
    using network.segments_arrive [OF net l _ _ _ m(3) _ m(2), of bss] seg x(3) by (auto simp: segments_def)
  have out: "out_ok x'" "out_queue x' = []" "cn_iFd x' = cn_iFd x" "cn_pstMod x' = Some c" "wiring x' = wiring x"
    using x(2,4,7) by (subst x'(3), simp add: out_ok_def out_queue_def)+
  let ?v = "(set_conn c x' w)\<lparr>w_pins := c # w_pins w\<rparr>"
  have v: "follower_ready k (s_dwCurrentTerm s) (s_stEntries s) ?v" "w_conns ?v c = Some x'"
    using fr by (simp_all add: follower_ready_def set_conn_def)
  obtain m' v1 j pre where "build_appendentries s p = Inr m'" "ModApi_AppendEntriesQ E c m' ?v = Inr v1"
      "follower_ready (next_match k (s_stEntries s)) (s_dwCurrentTerm s) (s_stEntries s) v1"
      "s_dwCommitIndex (w_server v1) = next_commit k (s_stEntries s) (s_dwCommitIndex s) (s_dwCommitIndex (w_server ?v))"
      "w_trace v1 = w_trace ?v @ pre @ [SendCall (cn_iFd x') q (e_send E j (cn_iFd x') q)]"
    using follower_round [OF cs net down own len kl p v out(1) refl] room out(2)
    by (auto simp: q_def)
  then have v1: "ModApi_AppendEntriesQ E c m ?v = Inr v1" "follower_ready (next_match k (s_stEntries s)) (s_dwCurrentTerm s) (s_stEntries s) v1"
      "w_trace v1 = w_trace w @ pre @ [SendCall (cn_iFd x) q (int (length q))]"
      "s_dwCommitIndex (w_server v1) = next_commit k (s_stEntries s) (s_dwCommitIndex s) (s_dwCommitIndex (w_server w))"
    using m(1) eager out(3) by (simp_all add: eager_send_def set_conn_def)
  from AppendEntriesQ_conn [OF net down eager v(2) out(1) v1(1)] obtain x1 where
      x1: "w_conns v1 c = Some x1" "same_but_out x' x1" "out_ok x1" "out_queue x1 = []" "w_pins v1 = c # w_pins w"
      "s_stConns (w_server v1) = s_stConns (w_server w)"
      "sent_bytes (cn_iFd x) (w_trace v1) = sent_bytes (cn_iFd x) (w_trace w) @ q"
    using v1(3) out(3) by (auto simp: set_conn_def)
  have "c \<in> set (w_pins w) \<or> c \<in> snd ` set (s_stConns (w_server v1))" using x(5) x1(6) by (simp add: owned_def)
  from finish_unpin [OF x1(1,5) this] obtain w' ch where
      w': "rbind (arrived_finish c v1) (\<lambda>(go, w). Inr (unpin c w)) = Inr w'" "w_server w' = w_server v1"
      "w_alive w' = w_alive v1" "w_pins w' = w_pins w" "\<forall>fd. sent_bytes fd (w_trace w') = sent_bytes fd (w_trace v1)"
      "w_conns w' c = Some (x1\<lparr>cn_pstChannel := ch\<rparr>)" "wiring (x1\<lparr>cn_pstChannel := ch\<rparr>) = wiring x1"
    by auto
  have "idle_conn (w'\<lparr>w_conns := (w_conns w')(c \<mapsto> x1)\<rparr>) c x1"
    using x1 x'(1,2) same_but_out_in [OF x1(2)] out(4) x(5) v1(2) w'(2-4)
    by (simp add: idle_conn_def listening_def owned_def follower_ready_def)
  from idle_channel [OF this] w'(6) have "idle_conn w' c (x1\<lparr>cn_pstChannel := ch\<rparr>)" by simp
  moreover have "recv_all E c bss w = Some (Inr w')" using x'(4) v1(1) w'(1) by (simp add: ModApi_Proc_def)
  moreover have "follower_ready (next_match k (s_stEntries s)) (s_dwCurrentTerm s) (s_stEntries s) w'"
    using v1(2) w'(2,3) by (simp add: follower_ready_def)
  moreover have "wiring (x1\<lparr>cn_pstChannel := ch\<rparr>) = wiring x" using w'(7) wiring_out [OF x1(2)] out(5) by simp
  moreover have "sent_bytes (cn_iFd x) (w_trace w') = sent_bytes (cn_iFd x) (w_trace w) @ q" using w'(5) x1(7) by simp
  moreover note v1(4) [folded w'(2)]
  ultimately show ?thesis by blast
qed

lemma leader_receives:
  assumes net: "network E" and down: "e_memcpy_down E"
    and lr: "leader_ready k c i w" and idle: "idle_conn w c x"
    and p: "om_find i (s_stProxys (w_server w)) = Some (Some p)" and s: "w_server w = s"
    and seg: "segments (frame (e_wire E) 260 (M_appendentries_r (reply (s_dwCurrentTerm s) k (s_stEntries s)))) bss"
    and room: "length (frame (e_wire E) 260 (M_appendentries_r (reply (s_dwCurrentTerm s) k (s_stEntries s)))) \<le> BUFSIZE"
  shows "\<exists>w' x' b. recv_all E c bss w = Some (Inr w') \<and> leader_ready (next_match k (s_stEntries s)) c i w'
    \<and> idle_conn w' c x' \<and> wiring x' = wiring x \<and> w_conns w' = (w_conns w)(c \<mapsto> x') \<and> w_pins w' = w_pins w
    \<and> RaftServer_ChangeCommitIndex (credited k (s_stEntries s) i p s) = Inr (b, w_server w')
    \<and> w_server w' = (credited k (s_stEntries s) i p s)\<lparr>s_dwCommitIndex := s_dwCommitIndex (w_server w')\<rparr>"
proof -
  let ?r = "reply (s_dwCurrentTerm s) k (s_stEntries s)" and ?k = "next_match k (s_stEntries s)"
  have l: "listening w c x" and x: "w_conns w c = Some x" "in_queue x = []" "owned w c" "cn_pstProxy x = Some i"
    using idle lr by (auto simp: idle_conn_def listening_def leader_ready_def)
  have plain: "Message_plain (e_wire E) (M_appendentries_r ?r)" by (simp add: reply_def appendentries_r_SharedCtor_def)
  obtain x' where x': "in_ok x'" "in_queue x' = []" "x' = x\<lparr>cn_iInBufferSize := cn_iInBufferSize x', cn_stInBuffer := cn_stInBuffer x'\<rparr>"
      "recv_all E c bss w = Some (rbind (ModApi_Proc E c 3 (M_appendentries_r ?r)
          ((set_conn c x' w)\<lparr>w_pins := c # w_pins w\<rparr>)) (\<lambda>w. rbind (arrived_finish c w) (\<lambda>(go, w). Inr (unpin c w))))"
    using network.segments_arrive [OF net l _ _ _ room _ plain, of bss] seg x(2) by (auto simp: segments_def)
  have wx: "wiring x' = wiring x" by (subst x'(3)) simp
  have px: "cn_pstProxy x' = Some i" using wiringD [OF wx] x(4) by simp
  have "out_ok x'" "out_queue x' = []" "cn_pstMod x' = Some c"
    using idle by (subst x'(3), simp add: idle_conn_def listening_def out_ok_def out_queue_def)+
  then have idle': "idle_conn (set_conn c x' w) c x'"
    using idle x'(1,2) by (simp add: idle_conn_def listening_def set_conn_def owned_def)
  let ?v = "(set_conn c x' w)\<lparr>w_pins := c # w_pins w\<rparr>"
  have "leader_ready k c i ?v" "om_find i (s_stProxys (w_server ?v)) = Some (Some p)"
    using lr px p by (simp_all add: leader_ready_def set_conn_def)
  from leader_ready_reply [OF this, where E = E] obtain b s' where
      cc: "RaftServer_ChangeCommitIndex (credited k (s_stEntries s) i p s) = Inr (b, s')"
        "s' = (credited k (s_stEntries s) i p s)\<lparr>s_dwCommitIndex := s_dwCommitIndex s'\<rparr>"
      and v1: "ModApi_AppendEntriesR E c ?r ?v = Inr (?v\<lparr>w_server := s'\<rparr>)" "leader_ready ?k c i (?v\<lparr>w_server := s'\<rparr>)"
    by (auto simp: set_conn_def s)
  have sc: "s_stConns s' = s_stConns (w_server w)" by (subst cc(2)) (simp add: credited_def s)
  then have "c \<in> set (w_pins w) \<or> c \<in> snd ` set (s_stConns (w_server (?v\<lparr>w_server := s'\<rparr>)))"
    using x(3) by (simp add: owned_def)
  moreover have "w_conns (?v\<lparr>w_server := s'\<rparr>) c = Some x'" "w_pins (?v\<lparr>w_server := s'\<rparr>) = c # w_pins w"
    by (simp_all add: set_conn_def)
  ultimately obtain w' ch where
      w': "rbind (arrived_finish c (?v\<lparr>w_server := s'\<rparr>)) (\<lambda>(go, w). Inr (unpin c w)) = Inr w'" "w_server w' = s'"
      "w_alive w' = w_alive w" "w_pins w' = w_pins w" "w_conns w' = (w_conns w)(c \<mapsto> x'\<lparr>cn_pstChannel := ch\<rparr>)"
      "wiring (x'\<lparr>cn_pstChannel := ch\<rparr>) = wiring x'"
    using finish_unpin [of "?v\<lparr>w_server := s'\<rparr>" c x' "w_pins w"] by (auto simp: set_conn_def)
  have lr': "leader_ready ?k c i w'"
    using v1(2) w'(2,3,5) px lr by (simp add: leader_ready_def)
  have "idle_conn (w'\<lparr>w_conns := (w_conns w')(c \<mapsto> x')\<rparr>) c x'"
    using idle' lr' sc w'(2,4) by (simp add: idle_conn_def listening_def owned_def leader_ready_def set_conn_def)
  from idle_channel [OF this] w'(5) have "idle_conn w' c (x'\<lparr>cn_pstChannel := ch\<rparr>)" by simp
  then show ?thesis
    using lr' x'(4) v1(1) w' wx cc by (intro exI [of _ w'] exI [of _ "x'\<lparr>cn_pstChannel := ch\<rparr>"] exI [of _ b]) (simp add: ModApi_Proc_def)
qed

end
