(* ===== verification/Raft_Rounds.thy ===== *)
theory Raft_Rounds
  imports Raft_Tcp Event_Loop
begin

text \<open>
  Messages in the event loop: the rounds in which the segments of a message arrive at a process, one
  segment per round, and what they make of a follower. Sizes that fit into the buffers.
\<close>

section \<open>Rounds in which bytes arrive\<close>

definition arrival :: "bytes \<Rightarrow> input" where
  "arrival bs = \<lparr>i_recv = RecvData bs, i_connect = ConnectFailed, i_accept = None\<rparr>"

fun recv_rounds :: "'db env \<Rightarrow> nat \<Rightarrow> bytes list \<Rightarrow> 'db world \<Rightarrow> 'db world res option" where
  "recv_rounds E c [] w = Some (Inr w)"
| "recv_rounds E c (bs # bss) w =
     obind (EventLoop_round E [(Ch_Conn c, EPOLLIN, arrival bs)] w) (recv_rounds E c bss)"

lemma recv_rounds_runs: "recv_rounds E c bss w = Some (Inr w') \<Longrightarrow> runs E v w \<Longrightarrow> runs E v w'"
  by (induction bss arbitrary: w) (auto simp: obind_Inr_iff intro: runs.round)

text \<open>A connection whose channel calls \<open>RecvCallback\<close>, and the mark that \<open>FillActiveChannels\<close> leaves on it.\<close>

definition reads :: "nat \<Rightarrow> Conn \<Rightarrow> bool" where
  "reads c x \<longleftrightarrow> \<not> ch_bIsServerChannel (cn_pstChannel x) \<and> ch_pstConn (cn_pstChannel x) = Some (Tied_Conn c)
     \<and> ch_stReadCallback (cn_pstChannel x) = Some Bind_RecvCallback"

definition readable :: "Conn \<Rightarrow> Conn" where
  "readable x = x\<lparr>cn_pstChannel := (cn_pstChannel x)\<lparr>ch_iRevents := EPOLLIN\<rparr>\<rparr>"

lemma reads_wiring: "wiring x' = wiring x \<Longrightarrow> reads c x' = reads c x"
  by (simp add: reads_def wiring_def)

lemma readable_simps [simp]:
  "ch_iRevents (cn_pstChannel (readable x)) = EPOLLIN" "reads c (readable x) = reads c x"
  "in_ok (readable x) = in_ok x" "in_queue (readable x) = in_queue x" "out_ok (readable x) = out_ok x"
  "out_queue (readable x) = out_queue x" "cn_pstMod (readable x) = cn_pstMod x" "cn_iFd (readable x) = cn_iFd x"
  "cn_pstProxy (readable x) = cn_pstProxy x"
  by (simp_all add: readable_def reads_def in_ok_def in_queue_def out_ok_def out_queue_def)

lemma readable_idem: "ch_iRevents (cn_pstChannel x) = EPOLLIN \<Longrightarrow> readable x = x"
  by (simp add: readable_def)

lemma wiring_revents: "wiring x' = wiring (readable x) \<Longrightarrow> ch_iRevents (cn_pstChannel x') = EPOLLIN"
  by (simp add: wiring_def readable_def)

text \<open>One round is the callback, as long as the connection is still there and only readable behind it.\<close>

lemma recv_round_eq:
  assumes x: "w_conns w c = Some x" "reads c x"
    and cb: "Conn_RecvCallback E (RecvData bs) c (set_conn c (readable x) w) = Some (Inr w2)"
    and x2: "w_conns w2 c = Some x2" "ch_iRevents (cn_pstChannel x2) = EPOLLIN"
  shows "EventLoop_round E [(Ch_Conn c, EPOLLIN, arrival bs)] w = Some (Inr w2)"
proof -
  let ?w = "set_conn c (readable x) w"
  have fill: "EPoller_FillActiveChannels [(Ch_Conn c, EPOLLIN, arrival bs)] w = Inr ?w"
    using x(1) by (simp add: EPoller_FillActiveChannels_def readable_def)
  have y: "w_conns ?w c = Some (readable x)" by (simp add: set_conn_def)
  have idle: "fire E (arrival bs) (Ch_Conn c) EPOLLHUP f ?w = Some (Inr ?w)"
    "fire E (arrival bs) (Ch_Conn c) EPOLLERR f ?w = Some (Inr ?w)" for f
    using y by (simp_all add: fire_def event_masks)
  have "fire E (arrival bs) (Ch_Conn c) (EPOLLIN OR EPOLLPRI) ch_stReadCallback ?w = Some (Inr w2)"
    using y x(2) cb by (simp add: fire_def event_masks arrival_def reads_def readable_def)
  moreover have "fire E (arrival bs) (Ch_Conn c) EPOLLOUT ch_stWriteCallback w2 = Some (Inr w2)"
    using x2 by (simp add: fire_def event_masks)
  ultimately have "Channel_HandleEvent E (arrival bs) (Ch_Conn c) ?w = Some (Inr w2)"
    using y x(2) idle by (simp add: Channel_HandleEvent_def reads_def readable_def)
  then show ?thesis by (simp add: EventLoop_round_def fill)
qed

lemma recv_rounds_eq:
  assumes wf: "wire_format (e_wire E)" and l: "listening w c x" and r: "reads c x"
    and q: "in_queue x @ concat bss = frame (e_wire E) i m" "bss \<noteq> []" "[] \<notin> set bss"
    and len: "length (frame (e_wire E) i m) \<le> BUFSIZE"
    and all: "recv_all E c bss (set_conn c (readable x) w) = Some (Inr w')"
    and x': "w_conns w' c = Some x'" "ch_iRevents (cn_pstChannel x') = EPOLLIN"
  shows "recv_rounds E c bss w = Some (Inr w')"
  using l r q all
proof (induction bss arbitrary: w x)
  case (Cons b bss)
  let ?w = "set_conn c (readable x) w"
  have c: "w_conns w c = Some x" using Cons.prems(1) by (simp add: listening_def)
  show ?case
  proof (cases bss)
    case Nil
    with Cons.prems(6) have "Conn_RecvCallback E (RecvData b) c ?w = Some (Inr w')"
      by (auto split: option.splits sum.splits)
    from recv_round_eq [OF c Cons.prems(2) this x'] show ?thesis by (simp add: Nil)
  next
    case (Cons b2 bss2)
    have "listening ?w c (readable x)" using Cons.prems(1) by (auto simp: listening_def set_conn_def owned_def)
    moreover have "in_queue (readable x) @ b @ concat bss = frame (e_wire E) i m" "concat bss \<noteq> []"
      using Cons.prems(3,5) by (auto simp: Cons)
    ultimately obtain x1 where x1: "in_put b (readable x) = Inr x1" "in_queue x1 = in_queue (readable x) @ b"
        "listening (set_conn c x1 ?w) c x1" "Conn_RecvCallback E (RecvData b) c ?w = Some (Inr (set_conn c x1 ?w))"
      using recv_part [OF wf _ _ _ len] by blast
    have ch: "cn_pstChannel x1 = cn_pstChannel (readable x)" using x1(1) by (auto simp: in_put_def rbind_Inr_iff)
    then have rv: "readable x1 = x1" "reads c x1" using Cons.prems(2) by (auto simp: readable_def reads_def)
    have step: "EventLoop_round E [(Ch_Conn c, EPOLLIN, arrival b)] w = Some (Inr (set_conn c x1 ?w))"
      by (rule recv_round_eq [OF c Cons.prems(2) x1(4), of x1]) (simp add: set_conn_def, simp add: ch)
    have "set_conn c (readable x1) (set_conn c x1 ?w) = set_conn c x1 ?w" by (simp add: rv set_conn_def)
    then have "recv_rounds E c bss (set_conn c x1 ?w) = Some (Inr w')"
      using Cons.IH [OF x1(3) rv(2)] Cons.prems(3-6) x1(2,4) by (simp add: Cons)
    with step show ?thesis by simp
  qed
qed simp

lemma build_timers [simp]: "build_appendentries (s\<lparr>s_stTimers := T\<rparr>) p = build_appendentries s p"
  by (simp add: build_appendentries_def RaftServer_EntryTermByIndex_def RaftServer_LastEntryIndex_def
      RaftServer_EntryByIndex_def Let_def)

lemma find_put_timer [simp]: "find_timer k (put_timer k t w) = Some t"
  by (simp add: find_timer_def put_timer_def upd_server_def)

lemma put_timer_frame [simp]:
  "w_conns (put_timer k t w) = w_conns w" "w_alive (put_timer k t w) = w_alive w" "w_pins (put_timer k t w) = w_pins w"
  "w_trace (put_timer k t w) = w_trace w"
  "w_server (put_timer k t w) = (w_server w)\<lparr>s_stTimers := om_assign k (Some t) (s_stTimers (w_server w))\<rparr>"
  by (simp_all add: put_timer_def upd_server_def)

text \<open>Nothing else happens to an idle connection.\<close>

lemma idle_readable: "idle_conn w c x \<Longrightarrow> idle_conn (set_conn c (readable x) w) c (readable x)"
  by (simp add: idle_conn_def listening_def set_conn_def owned_def)

lemma recv_rounds_idle:
  assumes "network E" and "idle_conn w c x" and "reads c x" and "segments (frame (e_wire E) i m) bss"
    and "length (frame (e_wire E) i m) \<le> BUFSIZE"
    and "recv_all E c bss (set_conn c (readable x) w) = Some (Inr w')" and "idle_conn w' c x'" and "wiring x' = wiring (readable x)"
  shows "recv_rounds E c bss w = Some (Inr w') \<and> reads c x'"
proof
  show "reads c x'" using reads_wiring [OF assms(8), of c] assms(3) by simp
  show "recv_rounds E c bss w = Some (Inr w')"
    using assms(2,4,7) wiring_revents [OF assms(8)]
    by (intro recv_rounds_eq [OF network.wire [OF assms(1)] _ assms(3) _ _ _ assms(5,6), of x'])
      (auto simp: idle_conn_def listening_def segments_def)
qed

section \<open>Sizes\<close>

text \<open>
  A varint of a 32-bit number takes at most five bytes. A message with at most two entries of
  less than 700 bytes then fits into the buffers, and so does an answer.
\<close>

definition small_wire :: "wire \<Rightarrow> bool" where
  "small_wire W \<longleftrightarrow> (\<forall>v. UInt32Size W v \<le> 5)"

definition small_entry :: "wire \<Rightarrow> entry \<Rightarrow> bool" where
  "small_entry W e \<longleftrightarrow> entry_plain W e \<and> MessageSize W (entry_ByteSizeLong W e) < 700"

lemma small_field: "small_wire W \<Longrightarrow> (if v \<noteq> 0 then 1 + UInt32Size W v else 0) \<le> 6"
  by (simp add: small_wire_def)

lemma entries_small:
  "list_all (small_entry W) es \<Longrightarrow> sum_list (map (\<lambda>e. MessageSize W (entry_ByteSizeLong W e)) es) \<le> 699 * length es"
  by (induction es) (auto simp: small_entry_def)

lemma frame_length: "wire_format W \<Longrightarrow> length (frame W i m) = 6 + Message_ByteSize W m"
  by (simp add: frame_def wire_format.Message_size)

lemma query_fits:
  assumes wf: "wire_format W" and u: "small_wire W" and es: "list_all (small_entry W) (aq_entries m)"
    and n: "length (aq_entries m) \<le> 2" and un: "aq_unknown m = []"
  shows "length (frame W i (M_appendentries_q m)) \<le> BUFSIZE"
proof -
  have "appendentries_q_ByteSizeLong W m \<le> 2 + 699 * 2 + (6 + 6 + 6 + 6)"
    using entries_small [OF es] small_field [OF u, of "aq_term m"] small_field [OF u, of "aq_prelogindex m"]
      small_field [OF u, of "aq_prelogterm m"] small_field [OF u, of "aq_leadercommit m"] n
    unfolding appendentries_q_ByteSizeLong_def un by simp
  then show ?thesis unfolding frame_length [OF wf] by (simp add: BUFSIZE_def)
qed

lemma reply_fits:
  assumes "wire_format W" and "small_wire W"
  shows "length (frame W i (M_appendentries_r (reply t k es))) \<le> BUFSIZE"
  using small_field [OF assms(2), of t] unfolding frame_length [OF assms(1)]
  by (simp add: appendentries_r_ByteSizeLong_def reply_def appendentries_r_SharedCtor_def
      BUFSIZE_def split: if_splits)

lemma built_fits:
  assumes "wire_format W" and "small_wire W" and "p_ulNextIndex p = p_ulMatchIndex p + 1" and "unat (p_ulMatchIndex p) = k"
    and "k < 2 ^ 31" and "length (s_stEntries s) < 2 ^ 31" and es: "list_all (small_entry W) (s_stEntries s)"
    and m: "build_appendentries s p = Inr m"
  shows "length (frame W i (M_appendentries_q m)) \<le> BUFSIZE \<and> Message_plain W (M_appendentries_q m)"
proof
  have "list_all (entry_plain W) (s_stEntries s)" using es by (auto simp: list_all_iff small_entry_def)
  from build_plain [OF assms(3-6) this m] show "Message_plain W (M_appendentries_q m)" .
  have f: "aq_entries m = next_entries k (s_stEntries s)" "aq_unknown m = []"
    using build_appendentries_eq [OF assms(3-6)] m by (auto simp: appendentries_q_SharedCtor_def)
  have "list_all (small_entry W) (aq_entries m)"
    using es next_entries_subset [of k "s_stEntries s"] by (auto simp: f list_all_iff)
  moreover have "length (aq_entries m) \<le> 2" by (simp add: f next_entries_def)
  ultimately show "length (frame W i (M_appendentries_q m)) \<le> BUFSIZE"
    by (rule query_fits [OF assms(1,2) _ _ f(2)])
qed

section \<open>A message arrives at a follower\<close>

definition conn_fd :: "nat \<Rightarrow> 'db world \<Rightarrow> int" where
  "conn_fd c w = (case w_conns w c of None \<Rightarrow> - 1 | Some x \<Rightarrow> cn_iFd x)"

lemma conn_fd_eq [simp]: "w_conns w c = Some x \<Longrightarrow> conn_fd c w = cn_iFd x"
  by (simp add: conn_fd_def)

text \<open>The bytes that the socket of a connection has taken between two states.\<close>

definition new_bytes :: "nat \<Rightarrow> 'db world \<Rightarrow> 'db world \<Rightarrow> bytes" where
  "new_bytes c w w' = drop (length (sent_bytes (conn_fd c w) (w_trace w))) (sent_bytes (conn_fd c w) (w_trace w'))"

text \<open>A way to cut that loses nothing; a runtime and a network that serve all processes.\<close>

definition chops_well :: "(bytes \<Rightarrow> bytes list) \<Rightarrow> bool" where
  "chops_well chop \<longleftrightarrow> (\<forall>bs. bs \<noteq> [] \<longrightarrow> segments bs (chop bs))"

definition good_env :: "'db env \<Rightarrow> bool" where
  "good_env E \<longleftrightarrow> calm_store E \<and> network E \<and> e_memcpy_down E \<and> eager_send E \<and> small_wire (e_wire E)"

lemma frame_nonempty [simp]: "frame W i m \<noteq> []"
  by (simp add: frame_def le16_def)

text \<open>
  A follower that has the leader's entries up to \<open>k\<close>, and a connection on which nothing is under way.
\<close>

definition following :: "nat \<Rightarrow> u32 \<Rightarrow> entry list \<Rightarrow> nat \<Rightarrow> 'db world \<Rightarrow> bool" where
  "following k t es c w \<longleftrightarrow> follower_ready k t es w \<and> (\<exists>x. idle_conn w c x \<and> reads c x)"

lemma follower_rounds:
  assumes cs: "calm_store E" and net: "network E" and down: "e_memcpy_down E" and eager: "eager_send E"
    and own: "list_all (own_entry (s_dwCurrentTerm s)) (s_stEntries s)" and len: "length (s_stEntries s) < 2 ^ 31"
    and kl: "k < length (s_stEntries s) \<or> k = 0"
    and p: "p_ulNextIndex p = p_ulMatchIndex p + 1" "unat (p_ulMatchIndex p) = k"
    and m: "build_appendentries s p = Inr m" "Message_plain (e_wire E) (M_appendentries_q m)"
      "length (frame (e_wire E) 259 (M_appendentries_q m)) \<le> BUFSIZE"
    and fr: "follower_ready k (s_dwCurrentTerm s) (s_stEntries s) w" and idle: "idle_conn w c x" "reads c x"
    and seg: "segments (frame (e_wire E) 259 (M_appendentries_q m)) bss"
    and room: "length (frame (e_wire E) 260 (M_appendentries_r (reply (s_dwCurrentTerm s) k (s_stEntries s)))) \<le> BUFSIZE"
  defines "q \<equiv> frame (e_wire E) 260 (M_appendentries_r (reply (s_dwCurrentTerm s) k (s_stEntries s)))"
  shows "\<exists>w'. recv_rounds E c bss w = Some (Inr w')
    \<and> following (next_match k (s_stEntries s)) (s_dwCurrentTerm s) (s_stEntries s) c w'
    \<and> s_dwCommitIndex (w_server w') = next_commit k (s_stEntries s) (s_dwCommitIndex s) (s_dwCommitIndex (w_server w))
    \<and> sent_bytes (cn_iFd x) (w_trace w') = sent_bytes (cn_iFd x) (w_trace w) @ q"
proof -
  let ?w = "set_conn c (readable x) w"
  have fr': "follower_ready k (s_dwCurrentTerm s) (s_stEntries s) ?w" using fr by (simp add: follower_ready_def set_conn_def)
  obtain w' x' where w': "recv_all E c bss ?w = Some (Inr w')"
      "follower_ready (next_match k (s_stEntries s)) (s_dwCurrentTerm s) (s_stEntries s) w'" "idle_conn w' c x'"
      "wiring x' = wiring (readable x)"
      "s_dwCommitIndex (w_server w') = next_commit k (s_stEntries s) (s_dwCommitIndex s) (s_dwCommitIndex (w_server ?w))"
      "sent_bytes (cn_iFd (readable x)) (w_trace w') = sent_bytes (cn_iFd (readable x)) (w_trace ?w) @ q"
    using follower_receives [OF cs net down eager own len kl p m fr' idle_readable [OF idle(1)] seg room]
    unfolding q_def by blast
  from recv_rounds_idle [OF net idle seg m(3) w'(1,3,4)] w'(2,3,5,6) show ?thesis
    by (auto simp: following_def set_conn_def)
qed

end
