(* ===== verification/Raft_Peers.thy ===== *)
theory Raft_Peers
  imports Raft_Rounds
begin

text \<open>
  A leader and its nodes: the state in which nothing is under way, the round in which the leader's timer
  fires and sends to every node, the rounds in which a message reaches a node and the rounds in which its
  answer comes back, with what they make of match indices and commit indices.
\<close>

section \<open>A leader and its followers\<close>

definition fires :: "Timer \<Rightarrow> bool" where
  "fires t \<longleftrightarrow> \<not> ch_bIsServerChannel (t_pstChannel t) \<and> ch_pstConn (t_pstChannel t) = Some (Tied_Timer LeaderHeartbeatTimer)
     \<and> ch_stReadCallback (t_pstChannel t) = Some Bind_SendAppendEntriesCallback"

text \<open>
  Nodes are named by their ids, as the leader's map of proxies has them. \<open>K i\<close> is the match index of node \<open>i\<close>,
  \<open>C i\<close> the leader's connection to it; \<open>conn_fd\<close> is a connection's descriptor.
\<close>

definition lead_server :: "(u32 \<Rightarrow> nat) \<Rightarrow> 'db RaftServer \<Rightarrow> bool" where
  "lead_server K s \<longleftrightarrow> srv_inv s \<and> acks_bounded s \<and> length (s_stEntries s) < 2 ^ 31
     \<and> list_all (own_entry (s_dwCurrentTerm s)) (s_stEntries s) \<and> unat (s_dwCommitIndex s) < length (s_stEntries s)
     \<and> (\<forall>i p. om_find i (s_stProxys s) = Some (Some p) \<longrightarrow> unat (p_ulMatchIndex p) = K i)"

definition nodes :: "'db world \<Rightarrow> u32 list" where
  "nodes w = map fst (s_stProxys (w_server w))"

definition peer :: "'db world \<Rightarrow> nat \<Rightarrow> u32 \<Rightarrow> bool" where
  "peer w c i \<longleftrightarrow> (\<exists>x. idle_conn w c x \<and> reads c x \<and> cn_pstProxy x = Some i)"

definition leading :: "(u32 \<Rightarrow> nat) \<Rightarrow> (u32 \<Rightarrow> nat) \<Rightarrow> 'db world \<Rightarrow> bool" where
  "leading C K w \<longleftrightarrow> w_alive w \<and> lead_server K (w_server w) \<and> (\<forall>i \<in> set (nodes w). peer w (C i) i)
     \<and> (\<forall>i p. om_find i (s_stProxys (w_server w)) = Some (Some p) \<longrightarrow> p_pstConn p = Some (C i))
     \<and> inj_on (\<lambda>i. conn_fd (C i) w) (set (nodes w))
     \<and> (\<exists>t. find_timer LeaderHeartbeatTimer w = Some t \<and> fires t)"

lemma proxys_find: "srv_inv s \<Longrightarrow> i \<in> fst ` set (s_stProxys s) \<longleftrightarrow> (\<exists>p. om_find i (s_stProxys s) = Some (Some p))"
  using om_find_None_iff [of i "s_stProxys s"] srv_inv_find [of s i] by (metis not_None_eq)

lemma nodes_find: "srv_inv (w_server w) \<Longrightarrow> i \<in> set (nodes w) \<longleftrightarrow> (\<exists>p. om_find i (s_stProxys (w_server w)) = Some (Some p))"
  by (simp add: nodes_def proxys_find)

lemma leading_node:
  assumes "leading C K w" and "i \<in> set (nodes w)"
  obtains p x where "om_find i (s_stProxys (w_server w)) = Some (Some p)" and "p_pstConn p = Some (C i)"
    and "p_ulNextIndex p = p_ulMatchIndex p + 1" and "unat (p_ulMatchIndex p) = K i" and "p_stState p \<noteq> InActive"
    and "K i < length (s_stEntries (w_server w))"
    and "idle_conn w (C i) x" and "reads (C i) x" and "cn_pstProxy x = Some i" and "w_conns w (C i) = Some x"
    and "leader_ready (K i) (C i) i w"
proof -
  have inv: "srv_inv (w_server w)" using assms(1) by (simp add: leading_def lead_server_def)
  then obtain p where p: "om_find i (s_stProxys (w_server w)) = Some (Some p)" using assms(2) nodes_find by blast
  obtain x where x: "idle_conn w (C i) x" "reads (C i) x" "cn_pstProxy x = Some i" "w_conns w (C i) = Some x"
    using assms by (auto simp: leading_def peer_def idle_conn_def listening_def)
  with p assms(1) show ?thesis
    using that [OF p _ _ _ _ _ x] srv_inv_find [OF inv p]
    by (auto simp: leading_def lead_server_def leader_ready_def acks_bounded_def proxy_ok_def)
qed

text \<open>What a change at one connection, and at the server, leaves of it.\<close>

lemma leading_frame:
  assumes ld: "leading C K w" and i: "i \<in> set (nodes w)" and al: "w_alive w'" and pins: "w_pins w' = w_pins w"
    and conns: "s_stConns (w_server w') = s_stConns (w_server w)" "w_conns w' = (w_conns w)(C i \<mapsto> x')"
    and x': "idle_conn w' (C i) x'" "reads (C i) x'" "cn_pstProxy x' = Some i" "cn_iFd x' = conn_fd (C i) w"
    and s': "lead_server K' (w_server w')" "nodes w' = nodes w" "s_stTimers (w_server w') = s_stTimers (w_server w)"
    and p': "\<forall>j p. om_find j (s_stProxys (w_server w')) = Some (Some p) \<longrightarrow> p_pstConn p = Some (C j)"
  shows "leading C K' w' \<and> (\<forall>j. conn_fd (C j) w' = conn_fd (C j) w)"
proof
  show fd: "\<forall>j. conn_fd (C j) w' = conn_fd (C j) w" using conns(2) x'(4) by (auto simp: conn_fd_def)
  have "peer w' (C j) j" if j: "j \<in> set (nodes w)" for j
  proof (cases "j = i")
    case False
    then have "conn_fd (C j) w \<noteq> conn_fd (C i) w" using ld i j by (auto simp: leading_def dest: inj_onD)
    then have "C j \<noteq> C i" by auto
    moreover obtain x where "idle_conn w (C j) x" "reads (C j) x" "cn_pstProxy x = Some j"
      by (rule leading_node [OF ld j])
    ultimately show ?thesis
      using al pins conns by (auto simp: peer_def idle_conn_def listening_def owned_def intro!: exI [of _ x])
  qed (use x' in \<open>auto simp: peer_def\<close>)
  then show "leading C K' w'"
    using ld al s' p' fd by (simp add: leading_def find_timer_def)
qed

section \<open>The round in which the leader's timer fires\<close>

text \<open>The bytes of the leader's message for a node.\<close>

definition query :: "wire \<Rightarrow> u32 \<Rightarrow> 'db RaftServer \<Rightarrow> bytes" where
  "query W i s = (case om_find i (s_stProxys s) of
      Some (Some p) \<Rightarrow> (case build_appendentries s p of Inr m \<Rightarrow> frame W 259 (M_appendentries_q m) | Inl e \<Rightarrow> [])
    | _ \<Rightarrow> [])"

lemma leading_query:
  assumes E: "good_env E" and ld: "lead_server K s" and small: "list_all (small_entry (e_wire E)) (s_stEntries s)"
    and p: "om_find i (s_stProxys s) = Some (Some p)"
  obtains m where "build_appendentries s p = Inr m" and "query (e_wire E) i s = frame (e_wire E) 259 (M_appendentries_q m)"
    and "length (frame (e_wire E) 259 (M_appendentries_q m)) \<le> BUFSIZE" and "Message_plain (e_wire E) (M_appendentries_q m)"
proof -
  have s: "length (s_stEntries s) < 2 ^ 31" "p_ulNextIndex p = p_ulMatchIndex p + 1" "unat (p_ulMatchIndex p) = K i"
      "K i < length (s_stEntries s)"
    using ld p srv_inv_find [of s i "Some p"] by (auto simp: lead_server_def acks_bounded_def proxy_ok_def)
  then have kb: "K i < 2 ^ 31" by simp
  obtain m where m: "build_appendentries s p = Inr m" using build_appendentries_eq [OF s(2,3) kb s(1)] by auto
  have "wire_format (e_wire E)" "small_wire (e_wire E)" using E network.wire by (auto simp: good_env_def)
  from built_fits [OF this s(2,3) kb s(1) small m, of 259] m show ?thesis
    using that by (simp add: query_def p)
qed

lemma send_one:
  assumes E: "good_env E" and ld: "leading C K w" and i: "i \<in> set (nodes w)"
    and small: "list_all (small_entry (e_wire E)) (s_stEntries (w_server w))"
  shows "\<exists>w'. Conn_SendAppendEntries E (C i) h g w = Inr w' \<and> leading C K w' \<and> w_server w' = w_server w
    \<and> (\<forall>j. conn_fd (C j) w' = conn_fd (C j) w)
    \<and> (\<forall>fd. sent_bytes fd (w_trace w') =
         sent_bytes fd (w_trace w) @ (if fd = conn_fd (C i) w then query (e_wire E) i (w_server w) else []))"
proof -
  obtain p x where p: "om_find i (s_stProxys (w_server w)) = Some (Some p)" and x: "idle_conn w (C i) x" "reads (C i) x"
      "cn_pstProxy x = Some i" "w_conns w (C i) = Some x" and lr: "leader_ready (K i) (C i) i w"
    using leading_node [OF ld i] by metis
  have ls: "lead_server K (w_server w)" using ld by (simp add: leading_def)
  obtain m where m: "build_appendentries (w_server w) p = Inr m" "length (frame (e_wire E) 259 (M_appendentries_q m)) \<le> BUFSIZE"
      "query (e_wire E) i (w_server w) = frame (e_wire E) 259 (M_appendentries_q m)"
    using leading_query [OF E ls small p] by metis
  have env: "network E" "e_memcpy_down E" "eager_send E" using E by (simp_all add: good_env_def)
  from leader_sends [OF env lr x(1) p m(1,2), of h g] obtain w' x' where
      w': "Conn_SendAppendEntries E (C i) h g w = Inr w'" "w_server w' = w_server w" "w_conns w' = (w_conns w)(C i \<mapsto> x')"
      "w_pins w' = w_pins w" "leader_ready (K i) (C i) i w'" "idle_conn w' (C i) x'" "wiring x' = wiring x"
      "w_trace w' = w_trace w @ [SendCall (cn_iFd x) (query (e_wire E) i (w_server w)) (int (length (query (e_wire E) i (w_server w))))]"
    unfolding m(3) by blast
  have "leading C K w' \<and> (\<forall>j. conn_fd (C j) w' = conn_fd (C j) w)"
    using ld w' x wiringD [OF w'(7)] reads_wiring [OF w'(7)]
    by (intro leading_frame [OF ld i, of w' x']) (auto simp: leading_def nodes_def leader_ready_def)
  with w' x(4) show ?thesis by auto
qed

lemma broadcast_all:
  assumes "good_env E" and "leading C K w" and "list_all (small_entry (e_wire E)) (s_stEntries (w_server w))"
  shows "\<exists>w'. RaftServer_BroadCastAppendEntries E h w = Inr w' \<and> leading C K w' \<and> w_server w' = w_server w
    \<and> (\<forall>i \<in> set (nodes w). sent_bytes (conn_fd (C i) w) (w_trace w') =
         sent_bytes (conn_fd (C i) w) (w_trace w) @ query (e_wire E) i (w_server w))"
proof -
  define f where "f = (\<lambda>k w. case om_find k (s_stProxys (w_server w)) of
      Some (Some p) \<Rightarrow> if p_stState p = InActive then Inr w else RaftProxy_SendAppendEntries E p h w | _ \<Rightarrow> Inl NullDeref)"
  have "\<exists>w'. rfold f js w = Inr w' \<and> leading C K w' \<and> w_server w' = w_server w
      \<and> (\<forall>i \<in> set (nodes w). sent_bytes (conn_fd (C i) w) (w_trace w') =
           sent_bytes (conn_fd (C i) w) (w_trace w) @ (if i \<in> set js then query (e_wire E) i (w_server w) else []))"
    if "distinct js" "set js \<subseteq> set (nodes w)" for js
    using that assms(2,3)
  proof (induction js arbitrary: w)
    case (Cons j js)
    have j: "j \<in> set (nodes w)" "j \<notin> set js" using Cons.prems(1,2) by auto
    obtain w1 where w1: "Conn_SendAppendEntries E (C j) h False w = Inr w1" "leading C K w1" "w_server w1 = w_server w"
        "\<forall>i. conn_fd (C i) w1 = conn_fd (C i) w"
        "\<forall>fd. sent_bytes fd (w_trace w1) =
           sent_bytes fd (w_trace w) @ (if fd = conn_fd (C j) w then query (e_wire E) j (w_server w) else [])"
      using send_one [OF assms(1) Cons.prems(3) j(1) Cons.prems(4)] by blast
    obtain p x where "om_find j (s_stProxys (w_server w)) = Some (Some p)" "p_pstConn p = Some (C j)"
        "p_stState p \<noteq> InActive" "w_conns w (C j) = Some x"
      by (rule leading_node [OF Cons.prems(3) j(1)])
    then have "f j w = Inr w1" using w1(1) by (simp add: f_def RaftProxy_SendAppendEntries_def conn_lock_def)
    moreover have n1: "nodes w1 = nodes w" by (simp add: nodes_def w1(3))
    then obtain w' where w': "rfold f js w1 = Inr w'" "leading C K w'" "w_server w' = w_server w"
        "\<forall>i \<in> set (nodes w). sent_bytes (conn_fd (C i) w) (w_trace w') =
           sent_bytes (conn_fd (C i) w) (w_trace w1) @ (if i \<in> set js then query (e_wire E) i (w_server w) else [])"
      using Cons.IH [of w1] Cons.prems w1(2-4) by auto
    moreover have "conn_fd (C i) w = conn_fd (C j) w \<longleftrightarrow> i = j" if "i \<in> set (nodes w)" for i
      using Cons.prems(3) j(1) that by (auto simp: leading_def dest: inj_onD)
    ultimately show ?case using w1(5) j by (intro exI [of _ w']) auto
  qed auto
  moreover have "distinct (nodes w)"
    using assms(2) om.elements_distinct [of "s_stProxys (w_server w)"] by (simp add: nodes_def leading_def lead_server_def srv_inv_def)
  ultimately obtain w' where w': "rfold f (nodes w) w = Inr w'" "leading C K w'" "w_server w' = w_server w"
      "\<forall>i \<in> set (nodes w). sent_bytes (conn_fd (C i) w) (w_trace w') =
           sent_bytes (conn_fd (C i) w) (w_trace w) @ query (e_wire E) i (w_server w)"
    by fastforce
  moreover have "RaftServer_BroadCastAppendEntries E h w = rfold f (nodes w) w"
    by (simp add: RaftServer_BroadCastAppendEntries_def for_proxies_def f_def nodes_def)
  ultimately show ?thesis by auto
qed

lemma timer_round:
  assumes E: "good_env E" and ld: "leading C K w" and small: "list_all (small_entry (e_wire E)) (s_stEntries (w_server w))"
  shows "\<exists>w' T. EventLoop_round E [(Ch_Timer LeaderHeartbeatTimer, EPOLLIN, inp)] w = Some (Inr w') \<and> leading C K w'
    \<and> w_server w' = (w_server w)\<lparr>s_stTimers := T\<rparr>
    \<and> (\<forall>i \<in> set (nodes w). new_bytes (C i) w w' = query (e_wire E) i (w_server w))"
proof -
  let ?k = LeaderHeartbeatTimer
  obtain t where t: "find_timer ?k w = Some t" "fires t" and al: "w_alive w" using ld by (auto simp: leading_def)
  let ?t1 = "t\<lparr>t_pstChannel := (t_pstChannel t)\<lparr>ch_iRevents := EPOLLIN\<rparr>\<rparr>"
  let ?w1 = "put_timer ?k ?t1 w" and ?w2 = "emit [ReadTimerCall (t_iFd t)] (put_timer ?k (?t1\<lparr>t_bIsRun := True\<rparr>) (put_timer ?k ?t1 w))"
  have same: "nodes ?w2 = nodes w" "conn_fd c ?w2 = conn_fd c w" "query W i (w_server ?w2) = query W i (w_server w)"
      "sent_bytes fd (w_trace ?w2) = sent_bytes fd (w_trace w)" "find_timer ?k ?w2 = Some (?t1\<lparr>t_bIsRun := True\<rparr>)" for c W i fd
    by (simp_all add: emit_def nodes_def conn_fd_def query_def find_timer_def split: option.splits)
  have "leading C K ?w2"
    using ld t(2) unfolding leading_def same
    by (auto simp: lead_server_def acks_bounded_def srv_inv_def peer_def idle_conn_def listening_def owned_def fires_def emit_def)
  from broadcast_all [OF E this, of True] small obtain w3 where
      w3: "RaftServer_BroadCastAppendEntries E True ?w2 = Inr w3" "leading C K w3" "w_server w3 = w_server ?w2"
      "\<forall>i \<in> set (nodes w). sent_bytes (conn_fd (C i) w) (w_trace w3) =
         sent_bytes (conn_fd (C i) w) (w_trace w) @ query (e_wire E) i (w_server w)"
    unfolding same by (auto simp: emit_def)
  have t3: "find_timer ?k w3 = Some (?t1\<lparr>t_bIsRun := True\<rparr>)" using same(5) by (simp add: find_timer_def w3(3))
  have idle1: "fire E inp (Ch_Timer ?k) EPOLLHUP f ?w1 = Some (Inr ?w1)" "fire E inp (Ch_Timer ?k) EPOLLERR f ?w1 = Some (Inr ?w1)" for f
    by (simp_all add: fire_def event_masks)
  have "fire E inp (Ch_Timer ?k) (EPOLLIN OR EPOLLPRI) ch_stReadCallback ?w1 = Some (Inr w3)"
    using t(2) al w3(1) by (simp add: fire_def event_masks fires_def Timer_SendAppendEntriesCallback_def)
  moreover have "fire E inp (Ch_Timer ?k) EPOLLOUT ch_stWriteCallback w3 = Some (Inr w3)"
    using t3 by (simp add: fire_def event_masks)
  ultimately have "Channel_HandleEvent E inp (Ch_Timer ?k) ?w1 = Some (Inr w3)"
    using idle1 t(2) by (simp add: Channel_HandleEvent_def fires_def)
  then have "EventLoop_round E [(Ch_Timer ?k, EPOLLIN, inp)] w = Some (Inr w3)"
    by (simp add: EventLoop_round_def EPoller_FillActiveChannels_def t(1))
  moreover have "\<exists>T. w_server w3 = (w_server w)\<lparr>s_stTimers := T\<rparr>"
    by (rule exI [of _ "s_stTimers (w_server w3)"]) (simp add: w3(3) emit_def)
  ultimately show ?thesis using w3(2,4) by (auto simp: new_bytes_def)
qed

section \<open>A message and its answer\<close>

text \<open>The bytes of a follower's answer.\<close>

definition answer :: "wire \<Rightarrow> u32 \<Rightarrow> nat \<Rightarrow> entry list \<Rightarrow> bytes" where
  "answer W t k es = frame W 260 (M_appendentries_r (reply t k es))"

lemma follower_gets:
  assumes E: "good_env E" and ls: "lead_server K s" and small: "list_all (small_entry (e_wire E)) (s_stEntries s)"
    and p: "om_find i (s_stProxys s) = Some (Some p)" and chop: "chops_well chop"
    and fl: "following (K i) (s_dwCurrentTerm s) (s_stEntries s) d w"
  shows "\<exists>w'. recv_rounds E d (chop (query (e_wire E) i s)) w = Some (Inr w')
    \<and> following (next_match (K i) (s_stEntries s)) (s_dwCurrentTerm s) (s_stEntries s) d w'
    \<and> s_dwCommitIndex (w_server w') = next_commit (K i) (s_stEntries s) (s_dwCommitIndex s) (s_dwCommitIndex (w_server w))
    \<and> new_bytes d w w' = answer (e_wire E) (s_dwCurrentTerm s) (K i) (s_stEntries s)"
proof -
  have s: "list_all (own_entry (s_dwCurrentTerm s)) (s_stEntries s)" "length (s_stEntries s) < 2 ^ 31"
      "K i < length (s_stEntries s) \<or> K i = 0" "p_ulNextIndex p = p_ulMatchIndex p + 1" "unat (p_ulMatchIndex p) = K i"
    using ls p srv_inv_find [of s i "Some p"] by (auto simp: lead_server_def acks_bounded_def proxy_ok_def)
  obtain m where m: "build_appendentries s p = Inr m" "query (e_wire E) i s = frame (e_wire E) 259 (M_appendentries_q m)"
      "length (frame (e_wire E) 259 (M_appendentries_q m)) \<le> BUFSIZE" "Message_plain (e_wire E) (M_appendentries_q m)"
    by (rule leading_query [OF E ls small p])
  obtain x where x: "idle_conn w d x" "reads d x" "w_conns w d = Some x"
      and fr: "follower_ready (K i) (s_dwCurrentTerm s) (s_stEntries s) w"
    using fl by (auto simp: following_def idle_conn_def listening_def)
  have env: "calm_store E" "network E" "e_memcpy_down E" "eager_send E" "wire_format (e_wire E)" "small_wire (e_wire E)"
    using E network.wire by (auto simp: good_env_def)
  have seg: "segments (query (e_wire E) i s) (chop (query (e_wire E) i s))" using chop by (simp add: chops_well_def m(2))
  from follower_rounds [OF env(1-4) s m(1,4,3) fr x(1,2) seg [unfolded m(2)] reply_fits [OF env(5,6)]] x(3) show ?thesis
    by (auto simp: new_bytes_def answer_def m(2))
qed

text \<open>
  The leader's bookkeeping: the commit index never falls, stays within the log, and rises by one when all
  nodes have more than what is committed.
\<close>

definition majority :: "u32 list \<Rightarrow> u32 set \<Rightarrow> bool" where
  "majority ns L \<longleftrightarrow> L \<subseteq> set ns \<and> length ns < 2 * card L"

definition held :: "(u32 \<Rightarrow> nat) \<Rightarrow> u32 list \<Rightarrow> nat \<Rightarrow> bool" where
  "held K ns c \<longleftrightarrow> (\<exists>M. majority ns M \<and> (\<forall>j \<in> M. c \<le> K j))"

text \<open>
  How a commit index moves from \<open>c\<close> to \<open>c'\<close> when the nodes have the match indices \<open>K\<close>: up to an index that a majority
  holds, and by one at least while a majority holds more.
\<close>

definition commit_step :: "u32 list \<Rightarrow> (u32 \<Rightarrow> nat) \<Rightarrow> nat \<Rightarrow> nat \<Rightarrow> bool" where
  "commit_step ns K c c' \<longleftrightarrow> c \<le> c' \<and> (c' = c \<or> held K ns c')
     \<and> (\<forall>v L. majority ns L \<and> (\<forall>j \<in> L. v \<le> K j) \<longrightarrow> min v (c + 1) \<le> c')"

lemma held_mono: "held K ns c \<Longrightarrow> (\<And>j. K j \<le> K' j) \<Longrightarrow> held K' ns c"
  unfolding held_def by (meson le_trans)

lemma commit_step_trans:
  assumes "commit_step ns K c c1" and "commit_step ns K' c1 c2" and "\<And>j. K j \<le> K' j"
  shows "commit_step ns K' c c2"
proof -
  have "min v (c + 1) \<le> c2" if "min v (c1 + 1) \<le> c2" for v using that assms(1) by (auto simp: commit_step_def min_def split: if_splits)
  with assms held_mono [of K ns c1 K'] show ?thesis by (auto simp: commit_step_def)
qed

lemma acks_card:
  assumes "om_ok ps"
  shows "acks n ps = card {j. \<exists>p. om_find j ps = Some (Some p) \<and> n \<le> p_ulMatchIndex p}"
proof -
  let ?hit = "filter (\<lambda>(k, v). case v of None \<Rightarrow> False | Some p \<Rightarrow> n \<le> p_ulMatchIndex p) ps"
  have "distinct (map fst ?hit)"
    using om.elements_distinct [OF assms] by (rule distinct_map_filter)
  from distinct_card [OF this] have "length ?hit = card (fst ` set ?hit)" unfolding set_map length_map by (rule sym)
  moreover have "fst ` set ?hit = {j. \<exists>p. om_find j ps = Some (Some p) \<and> n \<le> p_ulMatchIndex p}"
    by (force simp: om_elements_find [OF assms] split: option.splits)
  ultimately show ?thesis by (simp add: acks_def)
qed

lemma lead_server_credited:
  assumes ls: "lead_server K s" and p: "om_find i (s_stProxys s) = Some (Some p)"
  defines "s1 \<equiv> credited (K i) (s_stEntries s) i p s"
  shows "lead_server (K(i := next_match (K i) (s_stEntries s))) s1 \<and> map fst (s_stProxys s1) = map fst (s_stProxys s)"
proof -
  have inv: "srv_inv s" "acks_bounded s" "length (s_stEntries s) < 2 ^ 31"
      "\<forall>i p. om_find i (s_stProxys s) = Some (Some p) \<longrightarrow> unat (p_ulMatchIndex p) = K i"
    using ls by (auto simp: lead_server_def)
  have ok: "om_ok (s_stProxys s)" "proxy_ok i (Some p)" "unat (p_ulMatchIndex p) = K i" using inv(1,4) p by (auto simp: srv_inv_def)
  have m: "unat (p_ulMatchIndex (credit p)) = K i + 1" if "K i + 1 < length (s_stEntries s)"
    using that inv(3) ok(3) by (simp add: credit_def unat_word_ariths)
  have "srv_inv s1" using inv(1) ok(2) by (auto simp: s1_def srv_inv_def credited_def proxy_ok_def credit_def)
  moreover have "acks_bounded s1" using inv(2) m p by (auto simp: s1_def acks_bounded_def credited_def)
  moreover have "map fst (s_stProxys s1) = map fst (s_stProxys s)" using om_assign_keys [OF ok(1) p] by (simp add: s1_def credited_def)
  ultimately show ?thesis
    using ls m ok(3) by (auto simp: lead_server_def s1_def credited_def next_match_def)
qed

lemma lead_server_commit:
  assumes ls: "lead_server K s" and cc: "RaftServer_ChangeCommitIndex s = Inr (b, s')"
      "s' = s\<lparr>s_dwCommitIndex := s_dwCommitIndex s'\<rparr>"
  shows "lead_server K s' \<and> commit_step (map fst (s_stProxys s)) K (unat (s_dwCommitIndex s)) (unat (s_dwCommitIndex s'))"
proof -
  let ?c = "unat (s_dwCommitIndex s)" and ?n = "ucast (s_dwCommitIndex s + 1) :: u64" and ?ns = "map fst (s_stProxys s)"
  have inv: "srv_inv s" "length (s_stEntries s) < 2 ^ 31" "list_all (own_entry (s_dwCurrentTerm s)) (s_stEntries s)"
      "?c < length (s_stEntries s)" "\<forall>i p. om_find i (s_stProxys s) = Some (Some p) \<longrightarrow> unat (p_ulMatchIndex p) = K i"
    using ls by (auto simp: lead_server_def)
  have nx: "unat (s_dwCommitIndex s + 1) = ?c + 1" using inv(2,4) by (simp add: unat_word_ariths)
  have own: "en_term (s_stEntries s ! j) = s_dwCurrentTerm s" if "j < length (s_stEntries s)" for j
    using inv(3) that by (simp add: list_all_length own_entry_def)
  let ?maj = "length (s_stProxys s) < 2 * acks ?n (s_stProxys s)"
  have c': "unat (s_dwCommitIndex s') = (if ?maj then ?c + 1 else ?c)" "?maj \<Longrightarrow> ?c + 1 < length (s_stEntries s)"
    using cc(1) own [of "?c + 1"] unfolding ChangeCommitIndex_eq [OF inv(1)] nx by (auto simp: nx split: if_splits)
  define M where "M = {j. \<exists>p. om_find j (s_stProxys s) = Some (Some p) \<and> ?n \<le> p_ulMatchIndex p}"
  have M: "acks ?n (s_stProxys s) = card M" using inv(1) acks_card by (auto simp: M_def srv_inv_def)
  have mem: "j \<in> M \<longleftrightarrow> j \<in> set ?ns \<and> ?c + 1 \<le> K j" for j
    using proxys_find [OF inv(1), of j] inv(5) nx by (auto simp: M_def word_le_nat_alt unat_ucast_u64)
  have h: "held K ?ns (?c + 1)" if ?maj using that M mem by (auto simp: held_def majority_def intro!: exI [of _ M])
  have maj: ?maj if L: "majority ?ns L" and all: "\<forall>j \<in> L. ?c + 1 \<le> K j" for L
  proof -
    have "L \<subseteq> M" using L all mem by (auto simp: majority_def)
    moreover have "finite M" using mem by (auto intro: finite_subset [of _ "set ?ns"])
    ultimately show ?thesis using L card_mono [of M L] M by (simp add: majority_def)
  qed
  have "lead_server K s'"
    using ls inv(4) c' by (subst cc(2)) (auto simp: lead_server_def acks_bounded_def srv_inv_def)
  moreover have "min v (?c + 1) \<le> unat (s_dwCommitIndex s')" if "majority ?ns L" "\<forall>j \<in> L. v \<le> K j" for v L
    using that maj c'(1) by (cases "?c + 1 \<le> v") (auto dest: le_trans)
  ultimately show ?thesis using c'(1) h by (auto simp: commit_step_def)
qed

lemma leader_gets:
  assumes E: "good_env E" and ld: "leading C K w" and i: "i \<in> set (nodes w)" and s: "w_server w = s" and chop: "chops_well chop"
  defines "K' \<equiv> K(i := next_match (K i) (s_stEntries s))"
  shows "\<exists>w'. recv_rounds E (C i) (chop (answer (e_wire E) (s_dwCurrentTerm s) (K i) (s_stEntries s))) w = Some (Inr w')
    \<and> leading C K' w' \<and> nodes w' = nodes w \<and> s_stEntries (w_server w') = s_stEntries s
    \<and> s_dwCurrentTerm (w_server w') = s_dwCurrentTerm s 
    \<and> commit_step (nodes w) K' (unat (s_dwCommitIndex s)) (unat (s_dwCommitIndex (w_server w')))"
proof -
  obtain p x where p: "om_find i (s_stProxys (w_server w)) = Some (Some p)" and x: "idle_conn w (C i) x" "reads (C i) x"
      "cn_pstProxy x = Some i" "w_conns w (C i) = Some x" and lr: "leader_ready (K i) (C i) i w"
    by (rule leading_node [OF ld i])
  have env: "network E" "e_memcpy_down E" "wire_format (e_wire E)" "small_wire (e_wire E)"
    using E network.wire by (auto simp: good_env_def)
  let ?w = "set_conn (C i) (readable x) w" and ?a = "answer (e_wire E) (s_dwCurrentTerm s) (K i) (s_stEntries s)"
  let ?s1 = "credited (K i) (s_stEntries s) i p s"
  have sv: "w_server ?w = s" by (simp add: set_conn_def s)
  have lr': "leader_ready (K i) (C i) i ?w" using lr x(3,4) by (simp add: leader_ready_def set_conn_def)
  have seg: "segments ?a (chop ?a)" using chop by (simp add: chops_well_def answer_def)
  note room = reply_fits [OF env(3,4), of 260 "s_dwCurrentTerm s" "K i" "s_stEntries s"]
  obtain w' x' b where w': "recv_all E (C i) (chop ?a) ?w = Some (Inr w')" "leader_ready (next_match (K i) (s_stEntries s)) (C i) i w'"
      "idle_conn w' (C i) x'" "wiring x' = wiring (readable x)" "w_conns w' = (w_conns ?w)(C i \<mapsto> x')" "w_pins w' = w_pins ?w"
      "RaftServer_ChangeCommitIndex ?s1 = Inr (b, w_server w')" "w_server w' = ?s1\<lparr>s_dwCommitIndex := s_dwCommitIndex (w_server w')\<rparr>"
    using leader_receives [OF env(1,2) lr' idle_readable [OF x(1)] _ sv seg [unfolded answer_def] room, of p] p
    unfolding sv s answer_def by blast
  have rr: "recv_rounds E (C i) (chop ?a) w = Some (Inr w')" "reads (C i) x'"
    using recv_rounds_idle [OF env(1) x(1,2) seg [unfolded answer_def] room w'(1) [unfolded answer_def] w'(3,4)]
    by (simp_all add: answer_def)
  have ls: "lead_server K s" "om_find i (s_stProxys s) = Some (Some p)" using ld p by (simp_all add: leading_def s)
  note s1 = lead_server_credited [OF ls, folded K'_def]
  note s2 = lead_server_commit [OF conjunct1 [OF s1] w'(7,8)]
  have eq: "s_stEntries (w_server w') = s_stEntries s" "s_dwCurrentTerm (w_server w') = s_dwCurrentTerm s"
      "s_stProxys (w_server w') = s_stProxys ?s1" "s_stConns (w_server w') = s_stConns s" "s_stTimers (w_server w') = s_stTimers s"
      "s_dwCommitIndex ?s1 = s_dwCommitIndex s"
    by ((subst w'(8))?, simp add: credited_def)+
  have n: "nodes w' = nodes w" using s1 by (simp add: nodes_def eq s)
  have "\<forall>j q. om_find j (s_stProxys (w_server w')) = Some (Some q) \<longrightarrow> p_pstConn q = Some (C j)"
    using ld ls(2) by (auto simp: eq credited_def credit_def leading_def s)
  then have "leading C K' w'"
    using w'(2-6) wiringD [OF w'(4)] rr(2) x(3,4) s2 eq n
    by (intro conjunct1 [OF leading_frame [OF ld i, of w' x']]) (auto simp: leader_ready_def set_conn_def s)
  moreover have "map fst (s_stProxys ?s1) = nodes w" using s1 by (simp add: nodes_def s)
  ultimately show ?thesis using rr(1) n eq s2 by auto
qed

end
