(* ===== verification/Raft_Cluster.thy ===== *)
theory Raft_Cluster
  imports Raft_Peers
begin

text \<open>
  A cluster of processes, each in its event loop. A step of the cluster is a firing of the leader's timer with all
  the rounds that follow from it in the processes that run; over many steps their logs and their commit
  indices converge.
\<close>

section \<open>Steps of the cluster\<close>

abbreviation commit_of :: "'db world \<Rightarrow> nat" where
  "commit_of w \<equiv> unat (s_dwCommitIndex (w_server w))"

text \<open>
  The state of a cluster is the leader's world and one world per node. A message reaches node \<open>i\<close> at its
  connection \<open>D i\<close>, in the segments that \<open>chop i\<close> makes of it, and the bytes that the node's socket takes
  meanwhile come back to the leader's connection \<open>C i\<close>, cut in the same way.
\<close>

definition deliver ::
  "'db env \<Rightarrow> (u32 \<Rightarrow> nat) \<Rightarrow> (u32 \<Rightarrow> nat) \<Rightarrow> (u32 \<Rightarrow> bytes \<Rightarrow> bytes list) \<Rightarrow> (u32 \<Rightarrow> bytes) \<Rightarrow> u32 \<Rightarrow>
   'db world \<times> (u32 \<Rightarrow> 'db world) \<Rightarrow> ('db world \<times> (u32 \<Rightarrow> 'db world)) res option" where
  "deliver E C D chop sent i ws =
     obind (recv_rounds E (D i) (chop i (sent i)) (snd ws i)) (\<lambda>wf.
     obind (recv_rounds E (C i) (chop i (new_bytes (D i) (snd ws i) wf)) (fst ws)) (\<lambda>wl.
       Some (Inr (wl, (snd ws)(i := wf)))))"

fun deliver_all ::
  "'db env \<Rightarrow> (u32 \<Rightarrow> nat) \<Rightarrow> (u32 \<Rightarrow> nat) \<Rightarrow> (u32 \<Rightarrow> bytes \<Rightarrow> bytes list) \<Rightarrow> (u32 \<Rightarrow> bytes) \<Rightarrow> u32 list \<Rightarrow>
   'db world \<times> (u32 \<Rightarrow> 'db world) \<Rightarrow> ('db world \<times> (u32 \<Rightarrow> 'db world)) res option" where
  "deliver_all E C D chop sent [] ws = Some (Inr ws)"
| "deliver_all E C D chop sent (i # is) ws = obind (deliver E C D chop sent i ws) (deliver_all E C D chop sent is)"

text \<open>
  One step: the timer fires in the leader's loop, then the nodes are served in the order \<open>is\<close>. The
  schedule of a step is this order and the way the bytes are cut.
\<close>

type_synonym schedule = "u32 list \<times> (u32 \<Rightarrow> bytes \<Rightarrow> bytes list)"

definition cluster_step ::
  "'db env \<Rightarrow> (u32 \<Rightarrow> nat) \<Rightarrow> (u32 \<Rightarrow> nat) \<Rightarrow> schedule \<Rightarrow>
   'db world \<times> (u32 \<Rightarrow> 'db world) \<Rightarrow> ('db world \<times> (u32 \<Rightarrow> 'db world)) res option" where
  "cluster_step E C D sch ws =
     obind (EventLoop_round E [(Ch_Timer LeaderHeartbeatTimer, EPOLLIN, arrival [])] (fst ws)) (\<lambda>wl.
       deliver_all E C D (snd sch) (\<lambda>i. new_bytes (C i) (fst ws) wl) (fst sch) (wl, snd ws))"

fun cluster_steps ::
  "'db env \<Rightarrow> (u32 \<Rightarrow> nat) \<Rightarrow> (u32 \<Rightarrow> nat) \<Rightarrow> schedule list \<Rightarrow>
   'db world \<times> (u32 \<Rightarrow> 'db world) \<Rightarrow> ('db world \<times> (u32 \<Rightarrow> 'db world)) res option" where
  "cluster_steps E C D [] ws = Some (Inr ws)"
| "cluster_steps E C D (sch # schs) ws = obind (cluster_step E C D sch ws) (cluster_steps E C D schs)"

text \<open>
  A schedule serves every node of \<open>L\<close> once, in some order, and loses no bytes. The other nodes are down: what
  is sent to them is never answered.
\<close>

definition serves :: "u32 set \<Rightarrow> schedule \<Rightarrow> bool" where
  "serves L sch \<longleftrightarrow> distinct (fst sch) \<and> set (fst sch) = L \<and> (\<forall>i. chops_well (snd sch i))"

lemma obind_assoc: "obind (obind m f) g = obind m (\<lambda>x. obind (f x) g)"
  by (cases m rule: option.exhaust [case_product sum.exhaust]) (auto simp: obind_def split: sum.splits)

lemma obind_cong_fun: "(\<And>x. f x = g x) \<Longrightarrow> obind m f = obind m g"
  by presburger

lemma cluster_steps_append:
  "cluster_steps E C D (as @ bs) ws = obind (cluster_steps E C D as ws) (cluster_steps E C D bs)"
  by (induction as arbitrary: ws) (auto simp: obind_assoc intro: obind_cong_fun)

text \<open>
  The leader with the nodes \<open>ns\<close>, the log \<open>es\<close> and the term \<open>t\<close>, and what the nodes that are still to be served
  have to be.
\<close>

definition leads :: "(u32 \<Rightarrow> nat) \<Rightarrow> (u32 \<Rightarrow> nat) \<Rightarrow> u32 list \<Rightarrow> u32 \<Rightarrow> entry list \<Rightarrow> 'db world \<Rightarrow> bool" where
  "leads C K ns t es w \<longleftrightarrow> leading C K w \<and> nodes w = ns \<and> s_dwCurrentTerm (w_server w) = t \<and> s_stEntries (w_server w) = es"

definition stepped :: "(u32 \<Rightarrow> nat) \<Rightarrow> entry list \<Rightarrow> u32 set \<Rightarrow> u32 \<Rightarrow> nat" where
  "stepped K es L i = (if i \<in> L then next_match (K i) es else K i)"

lemma stepped_none [simp]: "stepped K es {} = K"
  by (simp add: stepped_def [abs_def])

lemma deliver_one:
  assumes E: "good_env E" and s0: "lead_server K0 s0" "s_stEntries s0 = es" "s_dwCurrentTerm s0 = t" "list_all (small_entry (e_wire E)) es"
    and chop: "\<forall>i. chops_well (chop i)" and p: "om_find i (s_stProxys s0) = Some (Some p)" "sent i = query (e_wire E) i s0"
    and ld: "leads C K ns t es wl" and i: "i \<in> set ns" "K i = K0 i" and fl: "following (K i) t es (D i) (F i)"
  shows "\<exists>wl' wf. deliver E C D chop sent i (wl, F) = Some (Inr (wl', F(i := wf)))
    \<and> leads C (K(i := next_match (K i) es)) ns t es wl' \<and> following (next_match (K i) es) t es (D i) wf
    \<and> s_dwCommitIndex (w_server wf) = next_commit (K i) es (s_dwCommitIndex s0) (s_dwCommitIndex (w_server (F i)))
    \<and> commit_step ns (K(i := next_match (K i) es)) (commit_of wl) (commit_of wl')"
proof -
  have ld': "leading C K wl" "nodes wl = ns" "s_dwCurrentTerm (w_server wl) = t" "s_stEntries (w_server wl) = es"
    using ld by (simp_all add: leads_def)
  have c: "chops_well (chop i)" using chop by blast
  obtain wf where wf: "recv_rounds E (D i) (chop i (sent i)) (F i) = Some (Inr wf)" "following (next_match (K i) es) t es (D i) wf"
      "s_dwCommitIndex (w_server wf) = next_commit (K i) es (s_dwCommitIndex s0) (s_dwCommitIndex (w_server (F i)))"
      "new_bytes (D i) (F i) wf = answer (e_wire E) t (K i) es"
    using follower_gets [OF E s0(1) _ p(1) c, of "D i" "F i"] s0(2-4) fl i(2) p(2) by auto
  have "i \<in> set (nodes wl)" using i(1) ld'(2) by simp
  from leader_gets [OF E ld'(1) this refl c] wf show ?thesis
    unfolding ld' by (fastforce simp: deliver_def leads_def)
qed

lemma deliver_nodes:
  assumes E: "good_env E" and s0: "lead_server K0 s0" "s_stEntries s0 = es" "s_dwCurrentTerm s0 = t" "list_all (small_entry (e_wire E)) es"
    and chop: "\<forall>i. chops_well (chop i)" and d: "distinct is" "set is \<subseteq> set ns"
    and p: "\<forall>i \<in> set is. (\<exists>p. om_find i (s_stProxys s0) = Some (Some p)) \<and> sent i = query (e_wire E) i s0 \<and> K i = K0 i"
    and ld: "leads C K ns t es wl" and fl: "\<forall>i \<in> set is. following (K i) t es (D i) (F i)"
  shows "\<exists>wl' F'. deliver_all E C D chop sent is (wl, F) = Some (Inr (wl', F')) \<and> leads C (stepped K es (set is)) ns t es wl'
    \<and> (if is = [] then commit_of wl' = commit_of wl else commit_step ns (stepped K es (set is)) (commit_of wl) (commit_of wl'))
    \<and> (\<forall>i. i \<notin> set is \<longrightarrow> F' i = F i) \<and> (\<forall>i \<in> set is. following (next_match (K i) es) t es (D i) (F' i)
         \<and> s_dwCommitIndex (w_server (F' i)) = next_commit (K i) es (s_dwCommitIndex s0) (s_dwCommitIndex (w_server (F i))))"
  using d p ld fl
proof (induction "is" arbitrary: K wl F)
  case Nil
  then show ?case by simp
next
  case (Cons i js)
  let ?K = "K(i := next_match (K i) es)"
  from Cons.prems obtain p where p: "om_find i (s_stProxys s0) = Some (Some p)" "sent i = query (e_wire E) i s0" "K i = K0 i"
      and i: "i \<in> set ns" "i \<notin> set js" and fl: "following (K i) t es (D i) (F i)" by auto
  obtain wl1 wf where 1: "deliver E C D chop sent i (wl, F) = Some (Inr (wl1, F(i := wf)))" "leads C ?K ns t es wl1"
      "following (next_match (K i) es) t es (D i) wf"
      "s_dwCommitIndex (w_server wf) = next_commit (K i) es (s_dwCommitIndex s0) (s_dwCommitIndex (w_server (F i)))"
      "commit_step ns ?K (commit_of wl) (commit_of wl1)"
    using deliver_one [where K = K and F = F and D = D and i = i and sent = sent, OF E s0 chop p(1,2) Cons.prems(4) i(1) p(3) fl] by blast
  have js: "distinct js" "set js \<subseteq> set ns"
      "\<forall>j \<in> set js. (\<exists>p. om_find j (s_stProxys s0) = Some (Some p)) \<and> sent j = query (e_wire E) j s0 \<and> ?K j = K0 j"
      "\<forall>j \<in> set js. following (?K j) t es (D j) ((F(i := wf)) j)"
    using Cons.prems(1-3,5) i(2) by auto
  obtain wl2 F2 where 2: "deliver_all E C D chop sent js (wl1, F(i := wf)) = Some (Inr (wl2, F2))" "leads C (stepped ?K es (set js)) ns t es wl2"
      "if js = [] then commit_of wl2 = commit_of wl1 else commit_step ns (stepped ?K es (set js)) (commit_of wl1) (commit_of wl2)"
      "\<forall>j. j \<notin> set js \<longrightarrow> F2 j = (F(i := wf)) j"
      "\<forall>j \<in> set js. following (next_match (?K j) es) t es (D j) (F2 j)
         \<and> s_dwCommitIndex (w_server (F2 j)) = next_commit (?K j) es (s_dwCommitIndex s0) (s_dwCommitIndex (w_server ((F(i := wf)) j)))"
    using Cons.IH [OF js(1-3) 1(2) js(4)] by blast
  have st: "stepped ?K es (set js) = stepped K es (set (i # js))" using i(2) by (auto simp: stepped_def)
  have "?K j \<le> stepped ?K es (set js) j" for j by (simp add: stepped_def next_match_def)
  with 1(5) 2(3) have cm: "commit_step ns (stepped K es (set (i # js))) (commit_of wl) (commit_of wl2)"
    unfolding st [symmetric] by (cases "js = []") (auto intro: commit_step_trans)
  have ne: "j \<noteq> i" if "j \<in> set js" for j using i(2) that by auto
  show ?case
    using 1(1-4) 2(1,2,4,5) i(2) ne cm unfolding st by (intro exI [of _ wl2] exI [of _ F2]) auto
qed

section \<open>Progress\<close>

definition in_pace ::
  "'db env \<Rightarrow> (u32 \<Rightarrow> nat) \<Rightarrow> (u32 \<Rightarrow> nat) \<Rightarrow> (u32 \<Rightarrow> nat) \<Rightarrow> u32 list \<Rightarrow> u32 set \<Rightarrow> u32 \<Rightarrow> entry list \<Rightarrow>
   'db world \<times> (u32 \<Rightarrow> 'db world) \<Rightarrow> bool" where
  "in_pace E C D K ns L t es ws \<longleftrightarrow> leads C K ns t es (fst ws) \<and> list_all (small_entry (e_wire E)) es
     \<and> L \<subseteq> set ns \<and> (\<forall>i \<in> L. following (K i) t es (D i) (snd ws i) \<and> unat (s_dwCommitIndex (w_server (snd ws i))) < length es)"

lemma next_commit_bound: "unat lc < n \<Longrightarrow> unat fc < n \<Longrightarrow> unat (next_commit k es lc fc) < n"
  by (auto simp: next_commit_def min_def word_le_nat_alt)

lemma next_commit_last:
  assumes "unat lc = length es - 1" and "unat fc \<le> length es - 1"
  shows "unat (next_commit (length es - 1) es lc fc) = length es - 1"
proof -
  have "of_nat (length es - 1) = lc" unfolding assms(1) [symmetric] by simp
  then show ?thesis using assms by (auto simp: next_commit_def next_entries_def word_less_nat_alt)
qed

lemma in_pace_leader:
  assumes "in_pace E C D K ns L t es ws"
  shows "lead_server K (w_server (fst ws))" "commit_of (fst ws) < length es"
    "i \<in> set ns \<Longrightarrow> K i < length es" "i \<in> set ns \<Longrightarrow> \<exists>p. om_find i (s_stProxys (w_server (fst ws))) = Some (Some p)"
proof -
  have ld: "leading C K (fst ws)" "nodes (fst ws) = ns" "s_stEntries (w_server (fst ws)) = es"
    using assms by (auto simp: in_pace_def leads_def)
  then show "lead_server K (w_server (fst ws))" "commit_of (fst ws) < length es" by (auto simp: leading_def lead_server_def)
  show "K i < length es" "\<exists>p. om_find i (s_stProxys (w_server (fst ws))) = Some (Some p)" if "i \<in> set ns"
    using that leading_node [OF ld(1), of i] ld(2,3) by metis+
qed

lemma cluster_round:
  assumes E: "good_env E" and pace: "in_pace E C D K ns L t es ws" and sch: "serves L sch"
  shows "\<exists>ws'. cluster_step E C D sch ws = Some (Inr ws') \<and> in_pace E C D (stepped K es L) ns L t es ws'
    \<and> (if L = {} then commit_of (fst ws') = commit_of (fst ws)
       else commit_step ns (stepped K es L) (commit_of (fst ws)) (commit_of (fst ws')))
    \<and> (\<forall>i \<in> L. s_dwCommitIndex (w_server (snd ws' i)) =
         next_commit (K i) es (s_dwCommitIndex (w_server (fst ws))) (s_dwCommitIndex (w_server (snd ws i))))
    \<and> (\<forall>i. i \<notin> L \<longrightarrow> snd ws' i = snd ws i)"
proof -
  obtain wl F "is" chop where ws: "ws = (wl, F)" "sch = (is, chop)" by (cases ws; cases sch)
  let ?s = "w_server wl"
  have l: "leading C K wl" "nodes wl = ns" "s_dwCurrentTerm ?s = t" "s_stEntries ?s = es" "list_all (small_entry (e_wire E)) es"
      "L \<subseteq> set ns" "\<forall>i \<in> L. following (K i) t es (D i) (F i)"
    using pace by (auto simp: in_pace_def leads_def ws)
  note s0 = in_pace_leader(1) [OF pace, unfolded ws fst_conv]
  have d: "distinct is" "set is = L" "\<forall>i. chops_well (chop i)" "set is \<subseteq> set ns" using sch l(6) by (auto simp: serves_def ws)
  obtain wl1 T where w1: "EventLoop_round E [(Ch_Timer LeaderHeartbeatTimer, EPOLLIN, arrival [])] wl = Some (Inr wl1)"
      "leading C K wl1" "w_server wl1 = ?s\<lparr>s_stTimers := T\<rparr>" "\<forall>i \<in> set ns. new_bytes (C i) wl wl1 = query (e_wire E) i ?s"
    using timer_round [OF E l(1), of "arrival []"] l(2,4,5) by auto
  have l1: "leads C K ns t es wl1" using w1(2,3) l(2-4) by (simp add: leads_def nodes_def)
  let ?sent = "\<lambda>i. new_bytes (C i) wl wl1"
  have p: "\<forall>i \<in> set is. (\<exists>p. om_find i (s_stProxys ?s) = Some (Some p)) \<and> ?sent i = query (e_wire E) i ?s \<and> K i = K i"
    using in_pace_leader(4) [OF pace] w1(4) d(4) by (auto simp: ws)
  have cm: "commit_of wl1 = commit_of wl" by (simp add: w1(3))
  obtain wl3 F3 where w3: "deliver_all E C D chop ?sent is (wl1, F) = Some (Inr (wl3, F3))" "leads C (stepped K es L) ns t es wl3"
      "if L = {} then commit_of wl3 = commit_of wl else commit_step ns (stepped K es L) (commit_of wl) (commit_of wl3)"
      "\<forall>i \<in> L. following (next_match (K i) es) t es (D i) (F3 i)
         \<and> s_dwCommitIndex (w_server (F3 i)) = next_commit (K i) es (s_dwCommitIndex ?s) (s_dwCommitIndex (w_server (F i)))"
      "\<forall>i. i \<notin> L \<longrightarrow> F3 i = F i"
    using deliver_nodes [OF E s0 l(4,3,5) d(3,1,4) p l1, of D F] l(7) d(2) unfolding cm by auto
  have "in_pace E C D (stepped K es L) ns L t es (wl3, F3)"
    using w3(2,4) l(5,6) pace in_pace_leader(2) [OF pace] by (auto simp: in_pace_def ws stepped_def intro: next_commit_bound)
  then show ?thesis
    using w1(1) w3 by (intro exI [of _ "(wl3, F3)"]) (simp add: ws cluster_step_def)
qed

text \<open>
  All nodes that run and the commit index have reached \<open>v\<close>. A step takes them to the next index, as far as the log
  goes, and a step after that tells the nodes.
\<close>

definition reached :: "nat \<Rightarrow> (u32 \<Rightarrow> nat) \<Rightarrow> u32 set \<Rightarrow> 'db world \<Rightarrow> bool" where
  "reached v K L w \<longleftrightarrow> (\<forall>i \<in> L. v \<le> K i) \<and> v \<le> commit_of w"

lemma majority_nonempty: "majority ns L \<Longrightarrow> L \<noteq> {}"
  by (auto simp: majority_def)

lemma cluster_progress:
  assumes E: "good_env E" and maj: "majority ns L"
  shows "in_pace E C D K ns L t es ws \<Longrightarrow> list_all (serves L) schs \<Longrightarrow> reached v K L (fst ws) \<Longrightarrow>
    \<exists>ws' K'. cluster_steps E C D schs ws = Some (Inr ws') \<and> in_pace E C D K' ns L t es ws'
      \<and> reached (min (length es - 1) (v + length schs)) K' L (fst ws')
      \<and> (length es \<le> v + length schs \<longrightarrow> (\<forall>i \<in> L. commit_of (snd ws' i) = length es - 1))
      \<and> (\<forall>i. i \<notin> L \<longrightarrow> snd ws' i = snd ws i)"
proof (induction schs arbitrary: v K ws rule: rev_induct)
  case Nil
  then have "v < length es" using in_pace_leader(2) [OF Nil.prems(1)] by (auto simp: reached_def)
  with Nil.prems show ?case by (intro exI [of _ ws] exI [of _ K]) (auto simp: reached_def)
next
  case (snoc sch schs)
  let ?n = "length es - 1" and ?u = "min (length es - 1) (v + length schs)"
  obtain ws1 K1 where 1: "cluster_steps E C D schs ws = Some (Inr ws1)" "in_pace E C D K1 ns L t es ws1" "reached ?u K1 L (fst ws1)"
      "\<forall>i. i \<notin> L \<longrightarrow> snd ws1 i = snd ws i"
    using snoc.IH [OF snoc.prems(1) _ snoc.prems(3)] snoc.prems(2) by auto
  have b: "K1 i \<le> ?n" "?u \<le> K1 i" if "i \<in> L" for i
    using in_pace_leader(3) [OF 1(2), of i] 1(2,3) that by (auto simp: reached_def in_pace_def)
  have c: "commit_of (fst ws1) \<le> ?n" "?u \<le> commit_of (fst ws1)" using in_pace_leader(2) [OF 1(2)] 1(3) by (auto simp: reached_def)
  obtain ws' where 2: "cluster_step E C D sch ws1 = Some (Inr ws')" "in_pace E C D (stepped K1 es L) ns L t es ws'"
      "commit_step ns (stepped K1 es L) (commit_of (fst ws1)) (commit_of (fst ws'))"
      "\<forall>i \<in> L. s_dwCommitIndex (w_server (snd ws' i)) =
         next_commit (K1 i) es (s_dwCommitIndex (w_server (fst ws1))) (s_dwCommitIndex (w_server (snd ws1 i)))"
      "\<forall>i. i \<notin> L \<longrightarrow> snd ws' i = snd ws1 i"
    using cluster_round [OF E 1(2), of sch] snoc.prems(2) majority_nonempty [OF maj] by auto
  let ?v = "min ?n (v + length (schs @ [sch]))"
  have up: "?v \<le> stepped K1 es L i" if "i \<in> L" for i using b [OF that] that by (auto simp: next_match_def stepped_def)
  then have "min ?v (commit_of (fst ws1) + 1) \<le> commit_of (fst ws')" using 2(3) maj unfolding commit_step_def by blast
  then have "reached ?v (stepped K1 es L) L (fst ws')" using up c(2) by (auto simp: reached_def)
  moreover have "commit_of (snd ws' i) = ?n" if "length es \<le> v + length (schs @ [sch])" "i \<in> L" for i
  proof -
    have "K1 i = ?n" "commit_of (fst ws1) = ?n" using that b [OF that(2)] c by auto
    moreover have "commit_of (snd ws1 i) \<le> ?n" using 1(2) that(2) by (auto simp: in_pace_def)
    ultimately show ?thesis using 2(4) that(2) next_commit_last by auto
  qed
  ultimately show ?case using 1(1,4) 2(1,2,5) by (auto simp: cluster_steps_append)
qed

text \<open>What is committed anywhere is held by a majority.\<close>

definition commits_held :: "(u32 \<Rightarrow> nat) \<Rightarrow> u32 list \<Rightarrow> u32 set \<Rightarrow> 'db world \<times> (u32 \<Rightarrow> 'db world) \<Rightarrow> bool" where
  "commits_held K ns L ws \<longleftrightarrow> (commit_of (fst ws) = 0 \<or> held K ns (commit_of (fst ws)))
     \<and> (\<forall>i \<in> L. commit_of (snd ws i) \<le> commit_of (fst ws))"

lemma next_commit_le: "unat (next_commit k es lc fc) \<le> max (unat lc) (unat fc)"
  by (auto simp: next_commit_def min_def word_le_nat_alt)

lemma cluster_safe:
  assumes E: "good_env E"
  shows "in_pace E C D K ns L t es ws \<Longrightarrow> list_all (serves L) schs \<Longrightarrow> commits_held K ns L ws \<Longrightarrow>
    \<exists>ws' K'. cluster_steps E C D schs ws = Some (Inr ws') \<and> in_pace E C D K' ns L t es ws' \<and> commits_held K' ns L ws'"
proof (induction schs arbitrary: K ws)
  case (Cons sch schs)
  let ?K = "stepped K es L"
  obtain ws1 where 1: "cluster_step E C D sch ws = Some (Inr ws1)" "in_pace E C D ?K ns L t es ws1"
      "if L = {} then commit_of (fst ws1) = commit_of (fst ws) else commit_step ns ?K (commit_of (fst ws)) (commit_of (fst ws1))"
      "\<forall>i \<in> L. s_dwCommitIndex (w_server (snd ws1 i)) =
         next_commit (K i) es (s_dwCommitIndex (w_server (fst ws))) (s_dwCommitIndex (w_server (snd ws i)))"
    using cluster_round [OF E Cons.prems(1), of sch] Cons.prems(2) by auto
  have le: "commit_of (fst ws) \<le> commit_of (fst ws1)" using 1(3) by (auto simp: commit_step_def split: if_splits)
  have "held ?K ns c" if "held K ns c" for c using that by (rule held_mono) (simp add: stepped_def next_match_def)
  then have "commit_of (fst ws1) = 0 \<or> held ?K ns (commit_of (fst ws1))"
    using 1(3) Cons.prems(3) by (auto simp: commit_step_def commits_held_def split: if_splits)
  moreover have "commit_of (snd ws1 i) \<le> commit_of (fst ws1)" if "i \<in> L" for i
    using next_commit_le [of "K i" es "s_dwCommitIndex (w_server (fst ws))" "s_dwCommitIndex (w_server (snd ws i))"]
      1(4) that le Cons.prems(3) by (fastforce simp: commits_held_def)
  ultimately have "commits_held ?K ns L ws1" by (simp add: commits_held_def)
  with Cons.IH [OF 1(2)] Cons.prems(2) 1(1) show ?case by simp
qed auto

text \<open>The steps are executions of all processes.\<close>

lemma deliver_all_runs:
  "deliver_all E C D chop sent is ws = Some (Inr ws') \<Longrightarrow> runs E u (fst ws) \<and> (\<forall>i. runs E (v i) (snd ws i)) \<Longrightarrow>
     runs E u (fst ws') \<and> (\<forall>i. runs E (v i) (snd ws' i))"
proof (induction "is" arbitrary: ws)
  case (Cons i "is")
  from Cons.prems(1) obtain wf wl where 1: "recv_rounds E (D i) (chop i (sent i)) (snd ws i) = Some (Inr wf)"
      "recv_rounds E (C i) (chop i (new_bytes (D i) (snd ws i) wf)) (fst ws) = Some (Inr wl)"
      "deliver_all E C D chop sent is (wl, (snd ws)(i := wf)) = Some (Inr ws')"
    by (auto simp: deliver_def obind_Inr_iff)
  have "runs E u wl" "runs E (v i) wf" using recv_rounds_runs [OF 1(1)] recv_rounds_runs [OF 1(2)] Cons.prems(2) by blast+
  with Cons.prems(2) have "runs E u (fst (wl, (snd ws)(i := wf))) \<and> (\<forall>j. runs E (v j) (snd (wl, (snd ws)(i := wf)) j))" by simp
  from Cons.IH [OF 1(3) this] show ?case .
qed simp

lemma cluster_steps_runs:
  "cluster_steps E C D schs ws = Some (Inr ws') \<Longrightarrow> runs E u (fst ws) \<and> (\<forall>i. runs E (v i) (snd ws i)) \<Longrightarrow>
     runs E u (fst ws') \<and> (\<forall>i. runs E (v i) (snd ws' i))"
proof (induction schs arbitrary: ws)
  case (Cons sch schs)
  then obtain wl ws1 where 1: "EventLoop_round E [(Ch_Timer LeaderHeartbeatTimer, EPOLLIN, arrival [])] (fst ws) = Some (Inr wl)"
      "deliver_all E C D (snd sch) (\<lambda>i. new_bytes (C i) (fst ws) wl) (fst sch) (wl, snd ws) = Some (Inr ws1)"
      "cluster_steps E C D schs ws1 = Some (Inr ws')"
    by (auto simp: cluster_step_def obind_Inr_iff)
  have "runs E u (fst (wl, snd ws)) \<and> (\<forall>i. runs E (v i) (snd (wl, snd ws) i))"
    using Cons.prems(2) 1(1) by (auto intro: runs.round)
  from Cons.IH [OF 1(3) deliver_all_runs [OF 1(2) this]] show ?case .
qed simp

section \<open>An instance\<close>

text \<open>The sample leader with its timer armed and two connected nodes, and segments of one byte.\<close>

definition sample_timer :: Timer where
  "sample_timer = Timer_Init LeaderHeartbeatTimer (fst (Timer_new 6 True 10 LeaderHeartbeatTimer))"

definition sample_conn :: "nat \<Rightarrow> u32 \<Rightarrow> Conn" where
  "sample_conn c i = calm_conn\<lparr>cn_iFd := int c, cn_pstProxy := Some i, cn_pstMod := Some c,
     cn_pstChannel := (cn_pstChannel calm_conn)\<lparr>ch_iFd := int c, ch_pstConn := Some (Tied_Conn c)\<rparr>\<rparr>"

definition sample_loop :: "(bytes \<times> bytes) list world" where
  "sample_loop = put_timer LeaderHeartbeatTimer sample_timer
     (sample_leader\<lparr>w_server := (w_server sample_leader)\<lparr>s_stConns := [(7, 7), (8, 8)],
        s_stProxys := [(5, Some ((RaftProxy_new 5)\<lparr>p_pstConn := Some 7\<rparr>)), (6, Some ((RaftProxy_new 6)\<lparr>p_pstConn := Some 8\<rparr>))]\<rparr>,
      w_conns := [7 \<mapsto> sample_conn 7 5, 8 \<mapsto> sample_conn 8 6]\<rparr>)"

definition sample_route :: "u32 \<Rightarrow> nat" where
  "sample_route i = (if i = 5 then 7 else 8)"

definition single_bytes :: "bytes \<Rightarrow> bytes list" where
  "single_bytes bs = map (\<lambda>b. [b]) bs"

lemma single_bytes_well: "chops_well single_bytes" "chops_well (\<lambda>bs. [bs])"
  by (auto simp: chops_well_def segments_def single_bytes_def)

lemma varint_length: "n < 128 ^ Suc k \<Longrightarrow> length (varint n) \<le> Suc k"
proof (induction k arbitrary: n)
  case (Suc k)
  then have "n div 128 < 128 ^ Suc k" by (simp add: less_mult_imp_div_less mult.commute)
  from Suc.IH [OF this] show ?case by (simp add: varint.simps [of n])
qed (simp add: varint.simps)

lemma calm_good: "good_env calm_env"
proof -
  have "length (varint (unat v)) \<le> 5" for v :: u32
    using varint_length [of "unat v" 4] unsigned_less [of v, where ?'a = nat] by simp
  then have "small_wire leb_wire" by (simp add: small_wire_def leb_wire_def)
  then show ?thesis
    using calm.calm_store_axioms calm.network_axioms by (simp add: good_env_def eager_send_def)
qed

lemma sample_log_small: "list_all (small_entry leb_wire) sample_log"
  by code_simp

lemma sample_loop_simps [simp]:
  "s_stEntries (w_server sample_loop) = sample_log" "s_dwCurrentTerm (w_server sample_loop) = 0" "nodes sample_loop = [5, 6]"
  "s_dwCommitIndex (w_server sample_loop) = 0"
  by (simp_all add: sample_loop_def nodes_def) (simp add: sample_leader_def set_conn_def calm_server_simps)

lemma sample_loop_leading: "leading sample_route (\<lambda>i. 0) sample_loop"
proof -
  have fires: "fires sample_timer"
    by (simp add: fires_def sample_timer_def Timer_new_armed) (simp add: Timer_Init_def Channel_new_def Channel_Tie_def Channel_IsInit_def)
  have conn: "out_ok (sample_conn c i)" "in_ok (sample_conn c i)" "out_queue (sample_conn c i) = []" "in_queue (sample_conn c i) = []"
      "reads c (sample_conn c i)" "cn_pstProxy (sample_conn c i) = Some i" "cn_pstMod (sample_conn c i) = Some c"
      "cn_iFd (sample_conn c i) = int c" for c i
    by (simp_all add: sample_conn_def calm_conn_def out_ok_def in_ok_def out_queue_def in_queue_def buf_ok_def content_def
        reads_def Channel_new_def)
  have cs: "w_conns sample_loop 7 = Some (sample_conn 7 5)" "w_conns sample_loop 8 = Some (sample_conn 8 6)" "w_alive sample_loop"
      "s_stConns (w_server sample_loop) = [(7, 7), (8, 8)]" "find_timer LeaderHeartbeatTimer sample_loop = Some sample_timer"
    by (simp_all add: sample_loop_def)
  have ps: "s_stProxys (w_server sample_loop) =
      [(5, Some ((RaftProxy_new 5)\<lparr>p_pstConn := Some 7\<rparr>)), (6, Some ((RaftProxy_new 6)\<lparr>p_pstConn := Some 8\<rparr>))]"
    by (simp add: sample_loop_def)
  have "peer sample_loop (sample_route i) i" if "i \<in> {5, 6}" for i
    using that conn cs by (auto simp: peer_def idle_conn_def listening_def owned_def sample_route_def)
  moreover have "lead_server (\<lambda>i. 0) (w_server sample_loop)"
  proof -
    have s: "s_stLogs (w_server sample_loop) = []" "s_dwLogBase (w_server sample_loop) = 0"
      using sample_leader_inv(1) by (simp_all add: sample_loop_def srv_inv_def)
    have "srv_inv (w_server sample_loop)" unfolding srv_inv_def s cs ps by (simp add: om_ok_def proxy_ok_def RaftProxy_new_def)
    then show ?thesis
      using sample_log_own unfolding lead_server_def acks_bounded_def ps by (simp add: RaftProxy_new_def)
  qed
  moreover have "inj_on (\<lambda>i. conn_fd (sample_route i) sample_loop) {5, 6}"
    using conn cs by (simp add: sample_route_def)
  ultimately show ?thesis
    using fires cs unfolding leading_def ps by (simp add: sample_route_def)
qed

lemma calm_world_following: "following 0 0 sample_log 0 calm_world \<and> commit_of calm_world < length sample_log"
proof -
  have "idle_conn calm_world 0 calm_conn" "reads 0 calm_conn"
    by (simp_all add: idle_conn_def listening_def owned_def) (simp add: reads_def calm_conn_def Channel_new_def)
  then show ?thesis
    using calm_world_follower(2) sample_log_own(2)
    by (auto simp: following_def follower_ready_def in_step_def calm_server_simps)
qed

section \<open>Replication\<close>

text \<open>
  C4. A round of replication in a cluster of event loops. The leader's log is of its own term, and its match index for
  node \<open>i\<close> is \<open>K i\<close>; the nodes of \<open>L\<close> run, node \<open>i\<close> of them holds the first \<open>K i + 1\<close> entries (none of them when
  \<open>K i = 0\<close>), and connections are idle. When the leader's timer fires, its round returns and has sent to every
  node; in whatever order the nodes of \<open>L\<close> take part and however TCP cuts the messages into segments, their rounds
  return, one for each segment, and so do the leader's rounds for the segments of their answers. Each of them then
  holds one entry more, as far as the log has them (the first message brings two), the leader's log and term
  are what they were, and all are ready for the next timer.
\<close>

theorem replication_over_tcp:
  fixes wl :: "'db world"
  defines "es \<equiv> s_stEntries (w_server wl)" and "t \<equiv> s_dwCurrentTerm (w_server wl)"
  assumes "good_env E" and "serves L sch" and "L \<subseteq> set (nodes wl)" and "list_all (small_entry (e_wire E)) es"
    and "leading C K wl" and "\<forall>i \<in> L. following (K i) t es (D i) (F i) \<and> commit_of (F i) < length es"
  shows "\<exists>wl' F'. cluster_step E C D sch (wl, F) = Some (Inr (wl', F'))
    \<and> s_stEntries (w_server wl') = es \<and> s_dwCurrentTerm (w_server wl') = t \<and> nodes wl' = nodes wl
    \<and> leading C (stepped K es L) wl'
    \<and> (\<forall>i \<in> L. following (next_match (K i) es) t es (D i) (F' i)
         \<and> (K i + 1 < length es \<longrightarrow> s_stEntries (w_server (F' i)) = take (K i + 2) es))"
proof -
  have "in_pace E C D K (nodes wl) L t es (wl, F)" using assms by (simp add: in_pace_def leads_def)
  from cluster_round [OF assms(3) this assms(4)] show ?thesis
    by (fastforce simp: in_pace_def leads_def stepped_def following_def follower_ready_def in_step_def next_match_def)
qed

theorem replication_over_tcp_witness:
  "\<exists>wl' F'. cluster_step calm_env sample_route (\<lambda>i. 0) ([6, 5], \<lambda>i. single_bytes) (sample_loop, \<lambda>i. calm_world) = Some (Inr (wl', F'))
     \<and> (\<forall>i \<in> {5, 6}. s_stEntries (w_server (F' i)) = sample_log)"
  using replication_over_tcp [OF calm_good, of "{5, 6}" "([6, 5], \<lambda>i. single_bytes)" sample_loop sample_route "\<lambda>i. 0" "\<lambda>i. 0" "\<lambda>i. calm_world"]
    sample_log_small sample_loop_leading calm_world_following sample_log_own(2) single_bytes_well(1)
  by (auto simp: serves_def)

text \<open>
  C5. A majority of the nodes is enough. From there, let the nodes of \<open>L\<close> be more than half of all, the others never
  answer, and let the match indices of \<open>L\<close> and the leader's commit index be at least \<open>v\<close>. After as many firings of the
  timer as the log is longer than \<open>v\<close>, and after any larger number, whatever order the nodes take part in and however the
  bytes are cut in each step, all rounds of all event loops have returned, the log of every node of \<open>L\<close> is the leader's,
  whose own log and term have not changed, and the commit index of the leader and of every node of \<open>L\<close> is the
  index of the last entry; all states are reached by rounds of the event loops alone. A log of a single
  entry is never sent: the first message with entries goes out only when there is an entry 1.
\<close>

theorem cluster_converges:
  fixes wl :: "'db world"
  defines "es \<equiv> s_stEntries (w_server wl)" and "t \<equiv> s_dwCurrentTerm (w_server wl)"
  assumes "good_env E" and "list_all (serves L) schs" and "majority (nodes wl) L" and "list_all (small_entry (e_wire E)) es"
    and "leading C K wl" and "\<forall>i \<in> L. following (K i) t es (D i) (F i) \<and> commit_of (F i) < length es"
    and "reached v K L wl" and "length es \<le> v + length schs"
  shows "\<exists>wl' F'. cluster_steps E C D schs (wl, F) = Some (Inr (wl', F'))
    \<and> s_stEntries (w_server wl') = es \<and> s_dwCurrentTerm (w_server wl') = t \<and> commit_of wl' = length es - 1
    \<and> (\<forall>i \<in> L. s_stEntries (w_server (F' i)) = (if 2 \<le> length es then es else []) \<and> commit_of (F' i) = length es - 1)
    \<and> (\<forall>i. i \<notin> L \<longrightarrow> F' i = F i) \<and> runs E wl wl' \<and> (\<forall>i. runs E (F i) (F' i))"
proof -
  have "in_pace E C D K (nodes wl) L t es (wl, F)" using assms by (simp add: in_pace_def leads_def majority_def)
  from cluster_progress [OF assms(3,5) this assms(4), of v] assms(9,10) obtain wl' F' K' where
      1: "cluster_steps E C D schs (wl, F) = Some (Inr (wl', F'))" "in_pace E C D K' (nodes wl) L t es (wl', F')"
      "reached (length es - 1) K' L wl'" "\<forall>i \<in> L. commit_of (F' i) = length es - 1" "\<forall>i. i \<notin> L \<longrightarrow> F' i = F i"
    by (auto simp: min_absorb1)
  have k: "K' i = length es - 1" if "i \<in> L" for i
  proof -
    have "i \<in> set (nodes wl)" using 1(2) that by (auto simp: in_pace_def)
    from in_pace_leader(3) [OF 1(2) this] 1(3) that show ?thesis by (auto simp: reached_def)
  qed
  have "commit_of wl' = length es - 1" using in_pace_leader(2) [OF 1(2)] 1(3) by (auto simp: reached_def)
  moreover have "runs E wl wl' \<and> (\<forall>i. runs E (F i) (F' i))"
    using cluster_steps_runs [OF 1(1), of wl F] by (simp add: runs.idle)
  ultimately show ?thesis
    using 1 k by (auto simp: in_pace_def leads_def following_def follower_ready_def in_step_def)
qed

theorem cluster_converges_witness:
  "\<exists>wl' F'. cluster_steps calm_env sample_route (\<lambda>i. 0) [([5, 6], \<lambda>i. single_bytes), ([6, 5], \<lambda>i bs. [bs])]
       (sample_loop, \<lambda>i. calm_world) = Some (Inr (wl', F'))
     \<and> commit_of wl' = 1 \<and> (\<forall>i \<in> {5, 6}. s_stEntries (w_server (F' i)) = sample_log \<and> commit_of (F' i) = 1)"
  using cluster_converges [OF calm_good, of "{5, 6}" "[([5, 6], \<lambda>i. single_bytes), ([6, 5], \<lambda>i bs. [bs])]"
      sample_loop sample_route "\<lambda>i. 0" "\<lambda>i. 0" "\<lambda>i. calm_world" 0]
    sample_log_small sample_loop_leading calm_world_following sample_log_own(2) single_bytes_well
  by (auto simp: serves_def reached_def majority_def)

text \<open>
  C6. What is committed is replicated. In a cluster whose nodes all run, from a state in which nothing but index 0
  is committed, after any number of firings of the timer, whatever order the nodes take part in and however the bytes
  are cut, all rounds have returned, no node has committed more than the leader, and the entries up to the
  leader's commit index are in the logs of a majority of the nodes, unless that index is still 0.
\<close>

theorem committed_is_replicated:
  fixes wl :: "'db world"
  defines "es \<equiv> s_stEntries (w_server wl)" and "t \<equiv> s_dwCurrentTerm (w_server wl)"
  assumes "good_env E" and "list_all (serves (set (nodes wl))) schs" and "list_all (small_entry (e_wire E)) es"
    and "leading C K wl" and "commit_of wl = 0"
    and "\<forall>i \<in> set (nodes wl). following (K i) t es (D i) (F i) \<and> commit_of (F i) = 0"
  shows "\<exists>wl' F'. cluster_steps E C D schs (wl, F) = Some (Inr (wl', F'))
    \<and> (\<forall>i \<in> set (nodes wl). commit_of (F' i) \<le> commit_of wl')
    \<and> (0 < commit_of wl' \<longrightarrow> (\<exists>M. majority (nodes wl) M
         \<and> (\<forall>i \<in> M. take (commit_of wl' + 1) (s_stEntries (w_server (F' i))) = take (commit_of wl' + 1) es)))"
proof -
  let ?ns = "nodes wl"
  have "0 < length es" using assms(6) by (auto simp: es_def leading_def lead_server_def)
  then have "in_pace E C D K ?ns (set ?ns) t es (wl, F)" using assms by (simp add: in_pace_def leads_def)
  moreover have "commits_held K ?ns (set ?ns) (wl, F)" using assms(7,8) by (simp add: commits_held_def)
  ultimately obtain wl' F' K' where 1: "cluster_steps E C D schs (wl, F) = Some (Inr (wl', F'))"
      "in_pace E C D K' ?ns (set ?ns) t es (wl', F')" "commits_held K' ?ns (set ?ns) (wl', F')"
    using cluster_safe [OF assms(3) _ assms(4), of C D K ?ns t es "(wl, F)"] by auto
  have "\<exists>M. majority ?ns M \<and> (\<forall>i \<in> M. take (commit_of wl' + 1) (s_stEntries (w_server (F' i))) = take (commit_of wl' + 1) es)"
    if c: "0 < commit_of wl'"
  proof -
    obtain M where M: "majority ?ns M" "\<forall>j \<in> M. commit_of wl' \<le> K' j" using 1(3) c by (auto simp: commits_held_def held_def)
    have "take (commit_of wl' + 1) (s_stEntries (w_server (F' i))) = take (commit_of wl' + 1) es" if i: "i \<in> M" for i
    proof -
      have k: "commit_of wl' \<le> K' i" and "following (K' i) t es (D i) (F' i)"
        using M i 1(2) by (auto simp: majority_def in_pace_def)
      then have "s_stEntries (w_server (F' i)) = take (K' i + 1) es" using c by (auto simp: following_def follower_ready_def in_step_def)
      with k show ?thesis by (simp add: min_absorb1)
    qed
    with M(1) show ?thesis by blast
  qed
  with 1(1,3) show ?thesis by (auto simp: commits_held_def)
qed

theorem committed_is_replicated_witness:
  "\<exists>wl' F'. cluster_steps calm_env sample_route (\<lambda>i. 0) [([5, 6], \<lambda>i. single_bytes)] (sample_loop, \<lambda>i. calm_world) = Some (Inr (wl', F'))
     \<and> (\<forall>i \<in> {5, 6}. commit_of (F' i) \<le> commit_of wl')"
  using committed_is_replicated [OF calm_good, of sample_loop "[([5, 6], \<lambda>i. single_bytes)]" sample_route "\<lambda>i. 0" "\<lambda>i. 0" "\<lambda>i. calm_world"]
    sample_log_small sample_loop_leading calm_world_following single_bytes_well
  by (auto simp: serves_def calm_server_simps)

end
