(* ===== verification/Raft_Commit.thy ===== *)
theory Raft_Commit
  imports Raft_Leader
begin

text \<open>
  The commit index over several messages: how a leader counts the acknowledgements of several
  followers until a majority is there, what acknowledgements beyond the end of the log do, and what a follower makes of the leader's commit index.
\<close>

section \<open>Counting acknowledgements\<close>

lemma acks_credit:
  assumes "om_ok ps" and "om_find i ps = Some (Some p)" and "\<not> n \<le> p_ulMatchIndex p" and "n \<le> p_ulMatchIndex (credit p)"
  shows "acks n (om_assign i (Some (credit p)) ps) = acks n ps + 1"
proof -
  obtain a b where "ps = a @ (i, Some p) # b" "om_assign i (Some (credit p)) ps = a @ (i, Some (credit p)) # b"
    using om_assign_split [OF assms(1,2)] by blast
  with assms(3,4) show ?thesis by (simp add: acks_def)
qed

lemma acks_0: "om_ok ps \<Longrightarrow> \<forall>k p. om_find k ps = Some (Some p) \<longrightarrow> p_ulMatchIndex p < n \<Longrightarrow> acks n ps = 0"
  by (force simp: acks_def filter_empty_conv om_elements_find split: option.splits)

text \<open>
  A leader that waits for the acknowledgements of entry \<open>n + 1\<close>, of its own term, on the connections
  \<open>cs\<close>, each given with the node it is tied to.
\<close>

definition awaiting :: "nat \<Rightarrow> (nat \<times> u32) list \<Rightarrow> 'db world \<Rightarrow> bool" where
  "awaiting n cs w \<longleftrightarrow> w_alive w \<and> srv_inv (w_server w)
     \<and> n + 1 < length (s_stEntries (w_server w)) \<and> length (s_stEntries (w_server w)) < 2 ^ 31
     \<and> en_term (s_stEntries (w_server w) ! (n + 1)) = s_dwCurrentTerm (w_server w)
     \<and> (\<forall>k p. om_find k (s_stProxys (w_server w)) = Some (Some p) \<longrightarrow> unat (p_ulMatchIndex p) \<le> n + 1)
     \<and> distinct (map snd cs)
     \<and> (\<forall>(c, i) \<in> set cs. (\<exists>x. w_conns w c = Some x \<and> cn_pstProxy x = Some i)
          \<and> (\<exists>p. om_find i (s_stProxys (w_server w)) = Some (Some p) \<and> unat (p_ulMatchIndex p) = n))"

text \<open>The commit index after the acknowledgements that were counted.\<close>

definition committed :: "nat \<Rightarrow> nat \<Rightarrow> nat \<Rightarrow> nat" where
  "committed n num got = (if num < 2 * got then n + 1 else n)"

lemma ack_step:
  assumes aw: "awaiting n ((c, i) # cs) w"
    and r: "ar_term r \<le> s_dwCurrentTerm (w_server w)" "ar_success r" "\<not> ar_isheartbeat r"
    and ci: "unat (s_dwCommitIndex (w_server w)) = n \<or> unat (s_dwCommitIndex (w_server w)) = n + 1"
  defines "s \<equiv> w_server w"
  shows "\<exists>w'. ModApi_AppendEntriesR E c r w = Inr w' \<and> awaiting n cs w'
    \<and> s_dwCurrentTerm (w_server w') = s_dwCurrentTerm s \<and> length (s_stProxys (w_server w')) = length (s_stProxys s)
    \<and> acks (of_nat (n + 1)) (s_stProxys (w_server w')) = acks (of_nat (n + 1)) (s_stProxys s) + 1
    \<and> unat (s_dwCommitIndex (w_server w')) = (if unat (s_dwCommitIndex s) = n
         then committed n (length (s_stProxys s)) (acks (of_nat (n + 1)) (s_stProxys s) + 1) else n + 1)"
proof -
  from aw obtain x p where x: "w_conns w c = Some x" "cn_pstProxy x = Some i" "w_alive w"
    and p: "om_find i (s_stProxys s) = Some (Some p)" "unat (p_ulMatchIndex p) = n"
    and inv: "srv_inv s" and n: "n + 1 < length (s_stEntries s)" "length (s_stEntries s) < 2 ^ 31"
    and t: "en_term (s_stEntries s ! (n + 1)) = s_dwCurrentTerm s"
    and le: "\<forall>k p. om_find k (s_stProxys s) = Some (Some p) \<longrightarrow> unat (p_ulMatchIndex p) \<le> n + 1"
    by (auto simp: awaiting_def s_def)
  define s1 where "s1 = s\<lparr>s_stProxys := om_assign i (Some (credit p)) (s_stProxys s)\<rparr>"
  have n64: "unat (of_nat (n + 1) :: u64) = n + 1" "unat (of_nat (n + 2) :: u64) = n + 2"
    and n32: "unat (of_nat (n + 1) :: u32) = n + 1"
    by (rule unat_of_nat_u64 unat_of_nat_u32, use n in simp)+
  have m: "unat (p_ulMatchIndex (credit p)) = n + 1"
    using p(2) n by (simp add: credit_def unat_word_ariths)
  have ok: "om_ok (s_stProxys s)" "proxy_ok i (Some p)" using inv p(1) by (auto simp: srv_inv_def)
  then have inv1: "srv_inv s1" using inv by (auto simp: s1_def srv_inv_def proxy_ok_def credit_def)
  have len: "length (s_stProxys s1) = length (s_stProxys s)" using om.size_assign [OF ok(1)] p(1) by (simp add: s1_def)
  have a1: "acks (of_nat (n + 1)) (s_stProxys s1) = acks (of_nat (n + 1)) (s_stProxys s) + 1"
    unfolding s1_def using acks_credit [OF ok(1) p(1), of "of_nat (n + 1)"] p(2) m n64(1) by (simp add: word_le_nat_alt)
  have le1: "\<forall>k p. om_find k (s_stProxys s1) = Some (Some p) \<longrightarrow> unat (p_ulMatchIndex p) \<le> n + 1"
    using le m by (auto simp: s1_def)
  then have a2: "acks (of_nat (n + 2)) (s_stProxys s1) = 0"
    using inv1 n64(2) by (intro acks_0) (auto simp: srv_inv_def word_less_nat_alt le_imp_less_Suc)
  have "\<exists>b j. RaftServer_ChangeCommitIndex s1 = Inr (b, s1\<lparr>s_dwCommitIndex := j\<rparr>)
      \<and> unat j = (if unat (s_dwCommitIndex s) = n
           then committed n (length (s_stProxys s)) (acks (of_nat (n + 1)) (s_stProxys s) + 1) else n + 1)"
  proof (cases "unat (s_dwCommitIndex s) = n")
    case True
    then have nx: "s_dwCommitIndex s1 + 1 = of_nat (n + 1)" by (auto simp: s1_def add.commute)
    have uc: "ucast (of_nat (n + 1) :: u32) = (of_nat (n + 1) :: u64)"
      using n32 n64(1) by (intro word_unat_eq_iff [THEN iffD2]) (simp add: unat_ucast_u64)
    have ent: "s_stEntries s1 = s_stEntries s" "s_dwCurrentTerm s1 = s_dwCurrentTerm s" by (simp_all add: s1_def)
    have "RaftServer_ChangeCommitIndex s1 =
        (if length (s_stProxys s) < 2 * (acks (of_nat (n + 1)) (s_stProxys s) + 1)
         then Inr (True, s1\<lparr>s_dwCommitIndex := of_nat (n + 1)\<rparr>) else Inr (False, s1\<lparr>s_dwCommitIndex := s_dwCommitIndex s\<rparr>))"
      unfolding ChangeCommitIndex_eq [OF inv1] nx uc a1 len n32 ent using n t by (simp add: s1_def)
    with True n32 show ?thesis unfolding committed_def by metis
  next
    case False
    with ci have c: "unat (s_dwCommitIndex s) = n + 1" by (simp add: s_def)
    have "unat (s_dwCommitIndex s1 + 1) = n + 2" using c n by (simp add: s1_def unat_word_ariths)
    then have "ucast (s_dwCommitIndex s1 + 1) = (of_nat (n + 2) :: u64)"
      using n64(2) by (intro word_unat_eq_iff [THEN iffD2]) (simp add: unat_ucast_u64)
    then show ?thesis
      using ChangeCommitIndex_eq [OF inv1] a2 c by (auto intro!: exI [of _ "s_dwCommitIndex s"] simp: s1_def)
  qed
  then obtain b j where cc: "RaftServer_ChangeCommitIndex s1 = Inr (b, s1\<lparr>s_dwCommitIndex := j\<rparr>)"
      "unat j = (if unat (s_dwCommitIndex s) = n
           then committed n (length (s_stProxys s)) (acks (of_nat (n + 1)) (s_stProxys s) + 1) else n + 1)" by blast
  let ?w = "w\<lparr>w_server := s1\<lparr>s_dwCommitIndex := j\<rparr>\<rparr>"
  have "ModApi_AppendEntriesR E c r w = Inr ?w"
    using AppendEntriesR_ack [OF x(1,3,2) p(1) [unfolded s_def] r] cc(1) by (simp add: s1_def s_def)
  moreover have ne: "i' \<noteq> i" if "(c', i') \<in> set cs" for c' i' using aw that by (force simp: awaiting_def)
  have "awaiting n cs ?w"
    using aw inv1 le1 by (auto simp: awaiting_def s1_def s_def srv_inv_def dest: ne)
  ultimately show ?thesis using cc(2) a1 len by (simp add: s1_def)
qed

lemma acks_fold:
  assumes "awaiting n cs w" and "ar_term r \<le> s_dwCurrentTerm (w_server w)" "ar_success r" "\<not> ar_isheartbeat r"
    and "unat (s_dwCommitIndex (w_server w)) = n \<or> unat (s_dwCommitIndex (w_server w)) = n + 1"
  defines "got \<equiv> acks (of_nat (n + 1)) (s_stProxys (w_server w)) + length cs"
  shows "\<exists>w'. rfold (\<lambda>(c, i). ModApi_AppendEntriesR E c r) cs w = Inr w'
    \<and> unat (s_dwCommitIndex (w_server w')) = (if unat (s_dwCommitIndex (w_server w)) = n + 1 then n + 1
        else if cs = [] then n else committed n (length (s_stProxys (w_server w))) got)"
  using assms(1,2,5) unfolding got_def
proof (induction cs arbitrary: w)
  case (Cons ci cs)
  obtain c i where ci: "ci = (c, i)" by (cases ci)
  obtain w1 where w1: "ModApi_AppendEntriesR E c r w = Inr w1" "awaiting n cs w1"
      "s_dwCurrentTerm (w_server w1) = s_dwCurrentTerm (w_server w)"
      "length (s_stProxys (w_server w1)) = length (s_stProxys (w_server w))"
      "acks (of_nat (n + 1)) (s_stProxys (w_server w1)) = acks (of_nat (n + 1)) (s_stProxys (w_server w)) + 1"
      "unat (s_dwCommitIndex (w_server w1)) = (if unat (s_dwCommitIndex (w_server w)) = n
         then committed n (length (s_stProxys (w_server w))) (acks (of_nat (n + 1)) (s_stProxys (w_server w)) + 1) else n + 1)"
    using ack_step [OF Cons.prems(1) [unfolded ci] Cons.prems(2) assms(3,4) Cons.prems(3)] by blast
  have "unat (s_dwCommitIndex (w_server w1)) = n \<or> unat (s_dwCommitIndex (w_server w1)) = n + 1"
    using w1(6) by (simp add: committed_def)
  from Cons.IH [OF w1(2) _ this] Cons.prems(2,3) w1 show ?case
    by (cases cs) (auto simp: ci committed_def split: if_splits)
qed auto

text \<open>
  C9. A majority commits. Let the leader's commit index be \<open>n\<close> and no proxy be ahead of entry \<open>n + 1\<close>,
  which is of the leader's term. When followers that had acknowledged \<open>n\<close> acknowledge one
  more entry each, in any order, every call returns, and afterwards the commit index is \<open>n + 1\<close> exactly when
  the proxies that hold the entry are more than half of all, and \<open>n\<close> otherwise. It is never more: acknowledgements
  that come after the majority change nothing.
\<close>

theorem majority_commits:
  assumes "awaiting n cs w" and "cs \<noteq> []" and "unat (s_dwCommitIndex (w_server w)) = n"
    and "ar_term r \<le> s_dwCurrentTerm (w_server w)" and "ar_success r" and "\<not> ar_isheartbeat r"
  shows "\<exists>w'. rfold (\<lambda>(c, i). ModApi_AppendEntriesR E c r) cs w = Inr w'
    \<and> unat (s_dwCommitIndex (w_server w')) =
        (if length (s_stProxys (w_server w)) < 2 * (acks (of_nat (n + 1)) (s_stProxys (w_server w)) + length cs)
         then n + 1 else n)"
  using acks_fold [OF assms(1,4-6), of E] assms(2,3) by (simp add: committed_def)

text \<open>A leader of three: itself and the nodes 5 and 6, with entry 1 not yet committed.\<close>

definition sample_trio :: "(bytes \<times> bytes) list world" where
  "sample_trio = sample_leader\<lparr>w_server := (w_server sample_leader)\<lparr>
     s_stProxys := [(5, Some (RaftProxy_new 5)), (6, Some (RaftProxy_new 6))]\<rparr>,
     w_conns := [0 \<mapsto> calm_conn\<lparr>cn_pstProxy := Some 5\<rparr>, 1 \<mapsto> calm_conn\<lparr>cn_pstProxy := Some 6\<rparr>]\<rparr>"

theorem majority_commits_witness:
  "\<exists>w' r. rfold (\<lambda>(c, i :: u32). ModApi_AppendEntriesR calm_env c r) [(1, 6), (0, 5)] sample_trio = Inr w'
    \<and> unat (s_dwCommitIndex (w_server w')) = 1"
proof -
  let ?r = "appendentries_r_SharedCtor\<lparr>ar_success := True, ar_isheartbeat := False\<rparr>"
  have ok: "srv_inv (w_server sample_trio)"
    using sample_leader_inv(1) by (auto simp: sample_trio_def srv_inv_def om_ok_def split: if_splits)
  have "awaiting 0 [(1, 6), (0, 5)] sample_trio"
    unfolding awaiting_def using ok sample_log_own(2)
    by (auto simp: sample_trio_def sample_log_def cfg_entry_def split: if_splits) (simp_all add: RaftProxy_new_def)
  moreover have "unat (s_dwCommitIndex (w_server sample_trio)) = 0"
    by (simp add: sample_trio_def sample_leader_def set_conn_def calm_server_simps)
  moreover have "length (s_stProxys (w_server sample_trio)) = 2" by (simp add: sample_trio_def)
  ultimately have "\<exists>w'. rfold (\<lambda>(c, i :: u32). ModApi_AppendEntriesR calm_env c ?r) [(1, 6), (0, 5)] sample_trio = Inr w'
      \<and> unat (s_dwCommitIndex (w_server w')) = 1"
    using majority_commits [of 0 "[(1, 6), (0, 5)]" sample_trio ?r calm_env]
    by (simp add: appendentries_r_SharedCtor_def del: rfold.simps)
  then show ?thesis by blast
qed

section \<open>Acknowledgements that the log does not cover\<close>

text \<open>
  A leader that has committed all of its log, and acknowledgements on the connections \<open>cs\<close> (each with the
  node it is tied to) of followers that have already acknowledged all of it: duplicates or forgeries.
\<close>

definition surplus :: "(nat \<times> u32) list \<Rightarrow> 'db world \<Rightarrow> bool" where
  "surplus cs w \<longleftrightarrow> w_alive w \<and> srv_inv (w_server w)
     \<and> 0 < length (s_stEntries (w_server w)) \<and> length (s_stEntries (w_server w)) < 2 ^ 31
     \<and> unat (s_dwCommitIndex (w_server w)) = length (s_stEntries (w_server w)) - 1
     \<and> distinct (map snd cs)
     \<and> (\<forall>(c, i) \<in> set cs. (\<exists>x. w_conns w c = Some x \<and> cn_pstProxy x = Some i)
          \<and> (\<exists>p. om_find i (s_stProxys (w_server w)) = Some (Some p)
               \<and> unat (p_ulMatchIndex p) = length (s_stEntries (w_server w)) - 1))"

text \<open>The proxies whose match index is behind the end of the log.\<close>

abbreviation (input) beyond :: "'db world \<Rightarrow> nat" where
  "beyond w \<equiv> acks (of_nat (length (s_stEntries (w_server w)))) (s_stProxys (w_server w))"

lemma surplus_step:
  assumes sp: "surplus ((c, i) # cs) w"
    and r: "ar_term r \<le> s_dwCurrentTerm (w_server w)" "ar_success r" "\<not> ar_isheartbeat r"
  defines "s \<equiv> w_server w"
  shows "if length (s_stProxys s) < 2 * (beyond w + 1) then ModApi_AppendEntriesR E c r w = Inl OutOfRange
    else \<exists>ps. ModApi_AppendEntriesR E c r w = Inr (w\<lparr>w_server := s\<lparr>s_stProxys := ps\<rparr>\<rparr>)
      \<and> surplus cs (w\<lparr>w_server := s\<lparr>s_stProxys := ps\<rparr>\<rparr>) \<and> length ps = length (s_stProxys s)
      \<and> acks (of_nat (length (s_stEntries s))) ps = beyond w + 1"
proof -
  define N where "N = length (s_stEntries s)"
  from sp obtain x p where x: "w_conns w c = Some x" "cn_pstProxy x = Some i" "w_alive w"
    and p: "om_find i (s_stProxys s) = Some (Some p)" "unat (p_ulMatchIndex p) = N - 1"
    and inv: "srv_inv s" and n: "0 < N" "N < 2 ^ 31" and ci: "unat (s_dwCommitIndex s) = N - 1"
    by (auto simp: surplus_def s_def N_def)
  define s1 where "s1 = s\<lparr>s_stProxys := om_assign i (Some (credit p)) (s_stProxys s)\<rparr>"
  have n64: "unat (of_nat N :: u64) = N" by (rule unat_of_nat_u64) (use n in simp)
  have m: "unat (p_ulMatchIndex (credit p)) = N" using p(2) n by (simp add: credit_def unat_word_ariths)
  have ok: "om_ok (s_stProxys s)" "proxy_ok i (Some p)" using inv p(1) by (auto simp: srv_inv_def)
  then have inv1: "srv_inv s1" using inv by (auto simp: s1_def srv_inv_def proxy_ok_def credit_def)
  have len: "length (s_stProxys s1) = length (s_stProxys s)" using om.size_assign [OF ok(1)] p(1) by (simp add: s1_def)
  have a1: "acks (of_nat N) (s_stProxys s1) = acks (of_nat N) (s_stProxys s) + 1"
    unfolding s1_def using acks_credit [OF ok(1) p(1), of "of_nat N"] p(2) m n n64 by (simp add: word_le_nat_alt)
  have nx: "unat (s_dwCommitIndex s1 + 1) = N" using ci n by (simp add: s1_def unat_word_ariths)
  then have uc: "ucast (s_dwCommitIndex s1 + 1) = (of_nat N :: u64)"
    using n64 by (intro word_unat_eq_iff [THEN iffD2]) (simp add: unat_ucast_u64)
  have cc: "RaftServer_ChangeCommitIndex s1 =
      (if length (s_stProxys s) < 2 * (acks (of_nat N) (s_stProxys s) + 1) then Inl OutOfRange else Inr (False, s1))"
    unfolding ChangeCommitIndex_eq [OF inv1] uc a1 len nx by (simp add: s1_def N_def)
  have run: "ModApi_AppendEntriesR E c r w =
      rbind (RaftServer_ChangeCommitIndex s1) (\<lambda>(b, s). Inr (w\<lparr>w_server := s\<rparr>))"
    using AppendEntriesR_ack [OF x(1,3,2) p(1) [unfolded s_def] r] by (simp add: s1_def s_def)
  have ne: "i' \<noteq> i" if "(c', i') \<in> set cs" for c' i' using sp that by (force simp: surplus_def)
  have "surplus cs (w\<lparr>w_server := s1\<rparr>)"
    using sp inv1 by (auto simp: surplus_def s1_def s_def dest: ne)
  then show ?thesis using cc run len a1 by (auto simp: s1_def N_def s_def)
qed

lemma surplus_fold:
  assumes "surplus cs w" and "ar_term r \<le> s_dwCurrentTerm (w_server w)" "ar_success r" "\<not> ar_isheartbeat r"
    and "cs \<noteq> [] \<or> 2 * beyond w \<le> length (s_stProxys (w_server w))"
  shows "if length (s_stProxys (w_server w)) < 2 * (beyond w + length cs)
    then rfold (\<lambda>(c, i). ModApi_AppendEntriesR E c r) cs w = Inl OutOfRange
    else \<exists>ps. rfold (\<lambda>(c, i). ModApi_AppendEntriesR E c r) cs w = Inr (w\<lparr>w_server := (w_server w)\<lparr>s_stProxys := ps\<rparr>\<rparr>)"
  using assms(1,2,5)
proof (induction cs arbitrary: w)
  case Nil
  then show ?case by (auto intro: exI [of _ "s_stProxys (w_server w)"])
next
  case (Cons ci cs)
  obtain c i where ci: "ci = (c, i)" by (cases ci)
  note step = surplus_step [OF Cons.prems(1) [unfolded ci] Cons.prems(2) assms(3,4), of E]
  show ?case
  proof (cases "length (s_stProxys (w_server w)) < 2 * (beyond w + 1)")
    case True
    with step show ?thesis by (simp add: ci)
  next
    case False
    with step obtain ps where ps: "ModApi_AppendEntriesR E c r w = Inr (w\<lparr>w_server := (w_server w)\<lparr>s_stProxys := ps\<rparr>\<rparr>)"
        "surplus cs (w\<lparr>w_server := (w_server w)\<lparr>s_stProxys := ps\<rparr>\<rparr>)" "length ps = length (s_stProxys (w_server w))"
        "acks (of_nat (length (s_stEntries (w_server w)))) ps = beyond w + 1"
      by auto
    show ?thesis using Cons.IH [OF ps(2)] Cons.prems(2) ps False by (auto simp: ci)
  qed
qed

text \<open>
  C36. Acknowledgements that the log does not cover end the leader. Let all of the leader's log be committed, and
  let followers whose match index is already the last index acknowledge once more (duplicated or forged
  messages), each once, in any order. As long as the proxies that are then counted beyond the end of the log
  are at most half of all, every call returns and neither the log nor the commit index changes; as soon as they
  are more than half, \<open>ChangeCommitIndex\<close> reads behind the end of the log. With a single follower,
  the first such acknowledgement is enough.
\<close>

theorem ack_overrun:
  assumes "surplus cs w" and "cs \<noteq> []"
    and "ar_term r \<le> s_dwCurrentTerm (w_server w)" and "ar_success r" and "\<not> ar_isheartbeat r"
  shows "if length (s_stProxys (w_server w)) < 2 * (acks (of_nat (length (s_stEntries (w_server w)))) (s_stProxys (w_server w)) + length cs)
    then rfold (\<lambda>(c, i). ModApi_AppendEntriesR E c r) cs w = Inl OutOfRange
    else \<exists>w'. rfold (\<lambda>(c, i). ModApi_AppendEntriesR E c r) cs w = Inr w'
      \<and> s_stEntries (w_server w') = s_stEntries (w_server w) \<and> s_dwCommitIndex (w_server w') = s_dwCommitIndex (w_server w)"
  using surplus_fold [OF assms(1,3-5), of E] assms(2) by (auto split: if_splits)

theorem ack_overrun_witness:
  "let w = sample_trio\<lparr>w_server := (w_server sample_trio)\<lparr>s_dwCommitIndex := 1,
      s_stProxys := [(5, Some (credit (RaftProxy_new 5))), (6, Some (credit (RaftProxy_new 6)))]\<rparr>\<rparr> in
   \<exists>r. rfold (\<lambda>(c, i :: u32). ModApi_AppendEntriesR calm_env c r) [(1, 6), (0, 5)] w = Inl OutOfRange
     \<and> (\<exists>w'. rfold (\<lambda>(c, i :: u32). ModApi_AppendEntriesR calm_env c r) [(1, 6)] w = Inr w')"
proof -
  let ?w = "sample_trio\<lparr>w_server := (w_server sample_trio)\<lparr>s_dwCommitIndex := 1,
      s_stProxys := [(5, Some (credit (RaftProxy_new 5))), (6, Some (credit (RaftProxy_new 6)))]\<rparr>\<rparr>"
  let ?r = "appendentries_r_SharedCtor\<lparr>ar_success := True, ar_isheartbeat := False\<rparr>"
  have "srv_inv (w_server ?w)"
    using sample_leader_inv(1)
    by (auto simp: sample_trio_def srv_inv_def om_ok_def proxy_ok_def credit_def RaftProxy_new_def split: if_splits)
  then have sp: "surplus cs ?w" if "cs = [(1, 6), (0, 5)] \<or> cs = [(1, 6)]" for cs
    unfolding surplus_def using that sample_log_own(2)
    by (auto simp: sample_trio_def sample_log_def) (simp_all add: credit_def RaftProxy_new_def)
  have "acks (of_nat (length (s_stEntries (w_server ?w)))) (s_stProxys (w_server ?w)) = 0"
    "length (s_stProxys (w_server ?w)) = 2"
    by (simp_all add: sample_trio_def sample_log_def acks_def credit_def RaftProxy_new_def)
      (simp add: word_le_nat_alt)
  then show ?thesis
    using ack_overrun [OF sp, of "[(1, 6), (0, 5)]" ?r calm_env] ack_overrun [OF sp, of "[(1, 6)]" ?r calm_env]
    by (auto simp: Let_def appendentries_r_SharedCtor_def simp del: rfold.simps intro!: exI [of _ ?r])
qed

section \<open>The follower's commit index\<close>

text \<open>
  C35. The commit index of a follower can go back. Whenever it is below the \<open>leadercommit\<close> of a message,
  it is set to the index of the last entry that this message covers, accepted or not. A message that covers less
  than what is committed, such as one that was delayed, therefore takes back what was committed.
\<close>

theorem commit_moves_back:
  assumes "calm_store E" and "w_conns w c = Some x" and "w_alive w" and "srv_inv (w_server w)"
    and "length (s_stEntries (w_server w)) < 2 ^ 32 - 1"
    and "aq_prelogindex p + 2 \<noteq> 0" and "aq_prelogindex p \<noteq> - 1"
    and "list_all (\<lambda>e. 0 \<notin> set (en_host e)) (aq_entries p)"
    and "s_dwCommitIndex (w_server w) < aq_leadercommit p"
    and "aq_prelogindex p + of_nat (length (aq_entries p)) < s_dwCommitIndex (w_server w)"
    and "ModApi_AppendEntriesQ E c p w = Inr w'"
  shows "s_dwCommitIndex (w_server w') = aq_prelogindex p + of_nat (length (aq_entries p))
    \<and> s_dwCommitIndex (w_server w') < s_dwCommitIndex (w_server w)"
proof -
  let ?f = "follower_step p (abs_follower (w_server w))"
  obtain w2 where w2: "ModApi_AppendEntriesQ E c p w = send_frame E c 260 (M_appendentries_r (fst ?f)) w2"
      "abs_follower (w_server w2) = snd ?f"
    using AppendEntriesQ_step [OF assms(1-8)] by blast
  have "w_server w' = w_server w2" using assms(11) unfolding w2(1) by (rule send_frame_server)
  then have "s_dwCommitIndex (w_server w') = f_commit (snd ?f)" using arg_cong [OF w2(2), of f_commit]
    by (simp add: abs_follower_def)
  also have "\<dots> = min (aq_leadercommit p) (aq_prelogindex p + of_nat (length (aq_entries p)))"
    using assms(9) by (simp add: follower_step_def f_terms_def f_commits_def abs_follower_def Let_def)
  finally show ?thesis using assms(9,10) by auto
qed

theorem commit_moves_back_witness:
  "\<exists>w'. ModApi_AppendEntriesQ calm_env 0 (sample_entries\<lparr>aq_leadercommit := 9\<rparr>)
       (calm_world\<lparr>w_server := calm_server\<lparr>s_dwCommitIndex := 7\<rparr>\<rparr>) = Inr w'
     \<and> s_dwCommitIndex (w_server w') = 2"
proof -
  let ?w = "calm_world\<lparr>w_server := calm_server\<lparr>s_dwCommitIndex := 7\<rparr>\<rparr>" and ?p = "sample_entries\<lparr>aq_leadercommit := 9\<rparr>"
  have inv: "srv_inv (w_server ?w)" by (simp add: srv_inv_def calm_server_simps)
  have "fst (follower_step ?p (abs_follower (w_server ?w))) = sample_reply"
    by (simp add: follower_step_def f_terms_def f_accepts_def f_commits_def abs_follower_def sample_entries_def
        appendentries_q_SharedCtor_def appendentries_r_SharedCtor_def sample_reply_def calm_server_simps Let_def)
  then obtain w' where w': "ModApi_AppendEntriesQ calm_env 0 ?p ?w = Inr w'"
    using calm_delivery [of ?w calm_conn ?p] inv sample_conditions sample_reply_fits by (auto simp: calm_server_simps)
  with inv sample_conditions show ?thesis
    using commit_moves_back [OF calm.calm_store_axioms, of ?w 0 calm_conn ?p w']
    by (simp add: calm_server_simps) (simp add: sample_entries_def appendentries_q_SharedCtor_def)
qed

end
