(* ===== verification/Raft_Join.thy ===== *)
theory Raft_Join
  imports Raft_Leader
begin

text \<open>
  How nodes join: the handshake on a leader and on a node that is not one, for a node that is
  new, for one that is known and connects again, and for one whose old connection is gone; and
  what becoming leader does.
\<close>

section \<open>The handshake on the leader\<close>

lemma HandshakeQ_leader:
  assumes "w_conns w c = Some x" and "w_alive w" and "s_stRole (w_server w) = Leader"
  shows "ModApi_HandshakeQ E c p w =
    rbind (RaftServer_ProxyConnFd (hq_nodeid p) (w_server w)) (\<lambda>fd.
    rbind (hsq_join E c p (x\<lparr>cn_iRaftPort := sint (hq_raftport p)\<rparr>) fd
        (set_conn c (x\<lparr>cn_iRaftPort := sint (hq_raftport p)\<rparr>) w)) (\<lambda>w. Mod_HandlePreSendMsg E c 258 (handshake_reply True) w))"
  using assms
  by (simp add: ModApi_HandshakeQ_def conn_lock_def Conn_Server_IsLeader_def ask_server_def with_conn_def
      Conn_ProxyConnFd_def set_conn_def Let_def)

text \<open>A new node up to the broadcast.\<close>

lemma hsq_join_new:
  assumes cs: "calm_store E" and x: "w_conns w c = Some x" and al: "w_alive w"
    and new: "om_find (hq_nodeid p) (s_stProxys (w_server w)) = None" and host: "0 \<notin> set (cn_strAddr x)"
  shows "\<exists>w2. hsq_join E c p x (- 1) w = RaftServer_BroadCastAppendEntries E False w2
    \<and> w_conns w2 = (w_conns w)(c \<mapsto> x\<lparr>cn_pstProxy := Some (hq_nodeid p)\<rparr>)
    \<and> s_stEntries (w_server w2) = s_stEntries (w_server w) @
        [cfg_entry (s_dwCurrentTerm (w_server w)) (cn_strAddr x) (sint (hq_raftport p)) (sint (hq_nodeid p))]
    \<and> s_stProxys (w_server w2) = om_assign (hq_nodeid p)
        (Some (RaftProxy_Tie c (cn_iFd x) (RaftProxy_new (hq_nodeid p)))) (s_stProxys (w_server w))"
proof -
  let ?i = "hq_nodeid p" and ?s = "w_server w"
  let ?ps = "om_assign ?i (Some (RaftProxy_Tie c (cn_iFd x) (RaftProxy_new ?i))) (s_stProxys ?s)"
  let ?x = "x\<lparr>cn_pstProxy := Some ?i\<rparr>" and ?s1 = "?s\<lparr>s_stProxys := ?ps\<rparr>"
  have add: "Conn_Server_AddProxy ?i w = Inr (w\<lparr>w_server := ?s\<lparr>s_stProxys :=
      om_assign ?i (Some (RaftProxy_new ?i)) (s_stProxys ?s)\<rparr>\<rparr>)"
    using al new by (simp add: Conn_Server_AddProxy_def on_server_def RaftServer_AddProxy_def)
  let ?s0 = "?s\<lparr>s_stProxys := om_assign ?i (Some (RaftProxy_new ?i)) (s_stProxys ?s)\<rparr>"
  have tie: "Conn_Tie c ?i (w\<lparr>w_server := ?s0\<rparr>) = Inr (set_conn c ?x (w\<lparr>w_server := ?s1\<rparr>))"
    using al x
    by (simp add: Conn_Tie_def with_conn_def RaftServer_GetProxyByID_def om_index_def proxy_lock_def set_conn_def
        upd_server_def proxy_update_def)
  obtain r where r: "e_after E (s_nAllocs ?s1) = 0 # r" using calm_store.after [OF cs] by blast
  obtain s2 where s2: "RaftServer_AppendCfgLog E (cn_strAddr x) (sint (hq_raftport p)) (sint ?i) ?s1 = Inr s2"
      "s_stEntries s2 = s_stEntries ?s1 @
        [cfg_entry (s_dwCurrentTerm ?s1) (cn_strAddr x) (sint (hq_raftport p)) (sint ?i)]"
    using AppendCfgLog_calm [OF calm_store.nul_free [OF cs] host r calm_store.put_ok [OF cs],
        of "sint (hq_raftport p)" "sint ?i"] by auto
  have ps: "s_stProxys s2 = ?ps" using s2(1) by (auto elim!: AppendCfgLog_cases)
  let ?w2 = "(set_conn c ?x w)\<lparr>w_server := s2\<rparr>"
  have "hsq_join E c p x (- 1) w = RaftServer_BroadCastAppendEntries E False ?w2"
    using al add tie s2(1)
    by (simp add: hsq_join_def Conn_Server_AppendCfgLog_def on_server_def set_conn_def
        Conn_Server_BroadCastAppendEntries_def)
  with s2(2) ps show ?thesis by (intro exI [of _ ?w2]) (simp add: set_conn_def)
qed

text \<open>
  C25. A new node joins. On the leader, a handshake of a node without a proxy ties a new
  proxy and the connection to each other, appends a configuration entry with the peer's address,
  the port and the id of the node, in the current term, and then broadcasts and answers
  \<open>true\<close>; no other proxy is touched before the broadcast.
\<close>

theorem HandshakeQ_joins:
  assumes "calm_store E" and "w_conns w c = Some x" and "w_alive w" and "s_stRole (w_server w) = Leader"
    and "om_find (hq_nodeid p) (s_stProxys (w_server w)) = None" and "0 \<notin> set (cn_strAddr x)"
  shows "\<exists>w2. ModApi_HandshakeQ E c p w =
      rbind (RaftServer_BroadCastAppendEntries E False w2) (\<lambda>w. Mod_HandlePreSendMsg E c 258 (handshake_reply True) w)
    \<and> w_conns w2 c = Some (x\<lparr>cn_iRaftPort := sint (hq_raftport p), cn_pstProxy := Some (hq_nodeid p)\<rparr>)
    \<and> s_stEntries (w_server w2) = s_stEntries (w_server w) @
        [cfg_entry (s_dwCurrentTerm (w_server w)) (cn_strAddr x) (sint (hq_raftport p)) (sint (hq_nodeid p))]
    \<and> (\<forall>k. om_find k (s_stProxys (w_server w2)) =
        (if k = hq_nodeid p then Some (Some (RaftProxy_Tie c (cn_iFd x) (RaftProxy_new k)))
         else om_find k (s_stProxys (w_server w))))"
proof -
  let ?x = "x\<lparr>cn_iRaftPort := sint (hq_raftport p)\<rparr>"
  have x: "w_conns (set_conn c ?x w) c = Some ?x" "w_alive (set_conn c ?x w)"
      "om_find (hq_nodeid p) (s_stProxys (w_server (set_conn c ?x w))) = None" "0 \<notin> set (cn_strAddr ?x)"
    using assms by (simp_all add: set_conn_def)
  obtain w2 where w2: "hsq_join E c p ?x (- 1) (set_conn c ?x w) = RaftServer_BroadCastAppendEntries E False w2"
      "w_conns w2 c = Some (?x\<lparr>cn_pstProxy := Some (hq_nodeid p)\<rparr>)"
      "s_stEntries (w_server w2) = s_stEntries (w_server w) @
        [cfg_entry (s_dwCurrentTerm (w_server w)) (cn_strAddr x) (sint (hq_raftport p)) (sint (hq_nodeid p))]"
      "s_stProxys (w_server w2) = om_assign (hq_nodeid p)
        (Some (RaftProxy_Tie c (cn_iFd x) (RaftProxy_new (hq_nodeid p)))) (s_stProxys (w_server w))"
    using hsq_join_new [OF assms(1) x] by (auto simp: set_conn_def)
  have "RaftServer_ProxyConnFd (hq_nodeid p) (w_server w) = Inr (- 1)"
    using assms(5) by (simp add: RaftServer_ProxyConnFd_def)
  then have "ModApi_HandshakeQ E c p w =
      rbind (RaftServer_BroadCastAppendEntries E False w2) (\<lambda>w. Mod_HandlePreSendMsg E c 258 (handshake_reply True) w)"
    using HandshakeQ_leader [OF assms(2-4), of E p] w2(1) by simp
  with w2(2-4) show ?thesis by auto
qed

definition sample_hello :: handshake_q where
  "sample_hello = handshake_q_SharedCtor\<lparr>hq_raftport := 80, hq_nodeid := 9\<rparr>"

theorem HandshakeQ_joins_witness:
  "\<exists>w2. ModApi_HandshakeQ calm_env 0 sample_hello sample_leader =
      rbind (RaftServer_BroadCastAppendEntries calm_env False w2)
        (\<lambda>w. Mod_HandlePreSendMsg calm_env 0 258 (handshake_reply True) w)
    \<and> s_stEntries (w_server w2) = sample_log @ [cfg_entry 0 (str ''10.0.0.7'') 80 9]
    \<and> om_find 9 (s_stProxys (w_server w2)) = Some (Some (RaftProxy_Tie 0 7 (RaftProxy_new 9)))"
  using HandshakeQ_joins [OF calm.calm_store_axioms, of sample_leader 0 "calm_conn\<lparr>cn_pstProxy := Some 5\<rparr>" sample_hello]
  by (auto simp: sample_hello_def handshake_q_SharedCtor_def calm_conn_def str_def of_char_def)

text \<open>
  A node that is not the leader refuses a handshake: it answers \<open>false\<close>, and neither
  its server nor any other connection changes.
\<close>

lemma HandshakeQ_refused:
  assumes "w_conns w c = Some x" and "w_alive w" and "s_stRole (w_server w) \<noteq> Leader"
  shows "ModApi_HandshakeQ E c p w = send_frame E c 258 (handshake_reply False) w
    \<and> (\<forall>w'. ModApi_HandshakeQ E c p w = Inr w' \<longrightarrow>
         w_server w' = w_server w \<and> (\<forall>c'. c' \<noteq> c \<longrightarrow> w_conns w' c' = w_conns w c'))"
proof -
  have "ModApi_HandshakeQ E c p w = send_frame E c 258 (handshake_reply False) w"
    using assms by (simp add: ModApi_HandshakeQ_def conn_lock_def Conn_Server_IsLeader_def ask_server_def
        Mod_HandlePreSendMsg_def)
  moreover have "w_conns w' c' = w_conns w c'"
    if "send_frame E c 258 m w = Inr w'" "c' \<noteq> c" for w' c' m
    using that by (auto simp: send_frame_def with_conn_def flush_out_def Let_def set_conn_def emit_def rbind_Inr_iff
        split: option.splits if_splits)
  ultimately show ?thesis using send_frame_server [of E c 258 _ w] by auto
qed

section \<open>Coming back\<close>

text \<open>
  The node is known under another descriptor. \<open>Server_CloseConn\<close> is called on the new
  connection, and it is this connection's channel that it disables.
\<close>







section \<open>Becoming leader\<close>

lemma rfold_idle: "(\<And>x. x \<in> set xs \<Longrightarrow> f x w = Inr w) \<Longrightarrow> rfold f xs w = Inr w"
  by (induction xs) auto

text \<open>
  Becoming leader tells nobody. On a server that satisfies its invariant no proxy is
  \<open>InActive\<close>, and \<open>BecomeLeader\<close> resets the indices of, and sends a heartbeat to, just
  the \<open>InActive\<close> ones: it only sets the role. The term stays what it was.
\<close>

lemma BecomeLeader_silent:
  assumes "srv_inv (w_server w)"
  shows "RaftServer_BecomeLeader E w = Inr (w\<lparr>w_server := (w_server w)\<lparr>s_stRole := Leader\<rparr>\<rparr>)"
proof -
  let ?s = "w_server w"
  have "\<exists>p. om_find k (s_stProxys ?s) = Some (Some p) \<and> p_stState p \<noteq> InActive"
    if "k \<in> set (map fst (s_stProxys ?s))" for k
    using that om_find_None_iff [of k "s_stProxys ?s"] srv_inv_find [OF assms, of k] by (auto simp: proxy_ok_def)
  then show ?thesis
    unfolding RaftServer_BecomeLeader_def for_proxies_def upd_server_def
    by (intro rfold_idle) fastforce
qed

end
