(* ===== verification/Event_Stop.thy ===== *)
theory Event_Stop
  imports Event_Loop
begin

text \<open>
  The event loop as an object: its construction with a poller, the flag that the handler of
  \<open>SIGINT\<close> sets, and \<open>Loop\<close> over what \<open>epoll_wait\<close> returns round by round.
\<close>

section \<open>The poller\<close>

record EPoller =
  ep_iFd :: int
  ep_events :: nat                \<comment> \<open>the size of \<open>m_stWaittingEventList_\<close>\<close>

definition EPoller_new :: "int \<Rightarrow> EPoller" where
  "EPoller_new epoll_fd = \<lparr>ep_iFd = epoll_fd, ep_events = 32\<rparr>"

definition EPoller_destroy :: "EPoller \<Rightarrow> effect list" where
  "EPoller_destroy p = [CloseCall (ep_iFd p)]"

definition IPoller_NewPoller :: "int \<Rightarrow> EPoller option" where
  "IPoller_NewPoller epoll_fd = Some (EPoller_new epoll_fd)"

text \<open>
  The result of \<open>epoll_wait\<close>: a number, and the events it wrote, of which there is room for
  \<open>ep_events\<close>. The active channels of the round are those reported.
\<close>

definition EPoller_Poll :: "int \<Rightarrow> event list \<Rightarrow> 'db world \<Rightarrow> (event list \<times> 'db world) res" where
  "EPoller_Poll iNumEvents evs w =
     (if iNumEvents > 0 then
        rbind (EPoller_FillActiveChannels (take (nat iNumEvents) evs) w) (\<lambda>w. Inr (take (nat iNumEvents) evs, w))
      else Inr ([], w))"

section \<open>The loop object\<close>

record EventLoop =
  el_bIsStop :: bool
  el_pstPoller :: "EPoller option"
  el_bIsInit :: bool

definition EventLoop_new :: "int \<Rightarrow> EventLoop" where
  "EventLoop_new epoll_fd =
     (let el = \<lparr>el_bIsStop = False, el_pstPoller = IPoller_NewPoller epoll_fd, el_bIsInit = False\<rparr> in
      if el_pstPoller el \<noteq> None then el\<lparr>el_bIsInit := True\<rparr> else el)"

definition EventLoop_StopLoop :: "EventLoop \<Rightarrow> EventLoop" where
  "EventLoop_StopLoop el = el\<lparr>el_bIsStop := True\<rparr>"

text \<open>A round: what \<open>epoll_wait\<close> returns, and whether \<open>SIGINT\<close> arrives in its course.\<close>

record wait =
  wt_iNumEvents :: int
  wt_events :: "event list"
  wt_sigint :: bool

definition loop_round :: "'db env \<Rightarrow> wait \<Rightarrow> EventLoop \<times> 'db world \<Rightarrow> (EventLoop \<times> 'db world) res option" where
  "loop_round E r = (\<lambda>(el, w).
     obind (Some (EPoller_Poll (wt_iNumEvents r) (wt_events r) w)) (\<lambda>(active, w).
     obind (if active = [] then Some (Inr w) else handle_all E active w) (\<lambda>w.
       Some (Inr (if wt_sigint r then EventLoop_StopLoop el else el, w)))))"

text \<open>
  \<open>Loop\<close> over the given rounds: it returns when the flag is set (\<open>True\<close>), or waits for a further
  round (\<open>False\<close>).
\<close>

fun loop_rounds :: "'db env \<Rightarrow> wait list \<Rightarrow> EventLoop \<times> 'db world \<Rightarrow> (bool \<times> EventLoop \<times> 'db world) res option" where
  "loop_rounds E [] (el, w) = Some (Inr (el_bIsStop el, el, w))"
| "loop_rounds E (r # rs) (el, w) =
     (if el_bIsStop el then Some (Inr (True, el, w))
      else obind (loop_round E r (el, w)) (loop_rounds E rs))"

definition EventLoop_Loop :: "'db env \<Rightarrow> wait list \<Rightarrow> EventLoop \<times> 'db world \<Rightarrow> (bool \<times> EventLoop \<times> 'db world) res option" where
  "EventLoop_Loop E rs = (\<lambda>(el, w). loop_rounds E rs (el\<lparr>el_bIsStop := False\<rparr>, w))"

section \<open>Stopping\<close>

text \<open>A round of the object is a round of the loop on the events reported.\<close>

lemma loop_round_world:
  assumes "loop_round E r (el, w) = Some (Inr (el', w'))"
  shows "EventLoop_round E (if wt_iNumEvents r > 0 then take (nat (wt_iNumEvents r)) (wt_events r) else []) w = Some (Inr w')
    \<and> el' = (if wt_sigint r then EventLoop_StopLoop el else el)"
  using assms
  by (auto simp: loop_round_def EPoller_Poll_def EventLoop_round_def obind_Inr_iff rbind_Inr_iff
      EPoller_FillActiveChannels_def split: if_splits)

lemma loop_rounds_reachable:
  assumes "loop_rounds E rs (el, w) = Some (Inr (b, el', w'))" and "reachable E w"
  shows "reachable E w' \<and> b = el_bIsStop el'"
  using assms
proof (induction rs arbitrary: el w)
  case (Cons r rs)
  show ?case
  proof (cases "el_bIsStop el")
    case False
    then obtain el1 w1 where "loop_round E r (el, w) = Some (Inr (el1, w1))"
        and "loop_rounds E rs (el1, w1) = Some (Inr (b, el', w'))"
      using Cons.prems(1) by (auto simp: obind_Inr_iff)
    then show ?thesis using Cons.IH Cons.prems(2) loop_round_world reachable.round by metis
  qed (use Cons.prems in auto)
qed auto

lemma loop_rounds_stopped:
  "loop_rounds E rs (el, w) = Some (Inr (True, el', w')) \<Longrightarrow> loop_rounds E (rs @ rs') (el, w) = Some (Inr (True, el', w'))"
proof (induction rs arbitrary: el w)
  case Nil
  then show ?case by (cases rs') auto
next
  case (Cons r rs)
  then show ?case by (auto simp: obind_Inr_iff split: if_splits)
qed

lemma loop_rounds_append:
  "loop_rounds E rs (el, w) = Some (Inr (False, el', w')) \<Longrightarrow> loop_rounds E (rs @ rs') (el, w) = loop_rounds E rs' (el', w')"
proof (induction rs arbitrary: el w)
  case (Cons r rs)
  then show ?case by (auto simp: obind_Inr_iff split: if_splits)
qed auto

text \<open>A stop that is requested before \<open>Loop\<close> is entered is forgotten.\<close>

lemma early_stop_lost: "EventLoop_Loop E rs (EventLoop_StopLoop el, w) = EventLoop_Loop E rs (el, w)"
  by (simp add: EventLoop_Loop_def EventLoop_StopLoop_def)

text \<open>The loop counts as initialised also when \<open>epoll_create1\<close> fails.\<close>

lemma EventLoop_always_init: "el_bIsInit (EventLoop_new epoll_fd)"
  by (simp add: EventLoop_new_def IPoller_NewPoller_def)

end
