(* ===== verification/Leveldb_Slice.thy ===== *)
theory Leveldb_Slice
  imports Leveldb_Store
begin

text \<open>
  \<open>leveldb/slice.h\<close> and \<open>leveldb/status.h\<close>, whose inline functions are compiled into the
  server: keys and values are slices, and every call of the database answers with a status.
  A slice is the memory its pointer leads to and a length; its value is the first \<open>size\<close>
  bytes. The theorem says that the operations are those of byte strings on the values.
\<close>

section \<open>Slices\<close>

record Slice =
  sl_data :: bytes
  sl_size :: nat

definition Slice_empty :: Slice where
  "Slice_empty = \<lparr>sl_data = [0], sl_size = 0\<rparr>"

definition Slice_of :: "bytes \<Rightarrow> nat \<Rightarrow> Slice" where
  "Slice_of d n = \<lparr>sl_data = d, sl_size = n\<rparr>"

definition Slice_string :: "bytes \<Rightarrow> Slice" where
  "Slice_string s = \<lparr>sl_data = s @ [0], sl_size = length s\<rparr>"

definition Slice_is_empty :: "Slice \<Rightarrow> bool" where
  "Slice_is_empty s \<longleftrightarrow> sl_size s = 0"

text \<open>The assertions hold where the header requires them; beyond, memory is read outside the slice.\<close>

definition Slice_at :: "Slice \<Rightarrow> nat \<Rightarrow> u8 res" where
  "Slice_at s n = (if n < sl_size s \<and> n < length (sl_data s) then Inr (sl_data s ! n) else Inl OutOfRange)"

definition Slice_clear :: "Slice \<Rightarrow> Slice" where
  "Slice_clear s = s\<lparr>sl_data := [0], sl_size := 0\<rparr>"

definition Slice_remove_prefix :: "nat \<Rightarrow> Slice \<Rightarrow> Slice res" where
  "Slice_remove_prefix n s =
     (if n \<le> sl_size s then Inr (s\<lparr>sl_data := drop n (sl_data s), sl_size := sl_size s - n\<rparr>) else Inl OutOfRange)"

definition Slice_ToString :: "Slice \<Rightarrow> bytes res" where
  "Slice_ToString s = (if sl_size s \<le> length (sl_data s) then Inr (take (sl_size s) (sl_data s)) else Inl OverRead)"

text \<open>\<open>memcmp\<close>; only the sign of its result is specified.\<close>

fun memcmp :: "bytes \<Rightarrow> bytes \<Rightarrow> nat \<Rightarrow> int res" where
  "memcmp a b 0 = Inr 0"
| "memcmp (x # a) (y # b) (Suc n) = (if x < y then Inr (- 1) else if x > y then Inr 1 else memcmp a b n)"
| "memcmp a b (Suc n) = Inl OverRead"

definition Slice_starts_with :: "Slice \<Rightarrow> Slice \<Rightarrow> bool res" where
  "Slice_starts_with s x =
     (if sl_size s \<ge> sl_size x then rbind (memcmp (sl_data s) (sl_data x) (sl_size x)) (\<lambda>r. Inr (r = 0))
      else Inr False)"

definition Slice_eq :: "Slice \<Rightarrow> Slice \<Rightarrow> bool res" where
  "Slice_eq x y =
     (if sl_size x = sl_size y then rbind (memcmp (sl_data x) (sl_data y) (sl_size x)) (\<lambda>r. Inr (r = 0))
      else Inr False)"

definition Slice_neq :: "Slice \<Rightarrow> Slice \<Rightarrow> bool res" where
  "Slice_neq x y = rbind (Slice_eq x y) (\<lambda>b. Inr (\<not> b))"

definition Slice_compare :: "Slice \<Rightarrow> Slice \<Rightarrow> int res" where
  "Slice_compare a b =
     (let min_len = (if sl_size a < sl_size b then sl_size a else sl_size b) in
      rbind (memcmp (sl_data a) (sl_data b) min_len) (\<lambda>r.
        Inr (if r = 0 then (if sl_size a < sl_size b then - 1 else if sl_size a > sl_size b then 1 else r) else r)))"

section \<open>Statuses\<close>

text \<open>
  The state is a null pointer or an array with the code in its fifth byte. \<open>CopyState\<close>
  is in the library: a parameter.
\<close>

record Status =
  st_state :: "bytes option"

definition kOk :: int where "kOk = 0"
definition kNotFound :: int where "kNotFound = 1"
definition kCorruption :: int where "kCorruption = 2"
definition kNotSupported :: int where "kNotSupported = 3"
definition kInvalidArgument :: int where "kInvalidArgument = 4"
definition kIOError :: int where "kIOError = 5"

lemmas status_codes = kOk_def kNotFound_def kCorruption_def kNotSupported_def kInvalidArgument_def kIOError_def

definition Status_OK :: Status where
  "Status_OK = \<lparr>st_state = None\<rparr>"

definition Status_ok :: "Status \<Rightarrow> bool" where
  "Status_ok s \<longleftrightarrow> st_state s = None"

definition Status_code :: "Status \<Rightarrow> int res" where
  "Status_code s =
     (case st_state s of None \<Rightarrow> Inr kOk | Some st \<Rightarrow> if 4 < length st then Inr (sint (st ! 4)) else Inl OutOfRange)"

definition Status_is :: "int \<Rightarrow> Status \<Rightarrow> bool res" where
  "Status_is c s = rbind (Status_code s) (\<lambda>k. Inr (k = c))"

text \<open>The copies, and the moves with what they leave in the source.\<close>

definition Status_copy :: "(bytes \<Rightarrow> bytes) \<Rightarrow> Status \<Rightarrow> Status" where
  "Status_copy CopyState rhs = \<lparr>st_state = map_option CopyState (st_state rhs)\<rparr>"

text \<open>Pointers are compared first: equal ones are both null or the same object's.\<close>

definition Status_assign :: "(bytes \<Rightarrow> bytes) \<Rightarrow> bool \<Rightarrow> Status \<Rightarrow> Status \<Rightarrow> Status" where
  "Status_assign CopyState same_pointer s rhs =
     (if \<not> same_pointer then s\<lparr>st_state := map_option CopyState (st_state rhs)\<rparr> else s)"

definition Status_move :: "Status \<Rightarrow> Status \<times> Status" where
  "Status_move rhs = (\<lparr>st_state = st_state rhs\<rparr>, rhs\<lparr>st_state := None\<rparr>)"

definition Status_move_assign :: "Status \<Rightarrow> Status \<Rightarrow> Status \<times> Status" where
  "Status_move_assign s rhs = (s\<lparr>st_state := st_state rhs\<rparr>, rhs\<lparr>st_state := st_state s\<rparr>)"

section \<open>Slices are byte strings\<close>

definition slice_val :: "Slice \<Rightarrow> bytes" where
  "slice_val s = take (sl_size s) (sl_data s)"

definition slice_ok :: "Slice \<Rightarrow> bool" where
  "slice_ok s \<longleftrightarrow> sl_size s \<le> length (sl_data s)"

definition lex_less :: "bytes \<Rightarrow> bytes \<Rightarrow> bool" where
  "lex_less a b \<longleftrightarrow> (a, b) \<in> lexord {(x, y). x < y}"

lemma length_slice_val: "slice_ok s \<Longrightarrow> length (slice_val s) = sl_size s"
  by (simp add: slice_val_def slice_ok_def)

lemma memcmp_total:
  "n \<le> length a \<Longrightarrow> n \<le> length b \<Longrightarrow> \<exists>r. memcmp a b n = Inr r \<and> r \<in> {- 1, 0, 1}
     \<and> (r = 0 \<longleftrightarrow> take n a = take n b)
     \<and> (r = - 1 \<longleftrightarrow> lex_less (take n a) (take n b))"
  by (induction a b n rule: memcmp.induct) (auto simp: lex_less_def)

lemma lex_less_take:
  assumes "length a \<le> length b"
  shows "lex_less a b \<longleftrightarrow> lex_less a (take (length a) b) \<or> take (length a) b = a \<and> length a < length b"
  using assms unfolding lex_less_def
proof (induction a b rule: list_induct2')
  case (2 x xs)
  then show ?case by simp
next
  case (4 x xs y ys)
  then show ?case by auto
qed auto

lemma lex_less_take':
  assumes "length b < length a"
  shows "lex_less a b \<longleftrightarrow> lex_less (take (length b) a) b"
  using assms unfolding lex_less_def by (induction a b rule: list_induct2') auto

text \<open>
  C29. On slices within their memory, the three-way comparison never reads outside it and is that of
  the values: the order is the lexicographic one of unsigned bytes, so it agrees with equality.
\<close>

theorem Slice_compare_lexicographic:
  assumes "slice_ok a" and "slice_ok b"
  shows "\<exists>r. Slice_compare a b = Inr r \<and> (r = 0 \<longleftrightarrow> slice_val a = slice_val b)
    \<and> (r < 0 \<longleftrightarrow> lex_less (slice_val a) (slice_val b)) \<and> Slice_eq a b = Inr (r = 0)"
proof -
  let ?n = "min (sl_size a) (sl_size b)"
  have n: "?n \<le> length (sl_data a)" "?n \<le> length (sl_data b)" using assms by (auto simp: slice_ok_def)
  obtain r where r: "memcmp (sl_data a) (sl_data b) ?n = Inr r" "r \<in> {- 1, 0, 1}"
      "r = 0 \<longleftrightarrow> take ?n (sl_data a) = take ?n (sl_data b)"
      "r = - 1 \<longleftrightarrow> lex_less (take ?n (sl_data a)) (take ?n (sl_data b))"
    using memcmp_total [OF n] by blast
  note len = length_slice_val [OF assms(1)] length_slice_val [OF assms(2)]
  consider "sl_size a < sl_size b" | "sl_size a = sl_size b" | "sl_size b < sl_size a" by linarith
  then show ?thesis
  proof cases
    case 1
    then have "lex_less (slice_val a) (slice_val b) \<longleftrightarrow> r = - 1 \<or> r = 0"
      using lex_less_take [of "slice_val a" "slice_val b"] r(3,4) len by (auto simp: slice_val_def min_def)
    moreover have "slice_val a \<noteq> slice_val b" using 1 len by auto
    ultimately show ?thesis using 1 r(1,2) by (auto simp: Slice_compare_def Slice_eq_def min_def)
  next
    case 2
    then show ?thesis using r by (auto simp: Slice_compare_def Slice_eq_def slice_val_def)
  next
    case 3
    then have "lex_less (slice_val a) (slice_val b) \<longleftrightarrow> r = - 1"
      using lex_less_take' [of "slice_val b" "slice_val a"] r(4) len by (auto simp: slice_val_def min_def)
    moreover have "slice_val a \<noteq> slice_val b" using 3 len by auto
    ultimately show ?thesis using 3 r(1,2) by (auto simp: Slice_compare_def Slice_eq_def min_def)
  qed
qed

theorem Slice_compare_lexicographic_witness:
  "\<exists>r. Slice_compare (Slice_string (str ''10'')) (Slice_string (str ''9'')) = Inr r \<and> r < 0"
proof -
  have "slice_ok (Slice_string (str ''10''))" "slice_ok (Slice_string (str ''9''))"
    by (simp_all add: slice_ok_def Slice_string_def)
  moreover have "lex_less (slice_val (Slice_string (str ''10''))) (slice_val (Slice_string (str ''9'')))"
    by (simp add: lex_less_def slice_val_def Slice_string_def str_def of_char_def)
  ultimately show ?thesis using Slice_compare_lexicographic by blast
qed

text \<open>The other operations on the values.\<close>

lemma Slice_starts_with_prefix:
  assumes "slice_ok s" and "slice_ok x"
  shows "Slice_starts_with s x = Inr (\<exists>r. slice_val s = slice_val x @ r)"
proof (cases "sl_size x \<le> sl_size s")
  case True
  have n: "sl_size x \<le> length (sl_data s)" "sl_size x \<le> length (sl_data x)"
    using assms True by (auto simp: slice_ok_def)
  have "(\<exists>r. slice_val s = slice_val x @ r) \<longleftrightarrow> take (sl_size x) (slice_val s) = slice_val x"
    using length_slice_val [OF assms(2)] by (metis append_eq_conv_conj append_take_drop_id)
  then show ?thesis
    using memcmp_total [OF n] True by (auto simp: Slice_starts_with_def slice_val_def min_def)
next
  case False
  then show ?thesis
    using length_slice_val [OF assms(1)] length_slice_val [OF assms(2)]
    by (auto simp: Slice_starts_with_def dest: arg_cong [of _ _ length])
qed

lemma Slice_remove_prefix_val:
  assumes "slice_ok s" and "n \<le> sl_size s"
  shows "\<exists>s'. Slice_remove_prefix n s = Inr s' \<and> slice_ok s' \<and> slice_val s' = drop n (slice_val s)"
  using assms by (simp add: Slice_remove_prefix_def slice_ok_def slice_val_def drop_take)

lemma Slice_ToString_val: "slice_ok s \<Longrightarrow> Slice_ToString s = Inr (slice_val s)"
  by (simp add: Slice_ToString_def slice_ok_def slice_val_def)

lemma Slice_string_val [simp]: "slice_ok (Slice_string s)" "slice_val (Slice_string s) = s"
  by (simp_all add: slice_ok_def slice_val_def Slice_string_def)

text \<open>A moved status keeps its code, and its source becomes a success.\<close>

lemma Status_move_codes:
  "Status_code (fst (Status_move s)) = Status_code s" "Status_ok (snd (Status_move s))"
  "Status_code (fst (Status_move_assign s rhs)) = Status_code rhs"
  "Status_code (snd (Status_move_assign s rhs)) = Status_code s"
  by (simp_all add: Status_move_def Status_move_assign_def Status_code_def Status_ok_def)

end
