(* ===== verification/Redis_Base.thy ===== *)
theory Redis_Base
  imports Std_Map Event_Channel Leveldb_Store
begin

text \<open>
  What \<open>eventloop/RedisChannel\<close> and \<open>timer/Timer\<close> share: C strings in fixed arrays, the
  replies of \<open>redis/hiredis.h\<close>, the commands handed to \<open>redisAsyncCommand\<close>, and the record
  of what was done. The hiredis library itself is prebuilt: whether it takes a command is a
  parameter, and the replies it delivers are arguments of the callbacks.
\<close>

section \<open>C strings\<close>

text \<open>The bytes up to the first zero byte; without one the scan leaves the array.\<close>

definition cstring :: "bytes \<Rightarrow> bytes res" where
  "cstring arr = (if 0 \<in> set arr then Inr (takeWhile (\<lambda>b. b \<noteq> 0) arr) else Inl OverRead)"

text \<open>
  \<open>strchr(s + off, c)\<close> where \<open>s\<close> is the block \<open>mem\<close>: the offset of the first \<open>c\<close> at or
  behind \<open>off\<close> and before the next zero byte.
\<close>

definition strchr :: "bytes \<Rightarrow> nat \<Rightarrow> u8 \<Rightarrow> nat option res" where
  "strchr mem off c =
     rbind (cstring (drop off mem)) (\<lambda>s.
       Inr (if c \<in> set s then Some (off + length (takeWhile (\<lambda>b. b \<noteq> c) s)) else None))"

text \<open>
  \<open>strncpy(dst, s + off, n)\<close> into an array of \<open>sz\<close> zero bytes: it writes exactly \<open>n\<close>
  bytes, zeros behind the end of the source. A negative \<open>n\<close> is a huge \<open>size_t\<close>.
\<close>

definition strncpy :: "nat \<Rightarrow> bytes \<Rightarrow> nat \<Rightarrow> int \<Rightarrow> bytes res" where
  "strncpy sz mem off n =
     (if n < 0 \<or> int sz < n then Inl BufferOverflow
      else
        let src = take (nat n) (drop off mem) in
        if 0 \<notin> set src \<and> length src < nat n then Inl OverRead
        else Inr (let s = takeWhile (\<lambda>b. b \<noteq> 0) src in s @ replicate (sz - length s) 0))"

lemma cstring_terminated: "0 \<notin> set s \<Longrightarrow> cstring (s @ 0 # r) = Inr s"
  by (induction s) (auto simp: cstring_def)

lemma strncpy_fits:
  assumes "length s < sz" and "0 \<notin> set s"
  shows "strncpy sz (pre @ s @ post) (length pre) (int (length s)) = Inr (s @ replicate (sz - length s) 0)"
proof -
  have t: "takeWhile (\<lambda>b. b \<noteq> 0) s = s" using assms(2) by (auto simp: takeWhile_eq_all_conv)
  show ?thesis using assms by (simp add: strncpy_def Let_def t)
qed

lemma cstring_padded: "0 \<notin> set s \<Longrightarrow> 0 < n \<Longrightarrow> cstring (s @ replicate n 0) = Inr s"
  by (cases n) (simp_all add: cstring_terminated)

section \<open>Replies\<close>

text \<open>
  \<open>redisReply\<close>: the length of \<open>str\<close> is \<open>len\<close>, a zero byte follows it, and \<open>element\<close>
  has \<open>elements\<close> members.
\<close>

datatype redisReply = redisReply
  (rr_type: int) (rr_integer: int) (rr_str: "bytes option") (rr_element: "redisReply list")

definition REDIS_REPLY_STRING :: int where "REDIS_REPLY_STRING = 1"
definition REDIS_REPLY_ARRAY :: int where "REDIS_REPLY_ARRAY = 2"
definition REDIS_REPLY_INTEGER :: int where "REDIS_REPLY_INTEGER = 3"

lemmas reply_types = REDIS_REPLY_STRING_def REDIS_REPLY_ARRAY_def REDIS_REPLY_INTEGER_def

text \<open>How a reply is printed: its number and its text, of which a null pointer gives \<open>(null)\<close>.\<close>

definition reply_text :: "redisReply \<Rightarrow> bytes" where
  "reply_text r = (case rr_str r of None \<Rightarrow> str ''(null)'' | Some s \<Rightarrow> takeWhile (\<lambda>b. b \<noteq> 0) s)"

section \<open>Commands\<close>

text \<open>The functions that are registered for a reply.\<close>

datatype redis_callback =
    NoCallback
  | RedisAuthCallback | RedisSubMsgCallback
  | RedisHGETALLCallback | RedisZCARDCallback | RedisZCOUNTCallback | RedisZRANGECallback
  | RedisToDBCallback | RedisResultCallback | RedisRestoreToDBCallback

text \<open>A command by its format and arguments.\<close>

datatype redis_cmd =
    AUTH bytes | SUBSCRIBE bytes
  | HGETALL bytes | ZCARD bytes | ZCOUNT bytes u64
  | MULTI | EXEC
  | ZRANGE bytes int int | ZREMRANGEBYRANK bytes int int | EXPIRE bytes int

datatype redis_effect =
    Sys effect
  | AsyncCommand redis_callback redis_cmd bool   \<comment> \<open>whether \<open>redisAsyncCommand\<close> returned \<open>REDIS_OK\<close>\<close>
  | HandleRead | HandleWrite                     \<comment> \<open>the event is handed to hiredis\<close>
  | Printed bytes                                \<comment> \<open>a line for the log that \<open>Logger::Restore\<close> reads\<close>
  | Said bytes                                   \<comment> \<open>other output\<close>
  | RemoveTimerCall bytes

type_synonym redis_trace = "redis_effect list"

definition redisAsyncCommand :: "(nat \<Rightarrow> bool) \<Rightarrow> redis_callback \<Rightarrow> redis_cmd \<Rightarrow> redis_trace \<Rightarrow> redis_trace" where
  "redisAsyncCommand ok fn cmd tr = tr @ [AsyncCommand fn cmd (ok (length tr))]"

text \<open>The commands of a record, in order.\<close>

fun commands :: "redis_trace \<Rightarrow> (redis_callback \<times> redis_cmd) list" where
  "commands [] = []"
| "commands (AsyncCommand fn cmd b # tr) = (fn, cmd) # commands tr"
| "commands (_ # tr) = commands tr"

fun printed :: "redis_trace \<Rightarrow> bytes list" where
  "printed [] = []"
| "printed (Printed l # tr) = l # printed tr"
| "printed (_ # tr) = printed tr"

lemma commands_append [simp]: "commands (a @ b) = commands a @ commands b"
  by (induction a rule: commands.induct) simp_all

lemma printed_append [simp]: "printed (a @ b) = printed a @ printed b"
  by (induction a rule: printed.induct) simp_all

lemma commands_Sys [simp]: "commands (map Sys es) = []" "printed (map Sys es) = []"
  by (induction es) simp_all

lemma redisAsyncCommand_simps [simp]:
  "commands (redisAsyncCommand ok fn cmd tr) = commands tr @ [(fn, cmd)]"
  "printed (redisAsyncCommand ok fn cmd tr) = printed tr"
  by (simp_all add: redisAsyncCommand_def)

definition say_reply :: "nat \<times> redisReply \<Rightarrow> redis_effect" where
  "say_reply = (\<lambda>(i, r). Said (to_string i @ str '') '' @ reply_text r))"

definition say_replies :: "redisReply list \<Rightarrow> redis_trace" where
  "say_replies rs = map say_reply (enumerate 0 rs)"

lemma say_silent [simp]:
  "commands [say_reply x] = []" "printed [say_reply x] = []"
  "commands (say_replies rs) = []" "printed (say_replies rs) = []"
proof -
  have one: "\<exists>l. say_reply x = Said l" for x by (cases x) (simp add: say_reply_def)
  have "commands (map say_reply xs) = [] \<and> printed (map say_reply xs) = []" for xs
  proof (induction xs)
    case (Cons x xs)
    with one [of x] show ?case by auto
  qed simp
  then show "commands (say_replies rs) = []" "printed (say_replies rs) = []" by (simp_all add: say_replies_def)
  show "commands [say_reply x] = []" "printed [say_reply x] = []" using one [of x] by auto
qed

end
