(* ===== verification/Redis_Channel.thy ===== *)
theory Redis_Channel
  imports Redis_Base
begin

text \<open>
  \<open>eventloop/RedisChannel\<close>: a channel to a redis server that authenticates, subscribes to
  a topic, and puts the numbered messages of the topic in order with a hold-back queue.
\<close>

section \<open>Data\<close>

record Msg =
  m_strOpenid :: bytes
  m_ulExpireTime :: u64
  m_dwMsgID :: u32

definition Msg_new :: "u32 \<Rightarrow> bytes \<Rightarrow> u64 \<Rightarrow> Msg" where
  "Msg_new dwMsgID strOpenid ulExpireTime =
     \<lparr>m_strOpenid = strOpenid, m_ulExpireTime = ulExpireTime, m_dwMsgID = dwMsgID\<rparr>"

text \<open>What the program reads and sets of a \<open>redisAsyncContext\<close>.\<close>

record redisAsyncContext =
  ac_fd :: int
  ac_err :: bool
  ac_ev_data :: bool          \<comment> \<open>whether \<open>ev.data\<close> is set; the hooks are set with it\<close>
  ac_callbacks :: bool        \<comment> \<open>whether the connect and disconnect callbacks are set\<close>

record RedisChannel =
  rc_channel :: Channel
  rc_pstRedisAsyncContext :: redisAsyncContext
  rc_bIsInit :: bool
  rc_bIsSub :: bool
  rc_dwSeq :: u32
  rc_stHoldBackQueue :: "(u32, Msg option) omap"    \<comment> \<open>\<open>None\<close>: a null pointer\<close>

section \<open>Construction\<close>

definition RedisChannel_RedisTodoAuth :: "(nat \<Rightarrow> bool) \<Rightarrow> redis_trace \<Rightarrow> redis_trace" where
  "RedisChannel_RedisTodoAuth ok tr = redisAsyncCommand ok RedisAuthCallback (AUTH (str ''Sh@1424Qbgame'')) tr"

text \<open>Given the context that \<open>redisAsyncConnect\<close> returned, or a null pointer.\<close>

definition RedisChannel_new ::
  "(nat \<Rightarrow> bool) \<Rightarrow> bool \<Rightarrow> redisAsyncContext option \<Rightarrow> bool \<Rightarrow> redis_trace \<Rightarrow> (RedisChannel \<times> redis_trace) res" where
  "RedisChannel_new ok pstOwnerEventLoop pstContext bIsSub tr =
     (case pstContext of
        None \<Rightarrow> Inl NullDeref
      | Some ac \<Rightarrow>
          let ch = (Channel_new (- 1) pstOwnerEventLoop True)\<lparr>ch_iFd := ac_fd ac\<rparr>;
              rc = \<lparr>rc_channel = ch, rc_pstRedisAsyncContext = ac, rc_bIsInit = True, rc_bIsSub = bIsSub,
                    rc_dwSeq = 0, rc_stHoldBackQueue = []\<rparr> in
          if ac_err ac \<or> ac_ev_data ac then Inr (rc\<lparr>rc_bIsInit := False\<rparr>, tr)
          else
            Inr (rc\<lparr>rc_pstRedisAsyncContext := ac\<lparr>ac_ev_data := True, ac_callbacks := True\<rparr>,
                    rc_channel := ch\<lparr>ch_stReadCallback := Some Bind_RedisReadCallback,
                                     ch_stWriteCallback := Some Bind_RedisWriteCallback\<rparr>\<rparr>,
                 RedisChannel_RedisTodoAuth ok tr))"

definition RedisChannel_destroy :: "RedisChannel \<Rightarrow> redis_trace" where
  "RedisChannel_destroy rc = (if ch_iFd (rc_channel rc) \<ge> 0 then [Sys (CloseCall (ch_iFd (rc_channel rc)))] else [])"

definition RedisChannel_IsInit :: "RedisChannel \<Rightarrow> bool" where
  "RedisChannel_IsInit rc \<longleftrightarrow>
     rc_bIsInit rc \<and> Channel_IsInit (rc_channel rc) \<and> \<not> ac_err (rc_pstRedisAsyncContext rc)"

section \<open>Hooks of the library and of the event loop\<close>

definition rc_update :: "(Channel \<Rightarrow> Channel \<times> effect list) \<Rightarrow> RedisChannel \<Rightarrow> RedisChannel \<times> redis_trace" where
  "rc_update f rc = (let (ch, eff) = f (rc_channel rc) in (rc\<lparr>rc_channel := ch\<rparr>, map Sys eff))"

definition RedisChannel_RedisAddRead :: "RedisChannel \<Rightarrow> RedisChannel \<times> redis_trace" where
  "RedisChannel_RedisAddRead rc = rc_update Channel_EnableRead rc"

definition RedisChannel_RedisDelRead :: "RedisChannel \<Rightarrow> RedisChannel \<times> redis_trace" where
  "RedisChannel_RedisDelRead rc = rc_update Channel_DisableRead rc"

definition RedisChannel_RedisAddWrite :: "RedisChannel \<Rightarrow> RedisChannel \<times> redis_trace" where
  "RedisChannel_RedisAddWrite rc = rc_update Channel_EnableWrite rc"

definition RedisChannel_RedisDelWrite :: "RedisChannel \<Rightarrow> RedisChannel \<times> redis_trace" where
  "RedisChannel_RedisDelWrite rc = rc_update Channel_DisableWrite rc"

definition RedisChannel_RedisCleanup :: "RedisChannel \<Rightarrow> RedisChannel \<times> redis_trace" where
  "RedisChannel_RedisCleanup rc = rc_update Channel_DisableAll rc"

definition RedisChannel_RedisReadCallback :: "redis_trace \<Rightarrow> redis_trace" where
  "RedisChannel_RedisReadCallback tr = tr @ [HandleRead]"

definition RedisChannel_RedisWriteCallback :: "redis_trace \<Rightarrow> redis_trace" where
  "RedisChannel_RedisWriteCallback tr = tr @ [HandleWrite]"

text \<open>Both only print, for either status.\<close>

definition RedisChannel_RedisConnectCallback :: "int \<Rightarrow> RedisChannel \<Rightarrow> RedisChannel" where
  "RedisChannel_RedisConnectCallback iStatus rc = rc"

definition RedisChannel_RedisDisconnectCallback :: "int \<Rightarrow> RedisChannel \<Rightarrow> RedisChannel" where
  "RedisChannel_RedisDisconnectCallback iStatus rc = rc"

text \<open>A reply to \<open>AUTH\<close>, or a null pointer when the context has failed.\<close>

definition RedisChannel_RedisAuthCallback ::
  "(nat \<Rightarrow> bool) \<Rightarrow> redisReply option \<Rightarrow> RedisChannel \<Rightarrow> redis_trace \<Rightarrow> redis_trace" where
  "RedisChannel_RedisAuthCallback ok pstResult rc tr =
     (case pstResult of
        None \<Rightarrow> tr
      | Some r \<Rightarrow> if rc_bIsSub rc then redisAsyncCommand ok RedisSubMsgCallback (SUBSCRIBE (str ''dabyang'')) tr else tr)"

section \<open>The hold-back queue\<close>

definition AddToHoldBackQueue :: "u32 \<Rightarrow> Msg \<Rightarrow> RedisChannel \<Rightarrow> RedisChannel" where
  "AddToHoldBackQueue dwMsgID pstMsg rc =
     rc\<lparr>rc_stHoldBackQueue := om_assign dwMsgID (Some pstMsg) (rc_stHoldBackQueue rc)\<rparr>"

definition IsHoldBackQueueEmpty :: "RedisChannel \<Rightarrow> bool" where
  "IsHoldBackQueueEmpty rc \<longleftrightarrow> rc_stHoldBackQueue rc = []"

text \<open>The accessors use \<open>operator[]\<close>: asking for a missing message inserts a null pointer.\<close>

definition HoldBackQueueMsgBy :: "u32 \<Rightarrow> RedisChannel \<Rightarrow> Msg option \<times> RedisChannel" where
  "HoldBackQueueMsgBy dwMsgID rc =
     (let (m, q) = om_index None dwMsgID (rc_stHoldBackQueue rc) in (m, rc\<lparr>rc_stHoldBackQueue := q\<rparr>))"

definition HoldBackQueueMsgIDBy :: "u32 \<Rightarrow> RedisChannel \<Rightarrow> u32 \<times> RedisChannel" where
  "HoldBackQueueMsgIDBy dwMsgID rc =
     (let (m, rc) = HoldBackQueueMsgBy dwMsgID rc in (case m of Some m \<Rightarrow> m_dwMsgID m | None \<Rightarrow> 0, rc))"

definition HoldBackQueueExpireTimeBy :: "u32 \<Rightarrow> RedisChannel \<Rightarrow> u64 \<times> RedisChannel" where
  "HoldBackQueueExpireTimeBy dwMsgID rc =
     (let (m, rc) = HoldBackQueueMsgBy dwMsgID rc in (case m of Some m \<Rightarrow> m_ulExpireTime m | None \<Rightarrow> 0, rc))"

definition HoldBackQueueOpenidBy :: "u32 \<Rightarrow> RedisChannel \<Rightarrow> bytes \<times> RedisChannel" where
  "HoldBackQueueOpenidBy dwMsgID rc =
     (let (m, rc) = HoldBackQueueMsgBy dwMsgID rc in (case m of Some m \<Rightarrow> m_strOpenid m | None \<Rightarrow> [], rc))"

definition HoldBackQueueEraseBy :: "u32 \<Rightarrow> RedisChannel \<Rightarrow> RedisChannel" where
  "HoldBackQueueEraseBy dwMsgID rc = rc\<lparr>rc_stHoldBackQueue := om_erase dwMsgID (rc_stHoldBackQueue rc)\<rparr>"

definition held :: "RedisChannel \<Rightarrow> nat" where
  "held rc = length (filter (\<lambda>(k, v). v \<noteq> None) (rc_stHoldBackQueue rc))"

lemma filter_om_erase:
  "om_find k q = Some (Some m) \<Longrightarrow>
   length (filter (\<lambda>(k, v). v \<noteq> None) q) = Suc (length (filter (\<lambda>(k, v). v \<noteq> None) (om_erase k q)))"
  by (induction k q rule: om_erase.induct) (auto split: if_splits)

text \<open>
  The loop that follows a message in sequence: it takes held messages out as long as the
  next one is there.
\<close>

function release_held :: "u32 \<Rightarrow> RedisChannel \<Rightarrow> RedisChannel" where
  "release_held iReady rc =
     (if IsHoldBackQueueEmpty rc then rc
      else
        let iReady = iReady + 1; (pst, rc) = HoldBackQueueMsgBy iReady rc in
        case pst of
          Some m \<Rightarrow> release_held iReady ((HoldBackQueueEraseBy iReady rc)\<lparr>rc_dwSeq := iReady\<rparr>)
        | None \<Rightarrow> rc)"
  by pat_completeness auto

termination
proof (relation "measure (\<lambda>(i, rc). held rc)", goal_cases)
  case (2 iReady rc i y pst rc' m)
  then have "om_find i (rc_stHoldBackQueue rc) = Some (Some m)" "rc' = rc"
    by (auto simp: HoldBackQueueMsgBy_def om_index_def split: option.splits)
  then show ?case by (auto simp: held_def HoldBackQueueEraseBy_def dest: filter_om_erase)
qed simp

declare release_held.simps [simp del]

text \<open>The part of \<open>RedisSubMsgCallback\<close> behind the parsing, for one message.\<close>

definition sub_deliver :: "u32 \<Rightarrow> bytes \<Rightarrow> int res \<Rightarrow> RedisChannel \<Rightarrow> RedisChannel res" where
  "sub_deliver dwID openid expireTime rc =
     (let matched = (rc_dwSeq rc + 1 = dwID);
          rc = (if matched then (let rc = rc\<lparr>rc_dwSeq := rc_dwSeq rc + 1\<rparr> in release_held (rc_dwSeq rc) rc) else rc) in
      if matched \<and> IsHoldBackQueueEmpty rc then Inr rc
      else if rc_dwSeq rc + 1 < dwID then
        rbind expireTime (\<lambda>t. Inr (AddToHoldBackQueue dwID (Msg_new dwID openid (word_of_int t)) rc))
      else Inr rc)"

section \<open>A message of the topic\<close>

text \<open>
  The text is \<open><id>_<openid>_<time>\<close>. The two separators are searched from the second
  character on; a separator that is not found leaves the position of the one before.
\<close>

definition find_separators :: "bytes \<Rightarrow> (nat \<times> nat) res" where
  "find_separators mem =
     rbind (strchr mem 1 95) (\<lambda>p1.
       let a1 = (case p1 of Some i \<Rightarrow> i | None \<Rightarrow> 0) in
     rbind (strchr mem (a1 + 1) 95) (\<lambda>p2.
       Inr (a1, case p2 of Some i \<Rightarrow> i | None \<Rightarrow> a1)))"

definition split_message :: "bytes \<Rightarrow> (bytes \<times> bytes \<times> bytes) res" where
  "split_message text =
     (let mem = text @ [0] in
      rbind (find_separators mem) (\<lambda>(a1, a2).
      rbind (strncpy 15 mem 0 (int a1)) (\<lambda>ID.
      rbind (strncpy 40 mem (a1 + 1) (int a2 - int a1 - 1)) (\<lambda>openid.
      rbind (strncpy 15 mem (a2 + 1) (int (length text) - int a2 - 1)) (\<lambda>expireTime.
      rbind (cstring expireTime) (\<lambda>expireTime. rbind (cstring openid) (\<lambda>openid. rbind (cstring ID) (\<lambda>ID.
        Inr (ID, openid, expireTime)))))))))"

definition RedisChannel_RedisSubMsgCallback :: "redisReply option \<Rightarrow> RedisChannel \<Rightarrow> RedisChannel res" where
  "RedisChannel_RedisSubMsgCallback pstResult rc =
     (case pstResult of
        None \<Rightarrow> Inr rc
      | Some r \<Rightarrow>
          if rr_type r = REDIS_REPLY_ARRAY then
            (if length (rr_element r) < 3 then Inl OutOfRange
             else case rr_str (rr_element r ! 2) of
               None \<Rightarrow> Inr rc
             | Some text \<Rightarrow>
                 rbind (split_message text) (\<lambda>(ID, openid, expireTime).
                 rbind (atoi ID) (\<lambda>iID.
                   sub_deliver (word_of_int iID) openid (atoi expireTime) rc)))
          else Inr rc)"

end
