(* ===== verification/Redis_Order.thy ===== *)
theory Redis_Order
  imports Redis_Channel
begin

text \<open>
  The hold-back queue of \<open>RedisChannel\<close> against its specification: after any messages in
  any order, with repetitions, the sequence number is the end of the unbroken run of
  numbers received from 1 on, and what is held is what was received behind it. Then the
  parser of the messages: what it reads back, and what it does with a malformed text.
\<close>

section \<open>Delivery in order\<close>

definition holds :: "RedisChannel \<Rightarrow> u32 \<Rightarrow> bool" where
  "holds rc k \<longleftrightarrow> (\<exists>m. om_find k (rc_stHoldBackQueue rc) = Some (Some m))"

definition ordered :: "u32 set \<Rightarrow> RedisChannel \<Rightarrow> bool" where
  "ordered R rc \<longleftrightarrow> om_ok (rc_stHoldBackQueue rc)
     \<and> (\<forall>k. holds rc k \<longleftrightarrow> k \<in> R \<and> rc_dwSeq rc < k)
     \<and> (\<forall>k. 0 < k \<and> k \<le> rc_dwSeq rc \<longrightarrow> k \<in> R)"

definition settled :: "u32 set \<Rightarrow> RedisChannel \<Rightarrow> bool" where
  "settled R rc \<longleftrightarrow> ordered R rc \<and> rc_dwSeq rc + 1 \<notin> R"

lemma unat_plus_one: "a \<noteq> - 1 \<Longrightarrow> unat (a + 1 :: u32) = unat a + 1"
  by (metis add.commute add_eq_0_iff Suc_eq_plus1 unatSuc)

lemma less_next: "a \<noteq> - 1 \<Longrightarrow> k < a + 1 \<longleftrightarrow> k \<le> (a :: u32)" "a \<noteq> - 1 \<Longrightarrow> a < a + (1 :: u32)"
  "a \<noteq> - 1 \<Longrightarrow> k \<le> a + 1 \<longleftrightarrow> k \<le> a \<or> k = a + (1 :: u32)"
  "a \<noteq> - 1 \<Longrightarrow> a + 1 < k \<longleftrightarrow> a < k \<and> k \<noteq> a + (1 :: u32)"
  by (auto simp: word_less_nat_alt word_le_nat_alt unat_plus_one word_unat_eq_iff)

lemma seq_not_max: "ordered R rc \<Longrightarrow> - 1 \<notin> R \<Longrightarrow> rc_dwSeq rc \<noteq> - 1"
proof
  assume "ordered R rc" and "- 1 \<notin> R" and "rc_dwSeq rc = - 1"
  moreover have "(0 :: u32) < - 1" by (simp add: word_greater_zero_iff)
  ultimately show False by (auto simp: ordered_def)
qed

lemma holds_MsgBy: "holds (snd (HoldBackQueueMsgBy i rc)) k = holds rc k"
  by (auto simp: holds_def HoldBackQueueMsgBy_def om_index_def split: option.splits)

lemma MsgBy_frame:
  "rc_dwSeq (snd (HoldBackQueueMsgBy i rc)) = rc_dwSeq rc"
  "om_ok (rc_stHoldBackQueue rc) \<Longrightarrow> om_ok (rc_stHoldBackQueue (snd (HoldBackQueueMsgBy i rc)))"
  by (auto simp: HoldBackQueueMsgBy_def om_index_def split: option.splits)

lemma MsgBy_Some: "HoldBackQueueMsgBy i rc = (Some m, rc') \<Longrightarrow> holds rc i \<and> rc' = rc"
  by (auto simp: holds_def HoldBackQueueMsgBy_def om_index_def split: option.splits)

lemma MsgBy_None: "HoldBackQueueMsgBy i rc = (None, rc') \<Longrightarrow> \<not> holds rc i"
  by (auto simp: holds_def HoldBackQueueMsgBy_def om_index_def split: option.splits)

lemma release_settles:
  assumes "ordered R rc" and "- 1 \<notin> R" and "iReady = rc_dwSeq rc"
  shows "settled R (release_held iReady rc) \<and> iReady \<le> rc_dwSeq (release_held iReady rc)"
  using assms
proof (induction iReady rc rule: release_held.induct)
  case (1 iReady rc)
  have nm: "iReady \<noteq> - 1" using seq_not_max [OF "1.prems"(1,2)] "1.prems"(3) by simp
  show ?case
  proof (cases "IsHoldBackQueueEmpty rc")
    case True
    then have "\<not> holds rc k" for k by (simp add: holds_def IsHoldBackQueueEmpty_def)
    then have "iReady + 1 \<notin> R" using "1.prems"(1,3) less_next(2) [OF nm] by (auto simp: ordered_def)
    with True "1.prems" show ?thesis by (simp add: release_held.simps settled_def)
  next
    case False
    obtain pst rc' where q: "HoldBackQueueMsgBy (iReady + 1) rc = (pst, rc')" by fastforce
    show ?thesis
    proof (cases pst)
      case None
      have "holds rc' k = holds rc k" "rc_dwSeq rc' = rc_dwSeq rc" for k
        using holds_MsgBy [of "iReady + 1" rc k] MsgBy_frame(1) [of "iReady + 1" rc] by (simp_all add: q)
      moreover have "om_ok (rc_stHoldBackQueue rc')"
        using MsgBy_frame(2) [of rc "iReady + 1"] "1.prems"(1) by (simp add: q ordered_def)
      moreover have "iReady + 1 \<notin> R"
        using MsgBy_None q None "1.prems"(1,3) less_next(2) [OF nm] by (auto simp: ordered_def)
      ultimately have "settled R rc' \<and> iReady \<le> rc_dwSeq rc'"
        using "1.prems"(1,3) by (simp add: settled_def ordered_def)
      with False q None show ?thesis by (simp add: release_held.simps [of iReady rc] Let_def)
    next
      case (Some m)
      let ?rc = "(HoldBackQueueEraseBy (iReady + 1) rc)\<lparr>rc_dwSeq := iReady + 1\<rparr>"
      have h: "holds rc (iReady + 1)" "rc' = rc" using MsgBy_Some q Some by simp_all
      have hr: "holds ?rc k \<longleftrightarrow> holds rc k \<and> k \<noteq> iReady + 1" for k
        using "1.prems"(1) by (auto simp: holds_def HoldBackQueueEraseBy_def om_find_erase ordered_def)
      have "iReady + 1 \<in> R" using h(1) "1.prems"(1) by (simp add: ordered_def)
      then have "ordered R ?rc"
        using "1.prems"(1,3) hr less_next [OF nm]
        by (auto simp: ordered_def HoldBackQueueEraseBy_def)
      then have "settled R (release_held (iReady + 1) ?rc) \<and> iReady + 1 \<le> rc_dwSeq (release_held (iReady + 1) ?rc)"
        using "1.IH" [OF False refl q [symmetric] refl Some] "1.prems"(2) h(2) q Some by simp
      moreover have "iReady \<le> j" if "iReady + 1 \<le> j" for j
        using less_next(2) [OF nm] that by simp
      ultimately show ?thesis using False q Some h(2) by (simp add: release_held.simps [of iReady rc] Let_def)
    qed
  qed
qed

lemma sub_deliver_settles:
  assumes s: "settled R rc" and m: "- 1 \<notin> insert i R"
  shows "\<exists>rc'. sub_deliver i openid (Inr t) rc = Inr rc' \<and> settled (insert i R) rc'"
proof -
  let ?q = "rc_dwSeq rc"
  have o: "ordered R rc" using s by (simp add: settled_def)
  have nm: "?q \<noteq> - 1" using seq_not_max [OF o] m by simp
  consider (hit) "?q + 1 = i" | (ahead) "?q + 1 < i" | (old) "i \<le> ?q"
    using less_next(1) [OF nm, of i] less_linear [of "?q + 1" i] by auto
  then show ?thesis
  proof cases
    case hit
    let ?rc = "rc\<lparr>rc_dwSeq := i\<rparr>"
    have "holds ?rc k = holds rc k" for k by (simp add: holds_def)
    moreover have "i \<notin> R" using s hit by (simp add: settled_def)
    ultimately have "ordered (insert i R) ?rc"
      using o less_next [OF nm] hit by (auto simp: ordered_def)
    then have rel: "settled (insert i R) (release_held i ?rc)" "i \<le> rc_dwSeq (release_held i ?rc)"
      using release_settles [of "insert i R" ?rc i] m by simp_all
    then have "rc_dwSeq (release_held i ?rc) \<noteq> - 1" using seq_not_max m by (auto simp: settled_def)
    then have "\<not> rc_dwSeq (release_held i ?rc) + 1 < i"
      using rel(2) less_next(2) [of "rc_dwSeq (release_held i ?rc)"] by (simp add: not_less)
    with rel hit show ?thesis by (auto simp: sub_deliver_def Let_def)
  next
    case ahead
    let ?rc = "AddToHoldBackQueue i (Msg_new i openid (word_of_int t)) rc"
    have "holds ?rc k \<longleftrightarrow> holds rc k \<or> k = i" for k by (simp add: holds_def AddToHoldBackQueue_def)
    moreover have "?q < i" using ahead less_next(4) [OF nm] by simp
    ultimately have "settled (insert i R) ?rc"
      using s ahead by (auto simp: settled_def ordered_def AddToHoldBackQueue_def)
    with ahead show ?thesis by (auto simp: sub_deliver_def Let_def)
  next
    case old
    then have no: "?q + 1 \<noteq> i" "\<not> ?q + 1 < i" using less_next(2) [OF nm] by auto
    have "settled (insert i R) rc"
      using s old no(1) by (auto simp: settled_def ordered_def)
    with no show ?thesis by (auto simp: sub_deliver_def Let_def)
  qed
qed

section \<open>The text of a message\<close>

definition sub_text :: "nat \<Rightarrow> bytes \<Rightarrow> nat \<Rightarrow> bytes" where
  "sub_text i openid t = to_string i @ 95 # openid @ 95 # to_string t"

text \<open>A push of the subscription: the kind, the topic, the text.\<close>

definition sub_reply :: "bytes \<Rightarrow> redisReply" where
  "sub_reply text =
     redisReply REDIS_REPLY_ARRAY 0 None
       (map (\<lambda>s. redisReply REDIS_REPLY_STRING 0 (Some s) []) [str ''message'', str ''dabyang'', text])"

lemma strchr_found:
  assumes "c \<notin> set s" and "0 \<notin> set s" and "c \<noteq> 0" and "0 \<in> set post"
  shows "strchr (pre @ s @ c # post) (length pre) c = Inr (Some (length pre + length s))"
proof -
  have "takeWhile (\<lambda>b. b \<noteq> 0) (s @ c # post) = s @ c # takeWhile (\<lambda>b. b \<noteq> 0) post"
    using assms(2,3) by (subst takeWhile_append2) auto
  moreover have "takeWhile (\<lambda>b. b \<noteq> c) (s @ c # x) = s" for x
    using assms(1) by (subst takeWhile_append2) auto
  ultimately show ?thesis using assms(4) by (simp add: strchr_def cstring_def)
qed

lemma strchr_absent:
  assumes "c \<notin> set s" and "0 \<notin> set s"
  shows "strchr (pre @ s @ [0]) (length pre) c = Inr None"
  using assms by (simp add: strchr_def cstring_terminated)

lemma to_string_plain: "b \<in> set (to_string n) \<Longrightarrow> b \<noteq> 0 \<and> b \<noteq> 95"
  using to_string_digits [of n] by (force simp: list_all_iff is_digit_def)

lemma find_separators_text:
  assumes "95 \<notin> set openid" and "0 \<notin> set openid"
  shows "find_separators (sub_text i openid t @ [0]) =
    Inr (length (to_string i), length (to_string i) + 1 + length openid)"
proof -
  obtain b r where br: "to_string i = b # r" by (cases "to_string i") auto
  have r: "95 \<notin> set r" "0 \<notin> set r" using to_string_plain [of _ i] by (auto simp: br)
  have "strchr (sub_text i openid t @ [0]) 1 95 = Inr (Some (1 + length r))"
    using strchr_found [of 95 r "openid @ 95 # to_string t @ [0]" "[b]"] r by (simp add: sub_text_def br)
  moreover have "strchr (sub_text i openid t @ [0]) (length r + 2) 95 = Inr (Some (length r + 2 + length openid))"
    using strchr_found [of 95 openid "to_string t @ [0]" "to_string i @ [95]"] assms
    by (simp add: sub_text_def br)
  ultimately show ?thesis by (simp add: find_separators_def br Let_def)
qed

text \<open>What a publisher wrote is what the parser hands on.\<close>

lemma split_message_text:
  assumes "95 \<notin> set openid" and "0 \<notin> set openid" and "length openid < 40"
    and i: "i < 2 ^ 31" and t: "t < 2 ^ 31"
  shows "split_message (sub_text i openid t) = Inr (to_string i, openid, to_string t)"
proof -
  let ?mem = "to_string i @ 95 # openid @ 95 # to_string t @ [0]"
  have mem: "sub_text i openid t @ [0] = ?mem" by (simp add: sub_text_def)
  have z: "0 \<notin> set (to_string n)" for n using to_string_plain by blast
  have l: "length (to_string n) < 15" if "n < 2 ^ 31" for n
    using length_to_string [of n 10] that by simp
  have "strncpy 15 ?mem 0 (int (length (to_string i))) = Inr (to_string i @ replicate (15 - length (to_string i)) 0)"
    using strncpy_fits [of "to_string i" 15 "[]"] z l [OF i] by simp
  moreover have "strncpy 40 ?mem (length (to_string i) + 1) (int (length openid)) = Inr (openid @ replicate (40 - length openid) 0)"
    using strncpy_fits [of openid 40 "to_string i @ [95]"] assms by simp
  moreover have "strncpy 15 ?mem (length (to_string i) + 1 + length openid + 1) (int (length (to_string t)))
      = Inr (to_string t @ replicate (15 - length (to_string t)) 0)"
    using strncpy_fits [of "to_string t" 15 "to_string i @ 95 # openid @ [95]" "[0]"] z l [OF t] by simp
  ultimately show ?thesis
    using find_separators_text [OF assms(1,2), of i t] cstring_padded z l [OF i] l [OF t] assms(2,3)
    by (simp add: split_message_def Let_def mem, simp add: sub_text_def algebra_simps)
qed

section \<open>A subscription\<close>

lemma unat_small: "n < 2 ^ 31 \<Longrightarrow> unat (of_nat n :: u32) = n"
  by (simp add: unat_of_nat)

lemma small_not_max: "n < 2 ^ 31 \<Longrightarrow> of_nat n \<noteq> (- 1 :: u32)"
proof
  assume n: "n < 2 ^ 31" and "of_nat n = (- 1 :: u32)"
  then have "n = unat (- 1 :: u32)" using unat_small [OF n] by simp
  moreover have "unat (- 1 :: u32) = 2 ^ 32 - 1" by (simp add: unsigned_minus_1_eq_mask mask_eq_exp_minus_1)
  ultimately show False using n by simp
qed

lemma image_small:
  assumes "\<forall>n \<in> R. n < 2 ^ 31"
  shows "k \<in> of_nat ` R \<longleftrightarrow> unat (k :: u32) \<in> R"
proof
  assume "unat k \<in> R"
  then have "of_nat (unat k) \<in> (of_nat ` R :: u32 set)" by blast
  then show "k \<in> of_nat ` R" by simp
next
  assume "k \<in> of_nat ` R"
  with assms show "unat k \<in> R" using unat_small by auto
qed

definition well_formed :: "nat \<times> bytes \<times> nat \<Rightarrow> bool" where
  "well_formed = (\<lambda>(i, openid, t). i < 2 ^ 31 \<and> t < 2 ^ 31 \<and> length openid < 40 \<and> 95 \<notin> set openid \<and> 0 \<notin> set openid)"

definition receive :: "nat \<times> bytes \<times> nat \<Rightarrow> RedisChannel \<Rightarrow> RedisChannel res" where
  "receive = (\<lambda>(i, openid, t). RedisChannel_RedisSubMsgCallback (Some (sub_reply (sub_text i openid t))))"

lemma receive_settles:
  assumes "settled (of_nat ` R) rc" and "well_formed msg" and "\<forall>k \<in> R. k < 2 ^ 31"
  shows "\<exists>rc'. receive msg rc = Inr rc' \<and> settled (of_nat ` insert (fst msg) R) rc'"
proof -
  obtain i openid t where m: "msg = (i, openid, t)" by (cases msg)
  have wf: "i < 2 ^ 31" "t < 2 ^ 31" "length openid < 40" "95 \<notin> set openid" "0 \<notin> set openid"
    using assms(2) by (auto simp: well_formed_def m)
  have "- 1 \<notin> insert (of_nat i :: u32) (of_nat ` R)" using small_not_max wf(1) assms(3) by (metis imageE insertE)
  then obtain rc' where "sub_deliver (of_nat i) openid (Inr (int t)) rc = Inr rc'"
      and "settled (insert (of_nat i) (of_nat ` R)) rc'"
    using sub_deliver_settles [OF assms(1)] by blast
  moreover have "receive msg rc = sub_deliver (of_nat i) openid (Inr (int t)) rc"
    using wf by (simp add: receive_def m RedisChannel_RedisSubMsgCallback_def sub_reply_def
        split_message_text atoi_to_string reply_types numeral_2_eq_2)
  ultimately show ?thesis by (simp add: m)
qed

lemma receive_all_settles:
  assumes "settled (of_nat ` R) rc" and "list_all well_formed msgs" and "\<forall>k \<in> R. k < 2 ^ 31"
  shows "\<exists>rc'. rfold receive msgs rc = Inr rc' \<and> settled (of_nat ` (R \<union> fst ` set msgs)) rc'"
  using assms
proof (induction msgs arbitrary: R rc)
  case (Cons msg msgs)
  obtain rc1 where r: "receive msg rc = Inr rc1" "settled (of_nat ` insert (fst msg) R) rc1"
    using receive_settles [OF Cons.prems(1) _ Cons.prems(3), of msg] Cons.prems(2) by auto
  have "\<forall>k \<in> insert (fst msg) R. k < 2 ^ 31"
    using Cons.prems by (auto simp: well_formed_def split: prod.splits)
  with Cons.IH [OF r(2)] Cons.prems(2) r(1) show ?case by auto
qed auto

text \<open>
  C14. The messages of the topic arrive in any order, any number of times, some perhaps never.
  The subscriber never crashes on them, and at any moment its sequence number \<open>n\<close> is the end
  of the unbroken run \<open>1, \<dots>, n\<close> of numbers received, and exactly the messages
  received with a number beyond \<open>n\<close> are held back.
\<close>

theorem holdback_orders:
  fixes rc :: RedisChannel
  assumes "list_all well_formed msgs" and "rc_dwSeq rc = 0" and "rc_stHoldBackQueue rc = []"
  defines "received \<equiv> fst ` set msgs"
  shows "\<exists>rc' n. rfold receive msgs rc = Inr rc' \<and> unat (rc_dwSeq rc') = n
    \<and> {1..n} \<subseteq> received \<and> n + 1 \<notin> received
    \<and> (\<forall>k. holds rc' k \<longleftrightarrow> unat k \<in> received \<and> n < unat k)"
proof -
  have "settled (of_nat ` {}) rc" using assms(2,3)
    by (auto simp: settled_def ordered_def holds_def word_le_nat_alt word_less_nat_alt)
  then obtain rc' where r: "rfold receive msgs rc = Inr rc'" "settled (of_nat ` received) rc'"
    using receive_all_settles [of "{}"] assms(1) by (auto simp: received_def)
  have lt: "k < 2 ^ 31" if "k \<in> received" for k
    using assms(1) that by (auto simp: received_def list_all_iff well_formed_def split: prod.splits)
  let ?q = "rc_dwSeq rc'"
  have R: "k \<in> of_nat ` received \<longleftrightarrow> unat k \<in> received" for k :: u32 using image_small lt by blast
  have o: "ordered (of_nat ` received) rc'" "?q + 1 \<notin> of_nat ` received" using r(2) by (simp_all add: settled_def)
  have nm: "?q \<noteq> - 1" using seq_not_max [OF o(1)] small_not_max lt by (metis imageE)
  have "n \<in> received" if "n \<in> {1..unat ?q}" for n
  proof -
    have "unat ?q < 2 ^ LENGTH(32)" by (rule unsigned_less)
    with that have n: "unat (of_nat n :: u32) = n" by (simp add: unat_of_nat take_bit_eq_mod)
    then have "0 < (of_nat n :: u32)" "of_nat n \<le> ?q" using that by (simp_all add: word_less_nat_alt word_le_nat_alt)
    with o(1) n R [of "of_nat n"] show ?thesis by (auto simp: ordered_def)
  qed
  moreover have "unat ?q + 1 \<notin> received" using o(2) R [of "?q + 1"] unat_plus_one [OF nm] by simp
  moreover have "holds rc' k \<longleftrightarrow> unat k \<in> received \<and> unat ?q < unat k" for k
    using o(1) R [of k] by (simp add: ordered_def word_less_nat_alt)
  ultimately show ?thesis using r(1) by blast
qed

text \<open>A subscriber for which 3 and 2 came before 1, and 5 before a lost 4.\<close>

definition sample_rc :: RedisChannel where
  "sample_rc = \<lparr>rc_channel = Channel_new 3 True True,
     rc_pstRedisAsyncContext = \<lparr>ac_fd = 3, ac_err = False, ac_ev_data = True, ac_callbacks = True\<rparr>,
     rc_bIsInit = True, rc_bIsSub = True, rc_dwSeq = 0, rc_stHoldBackQueue = []\<rparr>"

lemma sample_rc_simps [simp]: "rc_dwSeq sample_rc = 0" "rc_stHoldBackQueue sample_rc = []"
  by (simp_all add: sample_rc_def)

theorem holdback_orders_witness:
  "\<exists>rc'. rfold receive [(3, str ''c'', 9), (2, str ''b'', 9), (5, str ''e'', 9), (1, str ''a'', 9)] sample_rc = Inr rc'
     \<and> unat (rc_dwSeq rc') = 3 \<and> holds rc' 5 \<and> \<not> holds rc' 3"
proof -
  let ?m = "[(3, str ''c'', 9), (2, str ''b'', 9), (5, str ''e'', 9), (1 :: nat, str ''a'', 9 :: nat)]"
  have "list_all well_formed ?m" by (simp add: well_formed_def str_def of_char_def)
  from holdback_orders [OF this, of sample_rc]
  obtain rc' n where r: "rfold receive ?m sample_rc = Inr rc'" "unat (rc_dwSeq rc') = n"
      "{1..n} \<subseteq> {1, 2, 3, 5}" "n + 1 \<notin> {1, 2, 3, 5}" "\<And>k. holds rc' k \<longleftrightarrow> unat k \<in> {1, 2, 3, 5} \<and> n < unat k"
    by (auto simp del: rfold.simps)
  have "n = 3"
  proof -
    have "n < 4" using r(3) by (auto simp: subset_iff dest: spec [of _ 4])
    then show ?thesis using r(4) by auto
  qed
  with r show ?thesis by (auto simp del: rfold.simps)
qed

section \<open>Malformed messages\<close>

text \<open>Without two separators behind the first character the two positions are the same.\<close>

lemma find_separators_few:
  assumes "0 \<notin> set text" and "text \<noteq> []" and "count_list (tl text) 95 < 2"
  shows "\<exists>a \<le> length text. find_separators (text @ [0]) = Inr (a, a)"
proof -
  obtain b r where t: "text = b # r" using assms(2) by (cases "text") auto
  show ?thesis
  proof (cases "95 \<in> set r")
    case False
    then have "strchr (text @ [0]) 1 95 = Inr None" using strchr_absent [of 95 r "[b]"] assms(1) by (simp add: t)
    then have "find_separators (text @ [0]) = Inr (0, 0)" by (simp add: find_separators_def)
    then show ?thesis by blast
  next
    case True
    from split_list_first [OF this] obtain x y where r: "r = x @ 95 # y" "95 \<notin> set x" by blast
    with assms(3) have y: "95 \<notin> set y" by (auto simp: t count_list_0_iff)
    have "strchr (text @ [0]) 1 95 = Inr (Some (1 + length x))"
      using strchr_found [of 95 x "y @ [0]" "[b]"] r assms(1) by (simp add: t)
    moreover have "strchr (text @ [0]) (length x + 2) 95 = Inr None"
      using strchr_absent [of 95 y "b # x @ [95]"] y assms(1) by (simp add: t r)
    ultimately have "find_separators (text @ [0]) = Inr (1 + length x, 1 + length x)"
      by (simp add: find_separators_def Let_def)
    moreover have "1 + length x \<le> length text" by (simp add: t r)
    ultimately show ?thesis by blast
  qed
qed

text \<open>
  C23. A publisher can stop the subscriber with one message: a text in which fewer than two
  underscores follow the first character makes the length of the \<open>openid\<close> field -1, and
  \<open>strncpy\<close> then writes over the end of its 40-byte array.
\<close>

theorem malformed_message_overflows:
  assumes "0 \<notin> set text" and "text \<noteq> []" and "count_list (tl text) 95 < 2"
  shows "RedisChannel_RedisSubMsgCallback (Some (sub_reply text)) rc = Inl BufferOverflow"
proof -
  obtain a where a: "a \<le> length text" "find_separators (text @ [0]) = Inr (a, a)"
    using find_separators_few [OF assms] by blast
  have "split_message text = Inl BufferOverflow"
  proof (cases "a \<le> 15")
    case True
    then have "\<exists>ID. strncpy 15 (text @ [0]) 0 (int a) = Inr ID" using a(1) by (simp add: strncpy_def Let_def)
    then show ?thesis using a(2) by (auto simp: split_message_def strncpy_def Let_def)
  next
    case False
    then show ?thesis using a(2) by (simp add: split_message_def strncpy_def Let_def)
  qed
  then show ?thesis by (simp add: RedisChannel_RedisSubMsgCallback_def sub_reply_def numeral_2_eq_2)
qed

theorem malformed_message_overflows_witness:
  "RedisChannel_RedisSubMsgCallback (Some (sub_reply (str ''17_dan''))) sample_rc = Inl BufferOverflow"
  by (rule malformed_message_overflows) (simp_all add: str_def of_char_def)

end
