(* ===== verification/Log_Restore.thy ===== *)
theory Log_Restore
  imports Raft_Prelude
begin

text \<open>
  \<open>log/Logger\<close>, which reads back from a log which operations were begun and not finished,
  and \<open>log/Exception\<close>. The contents of the log file are an argument, empty when there is
  no file. The theorems say that the identifiers of an unfinished expiry are recovered
  as they were written, up to nine of them, whatever else is between the marks, and what
  more than nine do.
\<close>

section \<open>Strings\<close>

text \<open>\<open>s.find(p) != npos\<close>\<close>

fun contains :: "bytes \<Rightarrow> bytes \<Rightarrow> bool" where
  "contains p s \<longleftrightarrow> take (length p) s = p \<or> (case s of [] \<Rightarrow> False | _ # r \<Rightarrow> contains p r)"

declare contains.simps [simp del]

text \<open>\<open>s.find(" ", off)\<close>\<close>

definition find_space :: "bytes \<Rightarrow> nat \<Rightarrow> nat option" where
  "find_space s off =
     (let r = drop off s in if 32 \<in> set r then Some (off + length (takeWhile (\<lambda>b. b \<noteq> 32) r)) else None)"

text \<open>\<open>s.substr(pos, n)\<close>; a start behind the end is an exception that nothing catches.\<close>

definition substr :: "bytes \<Rightarrow> nat \<Rightarrow> nat \<Rightarrow> bytes res" where
  "substr s pos n = (if length s < pos then Inl OutOfRange else Inr (take n (drop pos s)))"

text \<open>The lines \<open>getline\<close> yields: no empty last one.\<close>

function getlines :: "bytes \<Rightarrow> bytes list" where
  "getlines [] = []"
| "getlines (b # r) =
     (let l = takeWhile (\<lambda>b. b \<noteq> 10) (b # r) in l # getlines (drop (length l + 1) (b # r)))"
  by pat_completeness auto

termination
  by (relation "measure length") (auto simp: Let_def)

section \<open>Logger\<close>

text \<open>One line of the log on the stack, its top first; \<open>pop\<close> of an empty stack is undefined.\<close>

definition restore_line :: "bytes \<Rightarrow> bytes list \<Rightarrow> bytes list res" where
  "restore_line strS stStack =
     (let stStack = (if contains (str ''pre:'') strS then strS # stStack else stStack) in
      if contains (str ''done:'') strS then (case stStack of [] \<Rightarrow> Inl OutOfRange | _ # r \<Rightarrow> Inr r)
      else Inr stStack)"

text \<open>The positions of the spaces, into an array of ten.\<close>

function scan_spaces :: "bytes \<Rightarrow> nat option \<Rightarrow> nat list \<Rightarrow> nat list res" where
  "scan_spaces s None a = Inr a"
| "scan_spaces s (Some i) a =
     (if 10 \<le> length a then Inl BufferOverflow
      else scan_spaces s (find_space s (i + 1)) (a @ [i]))"
  by pat_completeness auto

termination
  by (relation "measure (\<lambda>(s, i, a). case i of None \<Rightarrow> 0 | Some _ \<Rightarrow> 11 - length a)")
    (auto split: option.split)

definition restore_expire :: "bytes \<Rightarrow> bytes list \<Rightarrow> bytes list res" where
  "restore_expire strTop pstOpenids =
     rbind (scan_spaces strTop (find_space strTop 0) []) (\<lambda>a.
       rfold (\<lambda>m v. rbind (substr strTop (a ! m + 1) (a ! (m + 1) - a ! m - 1)) (\<lambda>x. Inr (v @ [x])))
         [0..<length a - 1] pstOpenids)"

definition restore_top :: "bytes \<Rightarrow> bytes list \<Rightarrow> bytes list res" where
  "restore_top strTop pstOpenids =
     (if contains (str ''pre:EXPIRE'') strTop then restore_expire strTop pstOpenids else Inr pstOpenids)"

definition Logger_Restore :: "bytes \<Rightarrow> bytes list \<Rightarrow> bytes list res" where
  "Logger_Restore log pstOpenids =
     rbind (rfold restore_line (getlines log) []) (\<lambda>stStack. rfold restore_top stStack pstOpenids)"

section \<open>What is recovered\<close>

text \<open>A log of whole lines is read back line by line.\<close>

lemma takeWhile_line: "c \<notin> set l \<Longrightarrow> takeWhile (\<lambda>b. b \<noteq> c) (l @ c # r) = l"
  by (subst takeWhile_append2) auto

lemma getlines_line: "10 \<notin> set l \<Longrightarrow> getlines (l @ 10 # r) = l # getlines r"
  using takeWhile_line [of 10 l r] by (cases l) (simp_all add: Let_def)

definition unlines :: "bytes list \<Rightarrow> bytes" where
  "unlines ls = concat (map (\<lambda>l. l @ [10]) ls)"

lemma getlines_unlines: "\<forall>l \<in> set ls. 10 \<notin> set l \<Longrightarrow> getlines (unlines ls) = ls"
  by (induction ls) (simp_all add: unlines_def getlines_line)

text \<open>Words, each with a space behind it.\<close>

definition words :: "bytes list \<Rightarrow> bytes" where
  "words ws = concat (map (\<lambda>w. w @ [32]) ws)"

lemma words_simps [simp]: "words [] = []" "words (w # ws) = w @ 32 # words ws" "words (a @ b) = words a @ words b"
  by (simp_all add: words_def)

fun ends :: "nat \<Rightarrow> bytes list \<Rightarrow> nat list" where
  "ends off [] = []"
| "ends off (w # ws) = (off + length w) # ends (off + length w + 1) ws"

lemma length_ends [simp]: "length (ends off ws) = length ws"
  by (induction ws arbitrary: off) simp_all

lemma ends_nth: "m < length ws \<Longrightarrow> ends off ws ! m = off + length (words (take m ws)) + length (ws ! m)"
proof (induction ws arbitrary: off m)
  case (Cons w ws)
  then show ?case by (cases m) simp_all
qed simp

lemma find_space_words:
  assumes "\<forall>w \<in> set ws. 32 \<notin> set w"
  shows "find_space (pre @ words ws) (length pre) = (case ws of [] \<Rightarrow> None | w # _ \<Rightarrow> Some (length pre + length w))"
  using assms takeWhile_line [of 32 "hd ws" "words (tl ws)"] by (cases ws) (simp_all add: find_space_def)

lemma scan_spaces_words:
  assumes "\<forall>w \<in> set ws. 32 \<notin> set w" and "length a \<le> 10"
  shows "scan_spaces (pre @ words ws) (find_space (pre @ words ws) (length pre)) a =
    (if length a + length ws \<le> 10 then Inr (a @ ends (length pre) ws) else Inl BufferOverflow)"
  using assms
proof (induction ws arbitrary: pre a)
  case Nil
  then show ?case by (simp add: find_space_def)
next
  case (Cons w ws)
  have f: "find_space (pre @ words (w # ws)) (length pre) = Some (length pre + length w)"
    using find_space_words [OF Cons.prems(1), of pre] by simp
  show ?case
  proof (cases "length a = 10")
    case False
    let ?pre = "pre @ w @ [32]"
    have "scan_spaces (?pre @ words ws) (find_space (?pre @ words ws) (length ?pre)) (a @ [length pre + length w]) =
      (if length a + 1 + length ws \<le> 10 then Inr (a @ (length pre + length w) # ends (length ?pre) ws) else Inl BufferOverflow)"
      using Cons.IH [of "a @ [length pre + length w]" ?pre] Cons.prems False by simp
    then show ?thesis using f False Cons.prems(2) by simp
  qed (use f in simp)
qed

lemma words_piece:
  assumes "m + 1 < length ws"
  defines "a \<equiv> ends 0 ws"
  shows "substr (words ws) (a ! m + 1) (a ! (m + 1) - a ! m - 1) = Inr (ws ! (m + 1))"
proof -
  have ws: "words ws = words (take (m + 1) ws) @ ws ! (m + 1) @ 32 # words (drop (m + 2) ws)"
    using assms(1) by (metis words_simps(2,3) id_take_nth_drop add_2_eq_Suc' Suc_eq_plus1)
  have s: "words (take (Suc m) ws) = words (take m ws) @ ws ! m @ [32]"
    using assms(1) by (simp add: take_Suc_conv_app_nth)
  have "a ! m + 1 = length (words (take (m + 1) ws))" "a ! (m + 1) = length (words (take (m + 1) ws)) + length (ws ! (m + 1))"
    using assms by (simp_all add: ends_nth s)
  then show ?thesis by (simp add: substr_def ws)
qed

lemma rfold_collect:
  "\<forall>x \<in> set xs. f x = Inr (g x) \<Longrightarrow> rfold (\<lambda>x v. rbind (f x) (\<lambda>y. Inr (v @ [y]))) xs v = Inr (v @ map g xs)"
  by (induction xs arbitrary: v) simp_all

text \<open>The mark of \<open>RedisResultCallback\<close>.\<close>

definition expire_line :: "bytes list \<Rightarrow> bytes" where
  "expire_line ids = str ''pre:EXPIRE '' @ words ids"

lemma restore_expire_words:
  assumes "\<forall>w \<in> set (w0 # ids). 32 \<notin> set w"
  shows "restore_expire (words (w0 # ids)) v = (if length ids \<le> 9 then Inr (v @ ids) else Inl BufferOverflow)"
proof -
  let ?ws = "w0 # ids"
  have sc: "scan_spaces (words ?ws) (find_space (words ?ws) 0) [] =
      (if length ids \<le> 9 then Inr (ends 0 ?ws) else Inl BufferOverflow)"
    using scan_spaces_words [OF assms, of "[]" "[]"] by simp
  have "map ((!) ids) [0..<length ids] = ids" by (simp add: map_nth)
  then have "rfold (\<lambda>m v. rbind (substr (words ?ws) (ends 0 ?ws ! m + 1) (ends 0 ?ws ! (m + 1) - ends 0 ?ws ! m - 1)) (\<lambda>x. Inr (v @ [x])))
      [0..<length ids] v = Inr (v @ ids)"
    using rfold_collect [of "[0..<length ids]" "\<lambda>m. substr (words ?ws) (ends 0 ?ws ! m + 1) (ends 0 ?ws ! (m + 1) - ends 0 ?ws ! m - 1)"
        "(!) ids" v] words_piece [of _ ?ws] by simp
  with sc show ?thesis by (simp add: restore_expire_def del: words_simps)
qed

text \<open>Marks: a beginning, an end, or neither.\<close>

datatype mark = Pre bytes | Done bytes | Other bytes

fun mark_line :: "mark \<Rightarrow> bytes" where
  "mark_line (Pre l) = l" | "mark_line (Done l) = l" | "mark_line (Other l) = l"

fun mark_ok :: "mark \<Rightarrow> bool" where
  "mark_ok (Pre l) \<longleftrightarrow> contains (str ''pre:'') l \<and> \<not> contains (str ''done:'') l \<and> 10 \<notin> set l"
| "mark_ok (Done l) \<longleftrightarrow> contains (str ''done:'') l \<and> \<not> contains (str ''pre:'') l \<and> 10 \<notin> set l"
| "mark_ok (Other l) \<longleftrightarrow> \<not> contains (str ''done:'') l \<and> \<not> contains (str ''pre:'') l \<and> 10 \<notin> set l"

text \<open>
  The specification: what was begun and is not ended, the last first; \<open>None\<close> for an end without a beginning. The marks
  carry no number, so an end has to be paired with some beginning: the code, and this specification with it, pairs it with
  the last one, although replies arrive in the order of the beginnings (\<open>done_ends_last_begun\<close> in \<open>Sync_Timer\<close>).
\<close>

fun unfinished :: "mark list \<Rightarrow> bytes list \<Rightarrow> bytes list option" where
  "unfinished [] st = Some st"
| "unfinished (Pre l # ms) st = unfinished ms (l # st)"
| "unfinished (Done l # ms) st = (case st of [] \<Rightarrow> None | _ # r \<Rightarrow> unfinished ms r)"
| "unfinished (Other l # ms) st = unfinished ms st"

lemma restore_lines:
  "list_all mark_ok ms \<Longrightarrow>
   rfold restore_line (map mark_line ms) st = (case unfinished ms st of None \<Rightarrow> Inl OutOfRange | Some st' \<Rightarrow> Inr st')"
  by (induction ms st rule: unfinished.induct) (auto simp: restore_line_def Let_def split: list.split)

lemma mark_ok_line: "mark_ok m \<Longrightarrow> 10 \<notin> set (mark_line m)"
  by (cases m) simp_all

lemma Logger_Restore_marks:
  assumes "list_all mark_ok ms"
  shows "Logger_Restore (unlines (map mark_line ms)) v =
    (case unfinished ms [] of None \<Rightarrow> Inl OutOfRange | Some st \<Rightarrow> rfold restore_top st v)"
proof -
  have "getlines (unlines (map mark_line ms)) = map mark_line ms"
    using assms mark_ok_line by (intro getlines_unlines) (auto simp: list_all_iff)
  then show ?thesis using restore_lines [OF assms] by (simp add: Logger_Restore_def split: option.split)
qed

lemma contains_iff: "contains p s \<longleftrightarrow> (\<exists>x y. s = x @ p @ y)"
proof
  show "contains p s \<Longrightarrow> \<exists>x y. s = x @ p @ y"
  proof (induction p s rule: contains.induct)
    case (1 p s)
    show ?case
    proof (cases "take (length p) s = p")
      case True
      then show ?thesis by (metis append_Nil append_take_drop_id)
    next
      case False
      with "1.prems" obtain b r where s: "s = b # r" "contains p r"
        by (auto simp: contains.simps [of p s] split: list.splits)
      with "1.IH" [of b r] obtain x y where "r = x @ p @ y" by blast
      with s(1) show ?thesis by (metis append_Cons)
    qed
  qed
  have "contains p (x @ p @ y)" for x y
    by (induction x) (simp_all add: contains.simps [of p "_ # _"] contains.simps [of p "p @ y"])
  then show "\<exists>x y. s = x @ p @ y \<Longrightarrow> contains p s" by blast
qed

text \<open>A text without spaces that occurs in a row of words occurs in one of them.\<close>

lemma contains_words:
  assumes "32 \<notin> set p" and "p \<noteq> []" and "\<forall>w \<in> set ws. \<not> contains p w"
  shows "\<not> contains p (words ws)"
  using assms(3)
proof (induction ws)
  case Nil
  then show ?case using assms(2) by (simp add: contains_iff)
next
  case (Cons w ws)
  show ?case
  proof
    assume "contains p (words (w # ws))"
    then obtain x y where e: "w @ 32 # words ws = x @ p @ y" by (auto simp: contains_iff)
    from append_eq_append_conv2 [THEN iffD1, OF e]
    obtain u where u: "w = x @ u \<and> u @ 32 # words ws = p @ y \<or> w @ u = x \<and> 32 # words ws = u @ p @ y" by blast
    then show False
    proof
      assume "w = x @ u \<and> u @ 32 # words ws = p @ y"
      then obtain v where "w = x @ u" and "u = p @ v \<or> u @ v = p \<and> 32 # words ws = v @ y"
        using append_eq_append_conv2 [of u "32 # words ws" p y] by blast
      moreover have "v = []" if "u @ v = p" "32 # words ws = v @ y"
        using that assms(1) by (cases v) auto
      ultimately have "\<exists>v. w = x @ p @ v" by fastforce
      then show False using Cons.prems by (auto simp: contains_iff)
    next
      assume "w @ u = x \<and> 32 # words ws = u @ p @ y"
      then have "\<exists>z. words ws = z @ p @ y" using assms(1,2) by (cases u; cases p) auto
      then show False using Cons by (simp add: contains_iff)
    qed
  qed
qed

lemma expire_line_words: "expire_line ids = words (str ''pre:EXPIRE'' # ids)"
  by (simp add: expire_line_def str_def of_char_def)

lemma contains_prefix: "contains p (p @ r)"
  unfolding contains_iff by (metis append_Nil)

lemma restore_top_expire:
  assumes "\<forall>w \<in> set ids. 32 \<notin> set w"
  shows "restore_top (expire_line ids) v = (if length ids \<le> 9 then Inr (v @ ids) else Inl BufferOverflow)"
proof -
  have "contains (str ''pre:EXPIRE'') (expire_line ids)"
    using contains_prefix [of "str ''pre:EXPIRE''" "32 # words ids"] by (simp add: expire_line_words)
  moreover have "\<forall>w \<in> set (str ''pre:EXPIRE'' # ids). 32 \<notin> set w"
    using assms by (simp add: str_def of_char_def)
  ultimately show ?thesis by (simp only: restore_top_def expire_line_words restore_expire_words if_True)
qed

text \<open>
  C20. Recovery from the log: whatever expiries were begun and not finished, with any other
  lines between, and with at most nine identifiers each, \<open>Logger::Restore\<close> returns exactly
  their identifiers, the last begun first.
\<close>

theorem restore_unfinished:
  assumes "list_all mark_ok ms" and "unfinished ms [] = Some (map expire_line idss)"
    and "\<forall>ids \<in> set idss. length ids \<le> 9 \<and> (\<forall>w \<in> set ids. 32 \<notin> set w)"
  shows "Logger_Restore (unlines (map mark_line ms)) v = Inr (v @ concat idss)"
proof -
  have "rfold restore_top (map expire_line idss) v = Inr (v @ concat idss)"
    using assms(3) by (induction idss arbitrary: v) (simp_all add: restore_top_expire)
  with assms(2) show ?thesis by (simp add: Logger_Restore_marks [OF assms(1)])
qed

theorem restore_unfinished_witness:
  "Logger_Restore (unlines [expire_line [str ''a''], str ''in range'', str ''done:EXPIRE'', expire_line [str ''b'', str ''c'']]) []
     = Inr [str ''b'', str ''c'']"
proof -
  let ?ms = "[Pre (expire_line [str ''a'']), Other (str ''in range''), Done (str ''done:EXPIRE''),
    Pre (expire_line [str ''b'', str ''c''])]"
  have "list_all mark_ok ?ms" by code_simp
  from restore_unfinished [OF this, of "[[str ''b'', str ''c'']]" "[]"] show ?thesis
    by (simp add: str_def of_char_def)
qed

text \<open>
  The limits of the recovery: an expiry of ten or more identifiers writes behind the
  array of the positions, and a finished mark without its beginning pops an empty stack.
\<close>

lemma restore_limits:
  fixes ids :: "bytes list"
  assumes "\<forall>w \<in> set ids. 32 \<notin> set w" and "10 \<le> length ids" and "mark_ok (Pre (expire_line ids))"
  shows "Logger_Restore (unlines [expire_line ids]) v = Inl BufferOverflow
    \<and> Logger_Restore (unlines [str ''done:EXPIRE'']) v = Inl OutOfRange"
proof -
  have "mark_ok (Done (str ''done:EXPIRE''))" by code_simp
  then have "Logger_Restore (unlines [str ''done:EXPIRE'']) v = Inl OutOfRange"
    using Logger_Restore_marks [of "[Done (str ''done:EXPIRE'')]" v] by simp
  moreover have "Logger_Restore (unlines [expire_line ids]) v = Inl BufferOverflow"
    using Logger_Restore_marks [of "[Pre (expire_line ids)]" v] assms by (simp add: restore_top_expire)
  ultimately show ?thesis by simp
qed

section \<open>Exception\<close>

record Exception =
  ex_strMessage :: bytes
  ex_strStack :: bytes

text \<open>Given the symbols of the frames, or a null pointer.\<close>

definition Exception_FillStackTrace :: "bytes list option \<Rightarrow> Exception \<Rightarrow> Exception" where
  "Exception_FillStackTrace pszStrings ex =
     (case pszStrings of
        None \<Rightarrow> ex
      | Some fs \<Rightarrow> fold (\<lambda>f ex. ex\<lparr>ex_strStack := ex_strStack ex @ f @ [10]\<rparr>) fs ex)"

definition Exception_new :: "bytes list option \<Rightarrow> bytes \<Rightarrow> Exception" where
  "Exception_new pszStrings strMessage =
     Exception_FillStackTrace pszStrings \<lparr>ex_strMessage = strMessage, ex_strStack = []\<rparr>"

definition Exception_what :: "Exception \<Rightarrow> bytes" where
  "Exception_what ex = takeWhile (\<lambda>b. b \<noteq> 0) (ex_strMessage ex)"

definition Exception_StackTrace :: "Exception \<Rightarrow> bytes" where
  "Exception_StackTrace ex = takeWhile (\<lambda>b. b \<noteq> 0) (ex_strStack ex)"

end
