(* ===== verification/Sync_Timer.thy ===== *)
theory Sync_Timer
  imports Redis_Channel Log_Restore
begin

text \<open>
  \<open>timer/Timer\<close>: a timer of the synchronisation server this repository started from. A
  user's timer reports that user as expired; the server's own timer asks redis for the
  players whose time is over, takes them out of the sorted set in one transaction, reads
  their data in a second one, and marks both in the log that \<open>Logger::Restore\<close> reads at
  the next start.

  The server it belongs to is not in the repository: only whether it still exists and the
  calls made to it are recorded. What is printed of the replies and of identifiers is
  recorded too, apart from the marks; other messages are left out.
\<close>

section \<open>State\<close>

record SyncTimer =
  st_bIsRun :: bool
  st_strOpenid :: bytes
  st_bIsInit :: bool
  st_iFd :: int
  st_pstChannel :: Channel
  st_pstRedisChannel :: RedisChannel
  st_bIsUser :: bool

record sync_world =
  sw_pstServer :: bool              \<comment> \<open>whether \<open>m_pstServer_.lock()\<close> succeeds\<close>
  sw_stExpiredQueue :: "bytes list"
  sw_trace :: redis_trace

definition c_str :: "bytes \<Rightarrow> bytes" where
  "c_str s = takeWhile (\<lambda>b. b \<noteq> 0) s"

lemma c_str_plain [simp]: "0 \<notin> set s \<Longrightarrow> c_str s = s"
  by (auto simp: c_str_def takeWhile_eq_all_conv)

definition REDIS :: int where "REDIS = 0"
definition DB :: int where "DB = 1"
definition RSTOREDB :: int where "RSTOREDB = 2"

lemmas exec_types = REDIS_def DB_def RSTOREDB_def

definition sw_emit :: "redis_trace \<Rightarrow> sync_world \<Rightarrow> sync_world" where
  "sw_emit es w = w\<lparr>sw_trace := sw_trace w @ es\<rparr>"

definition sw_command :: "(nat \<Rightarrow> bool) \<Rightarrow> redis_callback \<Rightarrow> redis_cmd \<Rightarrow> sync_world \<Rightarrow> sync_world" where
  "sw_command ok fn cmd w = w\<lparr>sw_trace := redisAsyncCommand ok fn cmd (sw_trace w)\<rparr>"

section \<open>Commands\<close>

text \<open>The result of \<open>redisAsyncCommand\<close> only decides whether a message is printed.\<close>

definition Timer_RedisHGETALL :: "(nat \<Rightarrow> bool) \<Rightarrow> bytes \<Rightarrow> sync_world \<Rightarrow> sync_world" where
  "Timer_RedisHGETALL ok strOpenid w = sw_command ok RedisHGETALLCallback (HGETALL (c_str strOpenid)) w"

definition Timer_RedisZCARD :: "(nat \<Rightarrow> bool) \<Rightarrow> bytes \<Rightarrow> sync_world \<Rightarrow> sync_world" where
  "Timer_RedisZCARD ok strKey w = sw_command ok RedisZCARDCallback (ZCARD (c_str strKey)) w"

definition Timer_RedisZCOUNT :: "(nat \<Rightarrow> bool) \<Rightarrow> bytes \<Rightarrow> u64 \<Rightarrow> sync_world \<Rightarrow> sync_world" where
  "Timer_RedisZCOUNT ok strKey iMin w = sw_command ok RedisZCOUNTCallback (ZCOUNT (c_str strKey) iMin) w"

definition Timer_RedisMULTI :: "(nat \<Rightarrow> bool) \<Rightarrow> sync_world \<Rightarrow> sync_world" where
  "Timer_RedisMULTI ok w = sw_command ok NoCallback MULTI w"

definition Timer_RedisEXEC :: "(nat \<Rightarrow> bool) \<Rightarrow> int \<Rightarrow> sync_world \<Rightarrow> sync_world" where
  "Timer_RedisEXEC ok iType w =
     (if iType = DB then sw_command ok RedisToDBCallback EXEC w
      else if iType = REDIS then sw_command ok RedisResultCallback EXEC w
      else if iType = RSTOREDB then sw_command ok RedisRestoreToDBCallback EXEC w
      else w)"

definition Timer_RedisZRANGE :: "(nat \<Rightarrow> bool) \<Rightarrow> bytes \<Rightarrow> int \<Rightarrow> int \<Rightarrow> bool \<Rightarrow> sync_world \<Rightarrow> sync_world" where
  "Timer_RedisZRANGE ok strKey iStart iStop bIsTran w =
     sw_command ok (if bIsTran then NoCallback else RedisZRANGECallback) (ZRANGE (c_str strKey) iStart iStop) w"

definition Timer_RedisZREMRANGEBYRANK :: "(nat \<Rightarrow> bool) \<Rightarrow> bytes \<Rightarrow> int \<Rightarrow> int \<Rightarrow> bool \<Rightarrow> sync_world \<Rightarrow> sync_world" where
  "Timer_RedisZREMRANGEBYRANK ok strKey iStart iStop bIsTran w =
     (if bIsTran then sw_command ok NoCallback (ZREMRANGEBYRANK (c_str strKey) iStart iStop) w else w)"

definition Timer_RedisEXPIRE :: "(nat \<Rightarrow> bool) \<Rightarrow> bytes \<Rightarrow> int \<Rightarrow> bool \<Rightarrow> sync_world \<Rightarrow> sync_world" where
  "Timer_RedisEXPIRE ok strKey iSeconds bIsTran w =
     (if bIsTran then sw_command ok NoCallback (EXPIRE (c_str strKey) iSeconds) w else w)"

lemmas sync_command_defs = Timer_RedisHGETALL_def Timer_RedisZCARD_def Timer_RedisZCOUNT_def
  Timer_RedisMULTI_def Timer_RedisEXEC_def Timer_RedisZRANGE_def Timer_RedisZREMRANGEBYRANK_def
  Timer_RedisEXPIRE_def

section \<open>Construction\<close>

text \<open>The timer of the server requests again what an earlier run left unfinished.\<close>

definition restore_requests :: "(nat \<Rightarrow> bool) \<Rightarrow> bytes \<Rightarrow> sync_world \<Rightarrow> sync_world res" where
  "restore_requests ok log w =
     rbind (Logger_Restore log []) (\<lambda>v.
       let w = Timer_RedisMULTI ok w;
           w = fold (\<lambda>k w. Timer_RedisHGETALL ok k (sw_emit [Said (c_str k)] w)) v w
       in Inr (Timer_RedisEXEC ok RSTOREDB w))"

text \<open>
  Arguments: the results of \<open>timerfd_create\<close>, \<open>timerfd_settime\<close> and
  \<open>redisAsyncConnect\<close>, and the contents of \<open>test.log\<close>.
\<close>

definition SyncTimer_new ::
  "(nat \<Rightarrow> bool) \<Rightarrow> int \<Rightarrow> bool \<Rightarrow> redisAsyncContext option \<Rightarrow> bytes \<Rightarrow>
   u64 \<Rightarrow> bytes \<Rightarrow> bool \<Rightarrow> bool \<Rightarrow> sync_world \<Rightarrow> (SyncTimer \<times> sync_world) res" where
  "SyncTimer_new ok iFd settime_ok ctx log ulExpireTime strOpenid pstEventLoop bIsUser w =
     rbind (RedisChannel_new ok pstEventLoop ctx False (sw_trace w)) (\<lambda>(rc, tr).
       let w = w\<lparr>sw_trace := tr\<rparr>;
           t = \<lparr>st_bIsRun = False, st_strOpenid = strOpenid, st_bIsInit = True, st_iFd = iFd,
                st_pstChannel = Channel_new iFd pstEventLoop False, st_pstRedisChannel = rc,
                st_bIsUser = bIsUser\<rparr> in
       if iFd = - 1 then Inr (t\<lparr>st_bIsInit := False\<rparr>, w)
       else
         let spec = \<lparr>it_interval_sec = (if bIsUser then 0 else ulExpireTime), it_value_sec = ulExpireTime\<rparr>;
             w = sw_emit [Sys (SetTimeCall iFd spec)] w in
         if \<not> settime_ok then Inr (t, w)
         else
           let ch = (st_pstChannel t)\<lparr>ch_stReadCallback :=
                 Some (if bIsUser then Bind_ClientTimeoutCallback else Bind_ServerTimeoutCallback)\<rparr>;
               (ch, eff1) = Channel_DisableWrite ch;
               (ch, eff2) = Channel_EnableRead ch;
               t = t\<lparr>st_pstChannel := ch\<rparr>;
               w = sw_emit (map Sys (eff1 @ eff2)) w in
           if bIsUser then Inr (t, w)
           else rbind (restore_requests ok log w) (\<lambda>w. Inr (t, w)))"

text \<open>The body, then the members: the redis channel closes its own descriptor.\<close>

definition SyncTimer_destroy :: "SyncTimer \<Rightarrow> sync_world \<Rightarrow> sync_world" where
  "SyncTimer_destroy t w =
     sw_emit (map Sys (snd (Channel_DisableAll (st_pstChannel t)))
       @ (if st_iFd t > 0 then [Sys (CloseCall (st_iFd t))] else [])
       @ RedisChannel_destroy (st_pstRedisChannel t)) w"

definition SyncTimer_Init :: "int \<Rightarrow> SyncTimer \<Rightarrow> SyncTimer" where
  "SyncTimer_Init key t =
     (if Channel_IsInit (st_pstChannel t)
      then t\<lparr>st_pstChannel := Channel_Tie (Tied_Timer key) (st_pstChannel t)\<rparr> else t)"

section \<open>Expiry of the timer\<close>

text \<open>What \<open>RemoveTimer\<close> does to the timer is the server's affair.\<close>

definition SyncTimer_ClientTimeoutCallback :: "SyncTimer \<Rightarrow> sync_world \<Rightarrow> sync_world" where
  "SyncTimer_ClientTimeoutCallback t w =
     (if sw_pstServer w then
        let w = sw_emit [Sys (ReadTimerCall (st_iFd t))] w;
            w = w\<lparr>sw_stExpiredQueue := sw_stExpiredQueue w @ [st_strOpenid t]\<rparr>
        in sw_emit [Said (str ''openid:'' @ c_str (st_strOpenid t) @ str '' expired''),
             RemoveTimerCall (st_strOpenid t)] w
      else w)"

definition SyncTimer_ServerTimeoutCallback ::
  "(nat \<Rightarrow> bool) \<Rightarrow> u64 \<Rightarrow> SyncTimer \<Rightarrow> sync_world \<Rightarrow> SyncTimer \<times> sync_world" where
  "SyncTimer_ServerTimeoutCallback ok ulNow t w =
     (if sw_pstServer w then
        let t = t\<lparr>st_bIsRun := True\<rparr>;
            w = sw_emit [Sys (ReadTimerCall (st_iFd t))] w
        in (t, Timer_RedisZCOUNT ok (str ''testkey'') (ulNow - 30) w)
      else (t, w))"

section \<open>Replies\<close>

text \<open>These two only print the reply; the count as an \<open>int\<close>.\<close>

definition SyncTimer_RedisZCARDCallback :: "redisReply option \<Rightarrow> sync_world \<Rightarrow> sync_world" where
  "SyncTimer_RedisZCARDCallback pstResult w =
     (case pstResult of
        None \<Rightarrow> w
      | Some r \<Rightarrow>
          if rr_type r = REDIS_REPLY_INTEGER
          then sw_emit [Said (str ''count: '' @ to_string_int (sint (word_of_int (rr_integer r) :: u32)))] w
          else w)"

definition SyncTimer_RedisHGETALLCallback :: "redisReply option \<Rightarrow> sync_world \<Rightarrow> sync_world" where
  "SyncTimer_RedisHGETALLCallback pstResult w =
     (case pstResult of
        None \<Rightarrow> w
      | Some r \<Rightarrow> if rr_type r = REDIS_REPLY_ARRAY then sw_emit (say_replies (rr_element r)) w else w)"

definition SyncTimer_RedisZCOUNTCallback ::
  "(nat \<Rightarrow> bool) \<Rightarrow> redisReply option \<Rightarrow> SyncTimer \<Rightarrow> sync_world \<Rightarrow> SyncTimer \<times> sync_world" where
  "SyncTimer_RedisZCOUNTCallback ok pstResult t w =
     (case pstResult of
        None \<Rightarrow> (t, w)
      | Some r \<Rightarrow>
          if rr_type r = REDIS_REPLY_INTEGER then
            let ulNum = word_of_int (rr_integer r) :: u32;
                w = sw_emit [Said (str ''in range count: '' @ to_string (unat ulNum))] w in
            if ulNum > 0 then
              let w = Timer_RedisMULTI ok w;
                  strKey = str ''testkey'';
                  w = Timer_RedisZRANGE ok strKey 0 5 True w;
                  w = Timer_RedisZREMRANGEBYRANK ok strKey 0 5 True w
              in (t, Timer_RedisEXEC ok REDIS w)
            else (t\<lparr>st_bIsRun := False\<rparr>, w)
          else (t, w))"

text \<open>The members of an array reply, those of arrays in it, and with them the numbers removed.\<close>

definition say_nested :: "redisReply \<Rightarrow> redis_trace" where
  "say_nested el = (if rr_type el = REDIS_REPLY_ARRAY then say_replies (rr_element el) else [])"

definition say_removed :: "redisReply \<Rightarrow> redis_trace" where
  "say_removed el =
     (if rr_type el = REDIS_REPLY_INTEGER then [Said (str ''rm  '' @ to_string_int (rr_integer el))] else [])"

definition SyncTimer_RedisZRANGECallback :: "redisReply option \<Rightarrow> SyncTimer \<Rightarrow> sync_world \<Rightarrow> SyncTimer \<times> sync_world" where
  "SyncTimer_RedisZRANGECallback pstResult t w =
     (case pstResult of
        None \<Rightarrow> (t\<lparr>st_bIsRun := False\<rparr>, w)
      | Some r \<Rightarrow>
          if rr_type r = REDIS_REPLY_ARRAY then
            (t\<lparr>st_bIsRun := False\<rparr>, sw_emit (concat (map (\<lambda>el. say_nested el @ say_removed el) (rr_element r))) w)
          else (t, w))"

definition sync_marks :: "redis_trace" where
  "sync_marks = [Printed (str ''pre:sync''), Printed (str ''done:sync'')]"

definition SyncTimer_RedisToDBCallback :: "redisReply option \<Rightarrow> sync_world \<Rightarrow> sync_world" where
  "SyncTimer_RedisToDBCallback pstResult w =
     (case pstResult of
        None \<Rightarrow> w
      | Some r \<Rightarrow>
          let w = sw_emit [Printed (str ''done:EXPIRE'')] w in
          if rr_type r = REDIS_REPLY_ARRAY
          then sw_emit (concat (map say_nested (rr_element r)) @ sync_marks) w else w)"

definition SyncTimer_RedisRestoreToDBCallback :: "redisReply option \<Rightarrow> sync_world \<Rightarrow> sync_world" where
  "SyncTimer_RedisRestoreToDBCallback pstResult w =
     (case pstResult of
        None \<Rightarrow> w
      | Some r \<Rightarrow>
          if rr_type r = REDIS_REPLY_ARRAY
          then sw_emit (concat (map say_nested (rr_element r)) @ sync_marks) w else w)"

text \<open>The players taken out of the sorted set; constructing a string from a null pointer stops.\<close>

definition result_player ::
  "(nat \<Rightarrow> bool) \<Rightarrow> nat \<times> redisReply \<Rightarrow> bytes \<times> sync_world \<Rightarrow> (bytes \<times> sync_world) res" where
  "result_player ok j_el = (\<lambda>(strTmp, w).
     let w = sw_emit [say_reply j_el] w in
     case rr_str (snd j_el) of
       None \<Rightarrow> Inl NullDeref
     | Some s \<Rightarrow>
         let strOpenid = str ''hloginuser:'' @ c_str s;
             w = Timer_RedisHGETALL ok strOpenid w;
             w = Timer_RedisEXPIRE ok strOpenid 20 True w
         in Inr (strTmp @ strOpenid @ [32], w))"

definition result_element :: "(nat \<Rightarrow> bool) \<Rightarrow> redisReply \<Rightarrow> sync_world \<Rightarrow> sync_world res" where
  "result_element ok el w =
     rbind
       (if rr_type el = REDIS_REPLY_ARRAY then
          rbind (rfold (result_player ok) (enumerate 0 (rr_element el)) ([], Timer_RedisMULTI ok w)) (\<lambda>(strTmp, w).
            let w = sw_emit [Printed (str ''pre:EXPIRE '' @ c_str strTmp)] w
            in Inr (Timer_RedisEXEC ok DB w))
        else Inr w)
       (\<lambda>w. Inr (sw_emit (say_removed el) w))"

definition SyncTimer_RedisResultCallback ::
  "(nat \<Rightarrow> bool) \<Rightarrow> redisReply option \<Rightarrow> sync_world \<Rightarrow> sync_world res" where
  "SyncTimer_RedisResultCallback ok pstResult w =
     (case pstResult of
        None \<Rightarrow> Inr w
      | Some r \<Rightarrow> if rr_type r = REDIS_REPLY_ARRAY then rfold (result_element ok) (rr_element r) w else Inr w)"

section \<open>What the commands are\<close>

lemma sw_emit_trace [simp]: "sw_trace (sw_emit es w) = sw_trace w @ es"
  by (simp add: sw_emit_def)

lemma sw_command_trace [simp]:
  "commands (sw_trace (sw_command ok fn cmd w)) = commands (sw_trace w) @ [(fn, cmd)]"
  "printed (sw_trace (sw_command ok fn cmd w)) = printed (sw_trace w)"
  by (simp_all add: sw_command_def)

text \<open>A command as the event it leaves behind what was done before.\<close>

lemma sw_command_event:
  "sw_trace (sw_command ok fn cmd w) = sw_trace w @ [AsyncCommand fn cmd (ok (length (sw_trace w)))]"
  by (simp add: sw_command_def redisAsyncCommand_def)

lemma say_nested_silent [simp]:
  "commands (say_nested el) = []" "printed (say_nested el) = []"
  "commands (say_removed el) = []" "printed (say_removed el) = []"
  by (simp_all add: say_nested_def say_removed_def)

lemma say_all_nested_silent [simp]: "printed (concat (map say_nested els)) = []"
  by (induction els) simp_all

lemma HGETALL_all:
  "commands (sw_trace (fold (\<lambda>k w. Timer_RedisHGETALL ok k (sw_emit [Said (c_str k)] w)) v w)) =
     commands (sw_trace w) @ map (\<lambda>k. (RedisHGETALLCallback, HGETALL (c_str k))) v"
  by (induction v arbitrary: w) (simp_all add: Timer_RedisHGETALL_def)

text \<open>The reply to the transaction that takes the players \<open>ids\<close> out of the sorted set.\<close>

definition exec_reply :: "bytes list \<Rightarrow> int \<Rightarrow> redisReply" where
  "exec_reply ids n =
     redisReply REDIS_REPLY_ARRAY 0 None
       [redisReply REDIS_REPLY_ARRAY 0 None (map (\<lambda>i. redisReply REDIS_REPLY_STRING 0 (Some i) []) ids),
        redisReply REDIS_REPLY_INTEGER n None []]"

definition player_key :: "bytes \<Rightarrow> bytes" where
  "player_key i = str ''hloginuser:'' @ i"

definition player_ok :: "bytes \<Rightarrow> bool" where
  "player_ok i \<longleftrightarrow> 0 \<notin> set i \<and> 10 \<notin> set i \<and> 32 \<notin> set i \<and> 58 \<notin> set i"

lemma player_key_plain:
  "player_ok i \<Longrightarrow> 0 \<notin> set (player_key i) \<and> 10 \<notin> set (player_key i) \<and> 32 \<notin> set (player_key i)"
  by (simp add: player_ok_def player_key_def str_def of_char_def)

text \<open>The two commands that each player adds to the transaction.\<close>

definition player_commands :: "bytes list \<Rightarrow> (redis_callback \<times> redis_cmd) list" where
  "player_commands ids =
     concat (map (\<lambda>i. [(RedisHGETALLCallback, HGETALL (player_key i)), (NoCallback, EXPIRE (player_key i) 20)]) ids)"

lemma result_players:
  assumes "list_all player_ok ids"
  shows "\<exists>w' tr. rfold (result_player ok) (enumerate j (map (\<lambda>i. redisReply REDIS_REPLY_STRING 0 (Some i) []) ids)) (s, w)
      = Inr (s @ words (map player_key ids), w')
    \<and> sw_trace w' = sw_trace w @ tr \<and> commands tr = player_commands ids \<and> printed tr = []"
  using assms
proof (induction ids arbitrary: j s w)
  case (Cons i ids)
  let ?k = "player_key i" and ?el = "(j, redisReply REDIS_REPLY_STRING 0 (Some i) [])"
  let ?w = "Timer_RedisEXPIRE ok ?k 20 True (Timer_RedisHGETALL ok ?k (sw_emit [say_reply ?el] w))"
  have k: "c_str ?k = ?k" using Cons.prems player_key_plain by simp
  have one: "result_player ok ?el (s, w) = Inr (s @ ?k @ [32], ?w)"
    using Cons.prems by (simp add: result_player_def player_ok_def player_key_def Let_def)
  define tr1 where "tr1 = [say_reply ?el] @ [AsyncCommand RedisHGETALLCallback (HGETALL ?k) (ok (Suc (length (sw_trace w)))),
      AsyncCommand NoCallback (EXPIRE ?k 20) (ok (Suc (Suc (length (sw_trace w)))))]"
  have tr1: "sw_trace ?w = sw_trace w @ tr1" "printed tr1 = []"
      "commands tr1 = [(RedisHGETALLCallback, HGETALL ?k), (NoCallback, EXPIRE ?k 20)]"
    unfolding tr1_def commands_append printed_append say_silent by (simp_all add: sync_command_defs sw_command_event k)
  obtain w' tr2 where tr2: "sw_trace w' = sw_trace ?w @ tr2" "commands tr2 = player_commands ids" "printed tr2 = []"
      "rfold (result_player ok) (enumerate (Suc j) (map (\<lambda>i. redisReply REDIS_REPLY_STRING 0 (Some i) []) ids)) (s @ ?k @ [32], ?w)
        = Inr ((s @ ?k @ [32]) @ words (map player_key ids), w')"
    using Cons.IH [of "Suc j" "s @ ?k @ [32]" ?w] Cons.prems by auto
  show ?case
    using one tr2(4) tr1 tr2(1-3) by (intro exI [of _ w'] exI [of _ "tr1 @ tr2"]) (simp add: player_commands_def)
qed (simp add: player_commands_def)

lemma words_plain: "\<forall>w \<in> set ws. b \<notin> set w \<Longrightarrow> b \<noteq> 32 \<Longrightarrow> b \<notin> set (words ws)"
  by (induction ws) auto

text \<open>Everything the callback does, in the order in which it does it.\<close>

lemma result_callback:
  assumes "list_all player_ok ids"
  shows "\<exists>w' pre b post. SyncTimer_RedisResultCallback ok (Some (exec_reply ids n)) w = Inr w'
    \<and> sw_trace w' = sw_trace w @ pre
        @ [Printed (expire_line (map player_key ids)), AsyncCommand RedisToDBCallback EXEC b] @ post
    \<and> commands pre = (NoCallback, MULTI) # player_commands ids \<and> printed pre = []
    \<and> commands post = [] \<and> printed post = []"
proof -
  have nul: "0 \<notin> set (words (map player_key ids))"
    using assms player_key_plain by (intro words_plain) (auto simp: list_all_iff)
  let ?l = "expire_line (map player_key ids)"
  obtain w1 tr where w1: "rfold (result_player ok) (enumerate 0 (map (\<lambda>i. redisReply REDIS_REPLY_STRING 0 (Some i) []) ids))
        ([], Timer_RedisMULTI ok w) = Inr (words (map player_key ids), w1)"
      "sw_trace w1 = sw_trace (Timer_RedisMULTI ok w) @ tr" "commands tr = player_commands ids" "printed tr = []"
    using result_players [OF assms, of ok 0 "[]" "Timer_RedisMULTI ok w"] by auto
  define w2 where "w2 = sw_emit [Printed ?l] w1"
  let ?w' = "sw_emit [Said (str ''rm  '' @ to_string_int n)] (Timer_RedisEXEC ok DB w2)"
  have "SyncTimer_RedisResultCallback ok (Some (exec_reply ids n)) w = Inr ?w'"
    using w1(1) nul by (simp add: SyncTimer_RedisResultCallback_def exec_reply_def result_element_def reply_types
        expire_line_def w2_def say_removed_def sw_emit_def)
  moreover have "sw_trace ?w' = sw_trace w @ (AsyncCommand NoCallback MULTI (ok (length (sw_trace w))) # tr)
      @ [Printed ?l, AsyncCommand RedisToDBCallback EXEC (ok (length (sw_trace w2)))] @ [Said (str ''rm  '' @ to_string_int n)]"
    using w1(2) by (simp add: w2_def Timer_RedisMULTI_def Timer_RedisEXEC_def exec_types sw_command_event)
  ultimately show ?thesis using w1(3,4)
    by (intro exI [of _ ?w'] exI [of _ "AsyncCommand NoCallback MULTI (ok (length (sw_trace w))) # tr"]
        exI [of _ "ok (length (sw_trace w2))"] exI [of _ "[Said (str ''rm  '' @ to_string_int n)]"]) simp
qed

text \<open>The mark of an expiry begins one and ends none.\<close>

lemma player_key_no_done:
  assumes "player_ok i"
  shows "\<not> contains (str ''done:'') (player_key i)"
proof
  assume "contains (str ''done:'') (player_key i)"
  then obtain x y where "str ''hloginuser'' @ 58 # i = (x @ str ''done'') @ 58 # y"
    by (auto simp: contains_iff player_key_def str_def of_char_def)
  then have "str ''hloginuser'' = x @ str ''done''"
    using assms by (subst (asm) append_Cons_eq_iff) (auto simp: player_ok_def str_def of_char_def)
  then have "last (str ''hloginuser'') = last (x @ str ''done'')" by simp
  then show False by (simp add: str_def of_char_def)
qed

lemma expire_line_mark:
  assumes "list_all player_ok ids"
  shows "mark_ok (Pre (expire_line (map player_key ids)))"
proof -
  let ?ws = "str ''pre:EXPIRE'' # map player_key ids"
  have "\<not> contains (str ''done:'') (str ''pre:EXPIRE'')" by code_simp
  then have "\<not> contains (str ''done:'') (words ?ws)"
    using assms player_key_no_done
    by (intro contains_words) (auto simp: list_all_iff, auto simp: str_def of_char_def)
  moreover have "10 \<notin> set (words ?ws)"
    using assms player_key_plain by (intro words_plain) (auto simp: list_all_iff, auto simp: str_def of_char_def)
  moreover have "contains (str ''pre:'') (words ?ws)"
    using contains_prefix [of "str ''pre:''" "str ''EXPIRE '' @ words (map player_key ids)"]
    by (simp add: str_def of_char_def)
  ultimately show ?thesis by (simp only: mark_ok.simps expire_line_words not_False_eq_True simp_thms)
qed

section \<open>A crash in the middle of an expiry\<close>

lemma unfinished_append: "unfinished (a @ b) st = Option.bind (unfinished a st) (unfinished b)"
  by (induction a st rule: unfinished.induct) (auto split: list.split)

lemma restore_one_expiry:
  assumes "list_all mark_ok hist" and "unfinished hist [] = Some []"
    and "list_all player_ok ids" and "length ids \<le> 9"
  shows "Logger_Restore (unlines (map mark_line hist @ [expire_line (map player_key ids)])) v = Inr (v @ map player_key ids)"
proof -
  let ?l = "expire_line (map player_key ids)"
  have "\<forall>w \<in> set (map player_key ids). 32 \<notin> set w"
    using assms(3) player_key_plain by (auto simp: list_all_iff)
  with Logger_Restore_marks [of "hist @ [Pre ?l]" v] show ?thesis
    using assms expire_line_mark [OF assms(3)] by (simp add: unfinished_append restore_top_expire)
qed

lemma restore_requests_commands:
  assumes "Logger_Restore log [] = Inr v" and "\<forall>k \<in> set v. c_str k = k"
  shows "\<exists>w'. restore_requests ok log w = Inr w'
    \<and> commands (sw_trace w') = commands (sw_trace w) @ [(NoCallback, MULTI)]
        @ map (\<lambda>k. (RedisHGETALLCallback, HGETALL k)) v @ [(RedisRestoreToDBCallback, EXEC)]"
  using assms by (simp add: restore_requests_def Timer_RedisEXEC_def exec_types Timer_RedisMULTI_def HGETALL_all)

lemma SyncTimer_new_server:
  assumes "Logger_Restore log [] = Inr v" and "\<forall>k \<in> set v. c_str k = k"
    and "\<not> ac_err ac" and "\<not> ac_ev_data ac" and "iFd \<noteq> - 1"
  shows "\<exists>t w'. SyncTimer_new ok iFd True (Some ac) log ul openid True False w = Inr (t, w')
    \<and> commands (sw_trace w') = commands (sw_trace w)
        @ [(RedisAuthCallback, AUTH (str ''Sh@1424Qbgame'')), (NoCallback, MULTI)]
        @ map (\<lambda>k. (RedisHGETALLCallback, HGETALL k)) v @ [(RedisRestoreToDBCallback, EXEC)]"
proof -
  let ?ch = "(Channel_new iFd True False)\<lparr>ch_stReadCallback := Some Bind_ServerTimeoutCallback\<rparr>"
  obtain c1 e1 where 1: "Channel_DisableWrite ?ch = (c1, e1)" by fastforce
  obtain c2 e2 where 2: "Channel_EnableRead c1 = (c2, e2)" by fastforce
  have "\<exists>t w1. SyncTimer_new ok iFd True (Some ac) log ul openid True False w = rbind (restore_requests ok log w1) (\<lambda>w. Inr (t, w))
    \<and> commands (sw_trace w1) = commands (sw_trace w) @ [(RedisAuthCallback, AUTH (str ''Sh@1424Qbgame''))]"
    by (simp add: SyncTimer_new_def RedisChannel_new_def RedisChannel_RedisTodoAuth_def Let_def assms(3-5) 1 2,
        rule exI, rule exI, rule conjI, rule refl, simp)
  then obtain t w1 where n: "SyncTimer_new ok iFd True (Some ac) log ul openid True False w
      = rbind (restore_requests ok log w1) (\<lambda>w. Inr (t, w))"
    and c: "commands (sw_trace w1) = commands (sw_trace w) @ [(RedisAuthCallback, AUTH (str ''Sh@1424Qbgame''))]"
    by blast
  from restore_requests_commands [OF assms(1,2), of ok w1] n c show ?thesis by auto
qed

text \<open>
  C15. An expiry survives a crash. When the players were taken out of the sorted set, the
  callback queues the commands that read their data, writes a mark that names them to the log,
  and only then sends the \<open>EXEC\<close> that runs the commands: the mark stands directly before the
  \<open>EXEC\<close> in the sequence of all that the callback does, and no other mark and no other \<open>EXEC\<close>
  is in it. If the process stops behind the mark and before the transaction is answered, the
  timer of the next process reads the mark back and requests the data of exactly these players again, in
  one transaction. For at most nine players, whose ids have no zero byte, line end, space or
  colon, and a log whose earlier operations are finished; what was printed is taken to be in
  \<open>test.log\<close>.
\<close>

theorem expiry_survives_crash:
  assumes "list_all player_ok ids" and "length ids \<le> 9"
    and "list_all mark_ok hist" and "unfinished hist [] = Some []"
    and "\<not> ac_err ac" and "\<not> ac_ev_data ac" and "iFd \<noteq> - 1"
  shows "\<exists>w1 pre l b post t w2. SyncTimer_RedisResultCallback ok (Some (exec_reply ids n)) w = Inr w1
    \<and> sw_trace w1 = sw_trace w @ pre @ [Printed l, AsyncCommand RedisToDBCallback EXEC b] @ post
    \<and> commands pre = (NoCallback, MULTI) # player_commands ids \<and> printed pre = []
    \<and> commands post = [] \<and> printed post = []
    \<and> SyncTimer_new ok' iFd True (Some ac) (unlines (map mark_line hist @ [l])) ul openid True False w0 = Inr (t, w2)
    \<and> commands (sw_trace w2) = commands (sw_trace w0)
        @ [(RedisAuthCallback, AUTH (str ''Sh@1424Qbgame'')), (NoCallback, MULTI)]
        @ map (\<lambda>i. (RedisHGETALLCallback, HGETALL (player_key i))) ids @ [(RedisRestoreToDBCallback, EXEC)]"
proof -
  let ?l = "expire_line (map player_key ids)"
  have r: "Logger_Restore (unlines (map mark_line hist @ [?l])) [] = Inr (map player_key ids)"
    using restore_one_expiry [OF assms(3,4,1,2), of "[]"] by simp
  have "\<forall>k \<in> set (map player_key ids). c_str k = k"
    using assms(1) player_key_plain by (auto simp: list_all_iff)
  then obtain t w2 where "SyncTimer_new ok' iFd True (Some ac) (unlines (map mark_line hist @ [?l])) ul openid True False w0 = Inr (t, w2)"
      "commands (sw_trace w2) = commands (sw_trace w0)
        @ [(RedisAuthCallback, AUTH (str ''Sh@1424Qbgame'')), (NoCallback, MULTI)]
        @ map (\<lambda>i. (RedisHGETALLCallback, HGETALL (player_key i))) ids @ [(RedisRestoreToDBCallback, EXEC)]"
    using SyncTimer_new_server [OF r _ assms(5-7), of ok' ul openid w0] by (auto simp: comp_def)
  with result_callback [OF assms(1), of ok n w] show ?thesis by blast
qed

definition sample_sw :: sync_world where
  "sample_sw = \<lparr>sw_pstServer = True, sw_stExpiredQueue = [], sw_trace = []\<rparr>"

theorem expiry_survives_crash_witness:
  "\<exists>w1 pre l b post t w2. SyncTimer_RedisResultCallback (\<lambda>_. True) (Some (exec_reply [str ''dan''] 1)) sample_sw = Inr w1
    \<and> sw_trace w1 = pre @ [Printed l, AsyncCommand RedisToDBCallback EXEC b] @ post
    \<and> SyncTimer_new (\<lambda>_. True) 9 True (Some \<lparr>ac_fd = 8, ac_err = False, ac_ev_data = False, ac_callbacks = False\<rparr>)
        (unlines [str ''pre:sync'', str ''done:sync'', l]) 30 [] True False sample_sw = Inr (t, w2)
    \<and> (RedisHGETALLCallback, HGETALL (player_key (str ''dan''))) \<in> set (commands (sw_trace w2))"
proof -
  have "list_all mark_ok [Pre (str ''pre:sync''), Done (str ''done:sync'')]" by code_simp
  moreover have "list_all player_ok [str ''dan'']" by code_simp
  moreover have "unfinished [Pre (str ''pre:sync''), Done (str ''done:sync'')] [] = Some []" by simp
  ultimately obtain w1 pre l b post t w2 where
      "SyncTimer_RedisResultCallback (\<lambda>_. True) (Some (exec_reply [str ''dan''] 1)) sample_sw = Inr w1"
      "sw_trace w1 = sw_trace sample_sw @ pre @ [Printed l, AsyncCommand RedisToDBCallback EXEC b] @ post"
      "SyncTimer_new (\<lambda>_. True) 9 True (Some \<lparr>ac_fd = 8, ac_err = False, ac_ev_data = False, ac_callbacks = False\<rparr>)
        (unlines (map mark_line [Pre (str ''pre:sync''), Done (str ''done:sync'')] @ [l])) 30 [] True False sample_sw = Inr (t, w2)"
      "commands (sw_trace w2) = commands (sw_trace sample_sw)
        @ [(RedisAuthCallback, AUTH (str ''Sh@1424Qbgame'')), (NoCallback, MULTI)]
        @ map (\<lambda>i. (RedisHGETALLCallback, HGETALL (player_key i))) [str ''dan''] @ [(RedisRestoreToDBCallback, EXEC)]"
    using expiry_survives_crash [of "[str ''dan'']" "[Pre (str ''pre:sync''), Done (str ''done:sync'')]"
        "\<lparr>ac_fd = 8, ac_err = False, ac_ev_data = False, ac_callbacks = False\<rparr>" 9 "\<lambda>_. True" 1 sample_sw "\<lambda>_. True" 30 "[]" sample_sw]
    by auto
  then show ?thesis
    by (intro exI [of _ w1] exI [of _ pre] exI [of _ l] exI [of _ b] exI [of _ post] exI [of _ t] exI [of _ w2])
      (simp add: sample_sw_def)
qed

section \<open>The transactions of an expiry\<close>

text \<open>
  A round of the server's timer while players are over their time: it counts those that are 30 seconds
  old, then takes the first six of the set out of it and reads them in the same transaction.
\<close>

lemma expiry_round:
  assumes "sw_pstServer w" and "0 < (word_of_int n :: u32)"
  shows "\<exists>t1 w1. SyncTimer_ServerTimeoutCallback ok ulNow t w = (t1, w1) \<and> st_bIsRun t1
    \<and> commands (sw_trace w1) = commands (sw_trace w) @ [(RedisZCOUNTCallback, ZCOUNT (str ''testkey'') (ulNow - 30))]
    \<and> (\<exists>w2. SyncTimer_RedisZCOUNTCallback ok (Some (redisReply REDIS_REPLY_INTEGER n None [])) t1 w1 = (t1, w2)
        \<and> commands (sw_trace w2) = commands (sw_trace w1) @ [(NoCallback, MULTI), (NoCallback, ZRANGE (str ''testkey'') 0 5),
             (NoCallback, ZREMRANGEBYRANK (str ''testkey'') 0 5), (RedisResultCallback, EXEC)])"
proof -
  have "c_str (str ''testkey'') = str ''testkey''" by (simp add: str_def of_char_def)
  then show ?thesis
    using assms by (simp add: SyncTimer_ServerTimeoutCallback_def SyncTimer_RedisZCOUNTCallback_def
        sync_command_defs exec_types Let_def)
qed

text \<open>A finished expiry leaves nothing to restore.\<close>

lemma finished_expiry_marks:
  assumes "list_all player_ok ids" and "SyncTimer_RedisResultCallback ok (Some (exec_reply ids n)) w = Inr w1"
    and "rr_type r = REDIS_REPLY_ARRAY"
  shows "printed (sw_trace (SyncTimer_RedisToDBCallback (Some r) w1)) =
    printed (sw_trace w) @ [expire_line (map player_key ids), str ''done:EXPIRE'', str ''pre:sync'', str ''done:sync'']"
  using result_callback [OF assms(1), of ok n w] assms(2,3)
  by (auto simp: SyncTimer_RedisToDBCallback_def sync_marks_def)

text \<open>
  A done mark ends the expiry that was begun last. Redis answers transactions in the order in which they were
  sent, so with two expiries under way the first answer belongs to the first one, but a restart takes the
  second one for finished and restores the first.
\<close>

lemma done_ends_last_begun:
  assumes "list_all player_ok ids" and "list_all player_ok ids'" and "length ids \<le> 9"
  shows "Logger_Restore (unlines [expire_line (map player_key ids), expire_line (map player_key ids'), str ''done:EXPIRE'']) []
    = Inr (map player_key ids)"
proof -
  let ?ms = "[Pre (expire_line (map player_key ids)), Pre (expire_line (map player_key ids')), Done (str ''done:EXPIRE'')]"
  have "mark_ok (Done (str ''done:EXPIRE''))" by code_simp
  then have "list_all mark_ok ?ms" using expire_line_mark assms(1,2) by simp
  moreover have "\<forall>w \<in> set (map player_key ids). 32 \<notin> set w"
    using assms(1) player_key_plain by (auto simp: list_all_iff)
  ultimately show ?thesis
    using Logger_Restore_marks [of ?ms "[]"] assms(3) by (simp add: restore_top_expire)
qed

text \<open>
  A restored expiry is never marked as done: the callback of the restoring transaction writes only the marks of the
  synchronisation, so the next start restores the same players again.
\<close>

lemma restored_expiry_restored_again:
  assumes "list_all mark_ok hist" and "unfinished hist [] = Some []"
    and "list_all player_ok ids" and "length ids \<le> 9" and "rr_type r = REDIS_REPLY_ARRAY"
    and "printed (sw_trace w) = map mark_line hist @ [expire_line (map player_key ids)]"
  shows "Logger_Restore (unlines (printed (sw_trace (SyncTimer_RedisRestoreToDBCallback (Some r) w)))) [] = Inr (map player_key ids)"
proof -
  let ?ms = "hist @ [Pre (expire_line (map player_key ids)), Pre (str ''pre:sync''), Done (str ''done:sync'')]"
  have "printed (sw_trace (SyncTimer_RedisRestoreToDBCallback (Some r) w)) = map mark_line ?ms"
    using assms(5,6) by (simp add: SyncTimer_RedisRestoreToDBCallback_def sync_marks_def)
  moreover have "mark_ok (Pre (str ''pre:sync''))" "mark_ok (Done (str ''done:sync''))" by code_simp+
  then have "list_all mark_ok ?ms" using assms(1,3) expire_line_mark by simp
  moreover have "\<forall>w \<in> set (map player_key ids). 32 \<notin> set w"
    using assms(3) player_key_plain by (auto simp: list_all_iff)
  ultimately show ?thesis
    using Logger_Restore_marks [of ?ms "[]"] assms(2,4) by (simp add: unfinished_append restore_top_expire)
qed

end
