(* ===== verification/Spec2Isabelle.thy ===== *)
theory Spec2Isabelle
  imports Api_Roundtrip Api_Life Api_Access Raft_Msgs Raft_Boot Raft_Cluster Raft_Commit Raft_Join Event_Stop
    Leveldb_Slice Redis_Order Sync_Timer
begin

text \<open>
  A verification development for \<open>raft_server\<close>, a server that replicates a log of
  configuration entries after the Raft protocol, over TCP, with protobuf messages, an
  epoll event loop, timerfd timers and leveldb storage.

  \<^bold>\<open>The program and its parts.\<close>
  \<open>main\<close> builds a \<open>RaftServer\<close>, which owns the log, the term, the commit index, one
  \<open>RaftProxy\<close> per other node, the connections and the timers. A leader (\<open>start\<close>) waits
  for nodes that connect and shake hands (\<open>join\<close>), logs each of them, and sends
  \<open>AppendEntries\<close> messages from a timer; a follower appends what it is sent and
  acknowledges it, and the leader counts acknowledgements to move its commit index. Bytes
  travel through the two 1440-byte buffers of a \<open>Conn\<close>; \<open>Mod\<close> cuts them into frames (2 bytes of
  id, 4 of length, a protobuf message) and calls the handler in \<open>ModApi\<close>. A \<open>Channel\<close>
  connects a descriptor with the \<open>EPoller\<close> and calls back into connections, timers and the
  server.

  \<^bold>\<open>Theories, in the order of their dependencies.\<close>
  \<^item> \<open>Raft_Prelude\<close>: machine integers, the stops of the program (\<open>crash\<close>), results,
    byte buffers, little-endian fields. Undefined behaviour, \<open>exit(1)\<close> and violated library
    contracts are values, never ignored.
  \<^item> \<open>Pb_Wire\<close>, \<open>Wire_Leb\<close>: the interface of the protobuf runtime as the record
    \<open>wire\<close> with the locale \<open>wire_format\<close> of its documented laws, the parse loop that all
    generated parsers share, and the actual LEB128 encoding as an interpretation.
  \<^item> \<open>Api_Messages\<close>, \<open>Api_Codec\<close>, \<open>Api_Roundtrip\<close>: \<open>protocol/api.pb.cc\<close>, the
    seven message classes with constructors, serialisers, parsers, sizes, merge, copy, swap;
    laws and properties of the codec. \<open>Api_Access\<close>: the inline accessors of \<open>protocol/api.pb.h\<close>, one
    interpretation of the locale \<open>message_field\<close> per field. \<open>Api_Life\<close>: constructors and the operations on messages of
    unknown class, one interpretation of the locale \<open>message_class\<close> per class.
  \<^item> \<open>Std_Map\<close>: \<open>std::map\<close> behind the locale \<open>ordered_map\<close>. \<open>Leveldb_Store\<close>: leveldb
    behind the locale \<open>ldb_engine\<close>, the comparator \<open>IndexComparator\<close>, decimal keys,
    slices.
  \<^item> \<open>Event_Channel\<close>: \<open>eventloop/Channel\<close> and \<open>EPoller\<close>, the calls that change what epoll
    watches (locale \<open>channel_op\<close>, one interpretation per call). \<open>Easy_Timer\<close>:
    \<open>easytimer/Timer\<close>.
  \<^item> \<open>Raft_Server\<close>, \<open>Raft_Msgs\<close>, \<open>Raft_Log\<close>: \<open>nanoraft/RaftServer\<close>, \<open>RaftProxy\<close>,
    \<open>RaftLogEntry\<close>, \<open>RaftMsgs\<close>; the invariant \<open>srv_inv\<close>; log, terms, commit index, restart.
    \<open>extends E s s'\<close> is what every operation keeps of the server: the log only grows, by well-typed
    entries, no proxy is lost, nobody becomes leader, and on storage that works every entry is in the
    database, followed by whatever lay in memory behind it (\<open>kept\<close>; \<open>stored\<close> when that is nothing).
  \<^item> \<open>Net_Buffer\<close>, \<open>Net_Conn\<close>, \<open>Net_World\<close>, \<open>Net_Stream\<close>, \<open>Net_Segments\<close>: \<open>net/Conn\<close>. The buffers are two
    interpretations of the locale \<open>byte_queue\<close>; the state of the process is a \<open>world\<close>
    (server, connection objects by address, owners, system calls made); the locale
    \<open>network\<close> says what \<open>send\<close> may return; \<open>wstep\<close> is what every operation keeps. A frame that
    arrives in segments is \<open>recv_all\<close>, the callbacks of the segments in a row.
  \<^item> \<open>Mod_Api\<close>, \<open>Mod_Dispatch\<close>, \<open>Mod_World\<close>: \<open>mod/ModApi.hpp\<close>, \<open>mod/Mod.cpp\<close>,
    \<open>mod/MessageWrapper\<close>, and that they keep the invariant.
  \<^item> \<open>Event_Loop\<close>, \<open>Raft_System\<close>: event handling, accepting, timer callbacks, set-up, \<open>main\<close>,
    and the executions (\<open>reachable\<close>, and \<open>runs\<close> from a given state on), with the invariant over all
    of them. \<open>Raft_Boot\<close>: the commands of \<open>main\<close> and the listening socket that
    \<open>SocketWrapper\<close> opens for \<open>start\<close>.
  \<^item> \<open>Raft_Replication\<close>, \<open>Raft_Leader\<close>, \<open>Raft_Commit\<close>, \<open>Raft_Tcp\<close>, \<open>Raft_Rounds\<close>, \<open>Raft_Peers\<close>, \<open>Raft_Cluster\<close>, \<open>Raft_Join\<close>: the protocol. \<open>follower_step\<close> is the
    abstract follower that \<open>AppendEntriesQ\<close> refines (locale \<open>calm_store\<close>: storage that
    works); then the leader's messages, rounds of replication, acknowledgements of a majority, the
    bytes that one callback hands to the socket and the callbacks that take them in, and handshakes. \<open>Raft_Rounds\<close>,
    \<open>Raft_Peers\<close> and \<open>Raft_Cluster\<close> put a leader and its nodes together, each in its event loop: \<open>cluster_step\<close> is
    the round of the leader's timer, then for each node that runs, in any order, its rounds for the segments of
    the message and the leader's rounds for those of the answer. Nodes are named by their ids, \<open>C i\<close> and \<open>D i\<close> are the two
    ends of the connection to node \<open>i\<close>. The answers of different nodes are not interleaved segment by segment.
  \<^item> \<open>Event_Stop\<close>: the loop and the poller as objects, \<open>Loop\<close> with its stop flag and the
    handler of \<open>SIGINT\<close>, on top of the rounds of \<open>Event_Loop\<close>. \<open>Net_Socket\<close>:
    \<open>net/SocketWrapper\<close>, its loop over addresses a partial function. \<open>Leveldb_Slice\<close>: the
    inline operations of \<open>leveldb/slice.h\<close> and \<open>leveldb/status.h\<close>.
  \<^item> \<open>Redis_Base\<close>, \<open>Redis_Channel\<close>, \<open>Redis_Order\<close>: \<open>eventloop/RedisChannel\<close> over the
    replies and commands of \<open>redis/hiredis.h\<close>: construction, hooks, the parser of a topic's
    messages and the hold-back queue, with the specification \<open>settled\<close> of what it has
    delivered. \<open>Log_Restore\<close>: \<open>log/Logger\<close> against the specification \<open>unfinished\<close>, and
    \<open>log/Exception\<close>. \<open>Sync_Timer\<close>: \<open>timer/Timer\<close>, which expires players in redis
    transactions and marks them in the log that \<open>Logger\<close> reads. This group comes from the
    program the repository started from; \<open>main\<close> does not use it.
  \<^item> this theory: all executions, and events that cut across the parts.

  \<^bold>\<open>What the theorems show.\<close>
  The codec round-trips, announces its sizes and its parsers return. Every state between
  two rounds of the loop satisfies the invariant, and its log is well-typed; every round returns,
  and only extends log and proxies; a node that joined never leads. Frames leave in order and
  are cut out again as they were sent, however TCP segments them, except where a buffer is moved by an overlapping
  \<open>memcpy\<close>; the \<open>AppendEntries\<close>
  handler refines the abstract follower, the rounds of a cluster of event loops, from the leader's timer over bytes cut in any way
  and back, move every node that runs one entry ahead, and when these are a majority, repeated steps bring
  the leader's log to all of them and commit it on all of them, while nothing is committed that a
  majority does not hold; the commit index moves by quorum only,
  and does when a majority has acknowledged; after a crash between two rounds of any execution
  the database holds all that was logged, and the memory around blocks and values decides whether a restart reads
  it back; \<open>SIGINT\<close> ends the loop. The
  hold-back queue delivers in order whatever order messages arrive in, and an expiry that a crash
  interrupts is recovered from the log. Other theorems state where the
  code departs from what it means to do: duplicated entries on redelivery, commit by stale
  messages, an election that never happens, memory errors that a peer can cause, and so on;
  each names the reason.

  \<^bold>\<open>Parameters, loops and bounds.\<close>
  The protobuf runtime, leveldb, the results of system calls, the memory behind two blocks
  that the program reads beyond their end, and whether \<open>memcpy\<close>, whose behaviour on overlapping blocks is
  undefined, happens to move bytes to a lower address correctly are arguments of the model (record \<open>env\<close>, record \<open>input\<close>,
  record \<open>boot\<close>); so are whether hiredis takes a command, and its replies. There is no
  fuel: the parse loop, the receiving loop and the loop over addresses are partial
  functions into \<open>option\<close>; for the last, \<open>socket_opens_single_address\<close> says when it
  returns, and \<open>parse_terminates\<close> and \<open>round_returns_and_extends\<close> show that
  they return on every input. Indices are bounded in theorems where the code adds in 32 bits,
  and the wrapped cases have their own statements.

  \<^bold>\<open>Not modelled.\<close>
  Time stamps, printing apart from what \<open>timer/Timer\<close> says of replies, and the handlers of
  \<open>SIGPIPE\<close> and \<open>SIGSEGV\<close>; the enums of \<open>Nanoraft.h\<close> and the first constructor of
  \<open>timer/Timer\<close>, which nothing uses; the server \<open>SyncServer\<close> that \<open>timer/Timer\<close> calls,
  which is not in the repository; descriptors, reflection, destructors and cached sizes of the generated messages; the
  other headers of leveldb, hiredis and protobuf, whose code is prebuilt. The descriptor that
  \<open>join\<close> connects with and those of the timers are given. Threads do not
  occur: the program is one event loop.
\<close>

section \<open>All executions\<close>

lemma calm_env_db: "calm_db calm_env"
  using leb.wire_nul_free_axioms idx.ldb_engine_axioms by (simp add: calm_db_def)

text \<open>
  C1. The invariant of every execution. In every state between two rounds of the event loop,
  after any start-up and any sequence of events, messages and partial sends, the maps are
  in order, every proxy exists, is stored under its id and has its next index right behind
  its match index; every registered descriptor belongs to a live connection with this
  descriptor, every live connection is owned, and both its buffers are within bounds.
\<close>

theorem reachable_invariant:
  assumes "network E" and "reachable E w"
  shows "world_ok w"
  by (rule network.reachable_world_ok [OF assms])

theorem reachable_invariant_witness: "\<exists>w. reachable calm_env w \<and> world_ok w \<and> s_stRole (w_server w) = Leader"
  using calm_reachable reachable_invariant [OF calm.network_axioms] by blast

text \<open>
  C2. Every round of the event loop returns (with a result or a crash; no loop in a callback
  runs forever, whatever bytes arrive), and a round only adds: the log in memory afterwards
  extends the log before, no proxy is forgotten, and the system calls made so far stay as
  they were.
\<close>

theorem round_returns_and_extends:
  assumes "network E"
  shows "\<exists>r. EventLoop_round E evs w = Some r \<and> (\<forall>w'. r = Inr w' \<longrightarrow>
    prefix (s_stEntries (w_server w)) (s_stEntries (w_server w')) \<and> prefix (w_trace w) (w_trace w')
    \<and> (\<forall>k. om_find k (s_stProxys (w_server w)) \<noteq> None \<longrightarrow> om_find k (s_stProxys (w_server w')) \<noteq> None))"
  using network.rsteps_round [OF assms, of w evs] by (auto simp: rsteps_def rstep_def extends_def)

definition quiet :: input where
  "quiet = \<lparr>i_recv = RecvError, i_connect = ConnectFailed, i_accept = None\<rparr>"

theorem round_returns_and_extends_witness:
  "\<exists>r. EventLoop_round calm_env [(Ch_Conn 0, EPOLLIN, quiet\<lparr>i_recv := RecvData [1, 2, 3]\<rparr>)] calm_world = Some r"
  using round_returns_and_extends [OF calm.network_axioms,
      of "[(Ch_Conn 0, EPOLLIN, quiet\<lparr>i_recv := RecvData [1, 2, 3]\<rparr>)]" calm_world] by blast

text \<open>What the start leaves in the log and the database is typed and durable, so every execution keeps it.\<close>

lemma runs_extend:
  assumes "network E" and "main E b argv = Inr (Some w0)" and "runs E w0 w"
  obtains s r where "RaftServer_new (b_iServerFd b) (b_pstStateDB b) (b_pstEntriesDB b) = Inr s"
    and "extends E (s\<lparr>s_stRole := r\<rparr>) (w_server w)" and "world_ok w"
proof -
  have r: "rstep E w0 w" by (rule network.runs_rstep [OF assms(1,3)])
  with network.main_ok [OF assms(1,2)] show ?thesis using that by (auto simp: rstep_def intro: extends_trans)
qed

lemma reachable_typed:
  assumes "network E" and "reachable E w"
  shows "list_all cfg_typed (s_stEntries (w_server w))"
proof -
  obtain b argv w0 where "main E b argv = Inr (Some w0)" "runs E w0 w" using reachable_runs [OF assms(2)] by blast
  from runs_extend [OF assms(1) this] obtain s r where
    s: "RaftServer_new (b_iServerFd b) (b_pstStateDB b) (b_pstEntriesDB b) = Inr s"
      "extends E (s\<lparr>s_stRole := r\<rparr>) (w_server w)" by metis
  then show ?thesis using RaftServer_new_facts(4) [OF s(1)] by (simp add: extends_def)
qed

text \<open>
  C12. The types of the log. In every reachable state, whatever the peers have sent, every entry of
  the log is of type \<open>CFGADD\<close>, a value of the enum \<open>entry_entrytype\<close>, and carries no unknown
  fields; \<open>NORMAL\<close>, \<open>CFGREM\<close> and numbers outside the enum, which the parser lets pass, never
  get in.
\<close>

theorem reachable_types:
  assumes "network E" and "reachable E w"
  shows "\<forall>e \<in> set (s_stEntries (w_server w)).
    en_type e = CFGADD \<and> entry_entrytype_IsValid (sint (en_type e)) \<and> en_unknown e = []"
  using reachable_typed [OF assms] unfolding list_all_iff cfg_typed_def by blast

theorem reachable_types_witness:
  "\<exists>w. reachable calm_env w \<and> s_stRole (w_server w) = Leader \<and> (\<forall>e \<in> set (s_stEntries (w_server w)). en_type e = CFGADD)"
  using calm_reachable reachable_types [OF calm.network_axioms] by blast

text \<open>
  C13. A node that joined never leads: from the command \<open>join\<close> on, no event, message or timer
  makes it the leader, since only the command \<open>start\<close> does. So there is at most the one leader
  that was started, and none after it is gone.
\<close>

theorem join_never_leads:
  assumes "network E" and "main_join b addr join_port node port = Inr w0" and "runs E w0 w"
  shows "s_stRole (w_server w) \<noteq> Leader"
proof -
  obtain s where s: "RaftServer_new (b_iServerFd b) (b_pstStateDB b) (b_pstEntriesDB b) = Inr s"
      "extends E s (w_server w0)"
    using network.main_join_ok [OF assms(1,2)] by blast
  with network.runs_rstep [OF assms(1,3)] have "extends E s (w_server w)" by (auto simp: rstep_def intro: extends_trans)
  with RaftServer_new_facts [OF s(1)] show ?thesis by (auto simp: extends_def)
qed

theorem join_never_leads_witness:
  "\<exists>w0. main_join calm_boot (str ''h'') 81 2 80 = Inr w0
    \<and> (\<forall>w. runs calm_env w0 w \<longrightarrow> s_stRole (w_server w) \<noteq> Leader)"
proof -
  have "\<exists>w0. main_join calm_boot (str ''h'') 81 2 80 = Inr w0"
    by (simp add: main_join_def calm_boot_def RaftServer_new_def RaftServer_ConnectToPeer_def new_world_def Conn_new_def
        Conn_Init_def Conn_TryConnect_def Conn_channel_def with_conn_def set_conn_def emit_def Let_def split: prod.split)
  then show ?thesis using join_never_leads [OF calm.network_axioms] by blast
qed

lemma runs_durable:
  assumes "network E" and "calm_db E" and "main E b argv = Inr (Some w0)" and "runs E w0 w"
    and "b_pstEntriesDB b = Some db" and "ldb_Iter (e_entries_db E) db = []" and "ldb_IterOk (e_entries_db E) db"
    and "length (s_stEntries (w_server w)) < 2 ^ 31" and "\<forall>e \<in> set (s_stEntries (w_server w)). 0 \<notin> set (en_host e)"
  shows "durable E (w_server w)" and "list_all cfg_typed (s_stEntries (w_server w))"
proof -
  obtain s r where s: "RaftServer_new (b_iServerFd b) (b_pstStateDB b) (b_pstEntriesDB b) = Inr s"
      "extends E (s\<lparr>s_stRole := r\<rparr>) (w_server w)"
    using runs_extend [OF assms(1,3,4)] by metis
  note f = RaftServer_new_facts [OF s(1)]
  have "durable E (s\<lparr>s_stRole := r\<rparr>)" "srv_inv (s\<lparr>s_stRole := r\<rparr>)"
    using f assms(5-7) by (simp_all add: durable_def kept_def srv_inv_def)
  moreover have "storable (s_stEntries (w_server w))" using assms(8,9) by (simp add: storable_def list_all_iff)
  ultimately show "durable E (w_server w)" using s(2) assms(2) by (simp add: extends_def)
  show "list_all cfg_typed (s_stEntries (w_server w))" using s(2) f(4) by (simp add: extends_def)
qed

text \<open>
  C7. What a crash leaves, and when a restart recovers it. Start from an empty database that accepts every
  write, and stop the process between two rounds of any execution, with fewer than \<open>2^31\<close> entries in the
  log and no zero byte in a host name. Then every entry of the log is in the database, in order and under its
  index; its value is the serialised entry followed by what lay in memory behind the heap block, up to the next
  zero byte. Whether \<open>restart\<close> recovers the log is a matter of memory. When each block was followed by a
  zero byte at once, each value is followed in memory by a zero byte and 127 more bytes that can be read, and the
  entries are shorter than 128 bytes with host names in valid UTF-8, then \<open>restart\<close> returns with exactly the
  log that was in memory and a proxy for every node in it. When behind one value there are not enough bytes to make
  up 128, it reads over the end. (That bytes behind a value can also change the entries is \<open>LoadEntries_misreads\<close>.)
\<close>

theorem crash_recovers_log:
  assumes "network E" and "calm_db E" and "main E b argv = Inr (Some w0)" and "runs E w0 w"
    and "b_pstEntriesDB b = Some db" and "ldb_Iter (e_entries_db E) db = []" and "ldb_IterOk (e_entries_db E) db"
    and "length (s_stEntries (w_server w)) < 2 ^ 31" and "\<forall>e \<in> set (s_stEntries (w_server w)). 0 \<notin> set (en_host e)"
    and "b_pstStateDB b' = Some sdb" and "b_pstEntriesDB b' = Some (s_pstEntriesDB (w_server w))"
  defines "log \<equiv> s_stEntries (w_server w)"
  defines "on_disk \<equiv> ldb_Iter (e_entries_db E) (s_pstEntriesDB (w_server w))"
  shows "(\<exists>ns. length ns = length log \<and> on_disk = indexed (map2 (\<lambda>e n.
        entry_InternalSerializeWithCachedSizesToArray (e_wire E) e @ takeWhile (\<lambda>b. b \<noteq> 0) (e_after E n)) log ns))
    \<and> ((\<forall>n. \<exists>r. e_after E n = 0 # r) \<and> (\<forall>n. \<exists>r. e_value_after E n = 0 # r \<and> 127 \<le> length r)
        \<and> (\<forall>e \<in> set log. VerifyUtf8String (e_wire E) (en_host e)
             \<and> length (entry_InternalSerializeWithCachedSizesToArray (e_wire E) e) < 128) \<longrightarrow>
        (\<exists>w'. main_restart E b' = Inr w' \<and> s_stEntries (w_server w') = log
          \<and> (\<forall>e \<in> set log. \<exists>p. om_find (en_nodeid e) (s_stProxys (w_server w')) = Some (Some p))))
    \<and> (\<forall>j < length log. length (snd (on_disk ! j)) + length (e_value_after E j) < 128 \<longrightarrow> main_restart E b' = Inl OverRead)"
proof -
  let ?s = "w_server w"
  have d: "durable E ?s" and t: "list_all cfg_typed log"
    using runs_durable [OF assms(1-9)] by (simp_all add: log_def)
  then obtain ns where ns: "length ns = length log" "on_disk = indexed (map2 (\<lambda>e n. ser (e_wire E) e @ junk E n) log ns)"
    unfolding durable_def kept_def log_def on_disk_def by blast
  obtain fresh where n: "RaftServer_new (b_iServerFd b') (Some sdb) (Some (s_pstEntriesDB ?s)) = Inr fresh"
    by (simp add: RaftServer_new_def)
  have wf: "wire_format (e_wire E)" using assms(2) by (simp add: calm_db_def wire_nul_free_def)
  have restart: "main_restart E b' = rbind (RaftServer_LoadEntries E fresh) (\<lambda>s. Inr (new_world s))"
    using n assms(10,11) by (simp add: main_restart_def)
  have over: "main_restart E b' = Inl OverRead"
    if "j < length log" "length (snd (on_disk ! j)) + length (e_value_after E j) < 128" for j
    using LoadEntries_over_read [OF wire_format.axioms(1) [OF wf] n, of j] that ns
    by (simp add: restart on_disk_def)
  have recov: "\<exists>w'. main_restart E b' = Inr w' \<and> s_stEntries (w_server w') = log
      \<and> (\<forall>e \<in> set log. \<exists>p. om_find (en_nodeid e) (s_stProxys (w_server w')) = Some (Some p))"
    if mem: "\<forall>n. \<exists>r. e_after E n = 0 # r" "\<forall>n. \<exists>r. e_value_after E n = 0 # r \<and> 127 \<le> length r"
      and e: "\<forall>e \<in> set log. VerifyUtf8String (e_wire E) (en_host e) \<and> length (ser (e_wire E) e) < 128"
  proof -
    have "reads_as E n e e" if "e \<in> set log" for n e
      using reads_before_zero [OF wf, of e n] mem(2) e t that by (fastforce simp: list_all_iff cfg_typed_def entry_plain_def)
    moreover have "junk E n = []" for n using mem(1) [rule_format, of n] by (auto simp: junk_def)
    ultimately obtain s' where "RaftServer_LoadEntries E fresh = Inr s'" "s_stEntries s' = map id log"
        "\<forall>e \<in> set log. en_type e = CFGADD \<longrightarrow> (\<exists>p. om_find (en_nodeid e) (s_stProxys s') = Some (Some p))"
      using LoadEntries_reads [of E ?s id, OF kept_stored _ _ n] d by (auto simp: log_def durable_def)
    with t show ?thesis by (simp add: restart new_world_def list_all_iff cfg_typed_def)
  qed
  show ?thesis using ns over recov unfolding junk_def by blast
qed

theorem crash_recovers_log_witness:
  "\<exists>w w'. reachable calm_env w
    \<and> main_restart calm_env (calm_boot\<lparr>b_pstEntriesDB := Some (s_pstEntriesDB (w_server w))\<rparr>) = Inr w'
    \<and> s_stEntries (w_server w') = [cfg_entry 0 (str ''192.168.1.46'') 80 1]"
proof -
  let ?e = "cfg_entry 0 (str ''192.168.1.46'') 80 1"
  obtain w where w: "main calm_env calm_boot [[], str ''start'', str ''1'', str ''80''] = Inr (Some w)"
      "s_stEntries (w_server w) = [?e]"
    using calm_start by blast
  have mem: "\<forall>n. \<exists>r. e_value_after calm_env n = 0 # r \<and> 127 \<le> length r"
    by (simp add: numeral_eq_Suc)
  have "length (ser leb_wire ?e) = entry_ByteSizeLong leb_wire ?e"
    by (rule wire_format.entry_size) (rule leb.wire_format_axioms)
  also have "\<dots> < 128" by code_simp
  finally have "length (ser leb_wire ?e) < 128" .
  moreover have "VerifyUtf8String leb_wire (en_host ?e)" by code_simp
  ultimately have "\<exists>w'. main_restart calm_env (calm_boot\<lparr>b_pstEntriesDB := Some (s_pstEntriesDB (w_server w))\<rparr>) = Inr w'
      \<and> s_stEntries (w_server w') = s_stEntries (w_server w)"
    using crash_recovers_log [OF calm.network_axioms calm_env_db w(1) runs.idle, of "[]"
        "calm_boot\<lparr>b_pstEntriesDB := Some (s_pstEntriesDB (w_server w))\<rparr>" "[]"] mem w(2) start_host
    by (auto simp: calm_boot_def cfg_entry_def)
  with w show ?thesis using reachable.boot by fastforce
qed

text \<open>
  C19. Stopping the server: when \<open>SIGINT\<close> arrives in a round of a running loop, the events of
  that round are still handled and \<open>Loop\<close> returns behind it, whatever the rounds to come
  would bring; the state it leaves is a reachable one.
\<close>

theorem stop_ends_loop:
  assumes "reachable E w" and "EventLoop_Loop E rs (el, w) = Some (Inr (False, el1, w1))"
    and "wt_sigint r" and "loop_round E r (el1, w1) = Some (Inr (el2, w2))"
  shows "EventLoop_Loop E (rs @ r # rs') (el, w) = Some (Inr (True, el2, w2)) \<and> reachable E w2"
proof -
  let ?el = "el\<lparr>el_bIsStop := False\<rparr>"
  have run: "loop_rounds E rs (?el, w) = Some (Inr (False, el1, w1))" using assms(2) by (simp add: EventLoop_Loop_def)
  have "reachable E w1" "\<not> el_bIsStop el1" using loop_rounds_reachable [OF run assms(1)] by auto
  moreover have "el_bIsStop el2" using loop_round_world [OF assms(4)] assms(3) by (simp add: EventLoop_StopLoop_def)
  moreover have "reachable E w2" using loop_round_world [OF assms(4)] reachable.round calculation(1) by metis
  ultimately show ?thesis
    using assms(4) loop_rounds_append [OF run, of "r # rs'"] by (cases rs') (auto simp: EventLoop_Loop_def)
qed

theorem stop_ends_loop_witness:
  "\<exists>w el'. reachable calm_env w
    \<and> EventLoop_Loop calm_env [\<lparr>wt_iNumEvents = 0, wt_events = [], wt_sigint = True\<rparr>, \<lparr>wt_iNumEvents = 1, wt_events = [], wt_sigint = False\<rparr>] (EventLoop_new 6, w) = Some (Inr (True, el', w))"
proof -
  let ?r = "\<lparr>wt_iNumEvents = 0, wt_events = [], wt_sigint = True\<rparr>" and ?el = "EventLoop_new 6"
  obtain w where w: "reachable calm_env w" using calm_reachable by blast
  have run: "EventLoop_Loop calm_env [] (?el, w) = Some (Inr (False, ?el\<lparr>el_bIsStop := False\<rparr>, w))"
    by (simp add: EventLoop_Loop_def)
  have "loop_round calm_env ?r (?el\<lparr>el_bIsStop := False\<rparr>, w) = Some (Inr (EventLoop_StopLoop (?el\<lparr>el_bIsStop := False\<rparr>), w))"
    by (simp add: loop_round_def EPoller_Poll_def)
  from stop_ends_loop [OF w run _ this, of "[\<lparr>wt_iNumEvents = 1, wt_events = [], wt_sigint = False\<rparr>]"] w show ?thesis by auto
qed

section \<open>Events that end badly or change little\<close>

lemma CloseCallback_destroys:
  assumes ok: "world_ok w" and x: "w_conns w c = Some x" and reg: "om_find (cn_iFd x) (s_stConns (w_server w)) = Some c"
    and pin: "c \<notin> set (w_pins w)" and al: "w_alive w"
  shows "\<exists>w'. Conn_CloseCallback c w = Inr w' \<and> w_conns w' c = None"
proof -
  let ?fd = "cn_iFd x" and ?s = "w_server w"
  obtain ch eff where ch: "Channel_DisableAll (cn_pstChannel x) = (ch, eff)" by fastforce
  define w1 where "w1 = (emit [CloseCall ?fd] (emit eff (set_conn c (x\<lparr>cn_pstChannel := ch\<rparr>) w)))
    \<lparr>w_server := ?s\<lparr>s_stConns := om_erase ?fd (s_stConns ?s)\<rparr>\<rparr>"
  have "Conn_CloseCallback c w = Inr (release c w1)"
    using x reg al ch
    by (simp add: Conn_CloseCallback_def Conn_channel_def with_conn_def OfflineConn_def RaftServer_OfflineConn_def
        set_conn_def emit_def w1_def)
  moreover have "\<not> owned w1 c"
  proof -
    have okm: "om_ok (om_erase ?fd (s_stConns ?s))" "om_ok (s_stConns ?s)"
      using ok by (simp_all add: world_ok_def srv_inv_def)
    have "fd = ?fd" if "om_find fd (s_stConns ?s) = Some c" for fd
      using world_ok_fd [OF ok that x] by simp
    then have "(fd, c) \<notin> set (om_erase ?fd (s_stConns ?s))" for fd
      using om.elements_find [OF okm(1)] om_find_erase [OF okm(2)] by auto
    then show ?thesis using pin by (force simp: owned_def w1_def set_conn_def emit_def)
  qed
  ultimately show ?thesis
    by (auto simp: release_def Conn_destroy_def Let_def emit_def split: option.split)
qed

text \<open>
  C37. A peer that closes its connection makes the server use freed memory. When an
  accepted connection (owned by the server's map alone) becomes readable and \<open>recv\<close> returns
  0, \<open>CloseCallback\<close> destroys the connection together with the channel whose
  \<open>HandleEvent\<close> is running, and \<open>HandleEvent\<close> goes on to read that channel's events.
\<close>

theorem shutdown_use_after_free:
  assumes "world_ok w" and "w_conns w c = Some x" and "om_find (cn_iFd x) (s_stConns (w_server w)) = Some c"
    and "c \<notin> set (w_pins w)" and "w_alive w"
    and "ch_pstConn (cn_pstChannel x) = Some (Tied_Conn c)"
    and "ch_stReadCallback (cn_pstChannel x) = Some Bind_RecvCallback"
    and "ch_iRevents (cn_pstChannel x) = EPOLLIN" and "i_recv inp = RecvShutdown"
  shows "Channel_HandleEvent E inp (Ch_Conn c) w = Some (Inl UseAfterFree)"
proof -
  obtain w' where w': "Conn_CloseCallback c w = Inr w'" "w_conns w' c = None"
    using CloseCallback_destroys [OF assms(1-5)] by blast
  have idle: "fire E inp (Ch_Conn c) EPOLLHUP f w = Some (Inr w)" "fire E inp (Ch_Conn c) EPOLLERR f w = Some (Inr w)" for f
    using assms(2,8) by (simp_all add: fire_def event_masks)
  have "fire E inp (Ch_Conn c) (EPOLLIN OR EPOLLPRI) ch_stReadCallback w = Some (Inr w')"
    using assms(2,5,7-9) w'(1) by (simp add: fire_def event_masks Conn_RecvCallback_def)
  moreover have "fire E inp (Ch_Conn c) EPOLLOUT ch_stWriteCallback w' = Some (Inl UseAfterFree)"
    using w'(2) by (simp add: fire_def)
  ultimately show ?thesis using assms(2,6) idle by (simp add: Channel_HandleEvent_def)
qed

theorem shutdown_use_after_free_witness:
  "let x = calm_conn\<lparr>cn_pstChannel := (cn_pstChannel calm_conn)\<lparr>ch_iRevents := EPOLLIN\<rparr>\<rparr> in
   Channel_HandleEvent calm_env (quiet\<lparr>i_recv := RecvShutdown\<rparr>) (Ch_Conn 0) (set_conn 0 x calm_world) =
     Some (Inl UseAfterFree)"
proof -
  let ?x = "calm_conn\<lparr>cn_pstChannel := (cn_pstChannel calm_conn)\<lparr>ch_iRevents := EPOLLIN\<rparr>\<rparr>"
  have "world_ok (set_conn 0 ?x calm_world)"
    using wstep_set_conn [of calm_world 0 calm_conn ?x] calm_world_ok
    by (simp add: wstep_def same_in_def out_ok_def calm_conn_def buf_ok_def)
  then show ?thesis
    using shutdown_use_after_free [of "set_conn 0 ?x calm_world" 0 ?x "quiet\<lparr>i_recv := RecvShutdown\<rparr>" calm_env]
    by (simp add: set_conn_def quiet_def) (simp add: calm_conn_def)
qed

text \<open>
  No election. When the heartbeat of the leader fails to come, the follower's timer
  raises its term by one in memory, and that is all: the role stays, the new term is not
  stored, no vote is cast and no message is sent.
\<close>

lemma timeout_no_election:
  assumes "w_alive w" and "find_timer k w = Some t"
  shows "\<exists>w'. Timer_HeartBeatTimeoutCallback k w = Inr w'
    \<and> w_server w' = (w_server w)\<lparr>s_dwCurrentTerm := s_dwCurrentTerm (w_server w) + 1\<rparr>
    \<and> w_trace w' = w_trace w @ [ReadTimerCall (t_iFd t)] \<and> w_conns w' = w_conns w"
  using assms
  by (simp add: Timer_HeartBeatTimeoutCallback_def RaftServer_BroadCastRequestVote_def upd_server_def RaftServer_BecomeCandidate_def emit_def)

end
